(* ===== verification/Prosody_Prelude.thy ===== *)
theory Prosody_Prelude
  imports Complex_Main "HOL-Library.Word"
begin

text \<open>
  Vocabulary shared by every component theory of the library: the machine integer types of
  the Rust extension, results as sums, the state-passing operations with errors that model
  a Rust function running against an external service, Rust's decimal and debug printing of
  numbers and strings, and the lemma collections the component proofs use.

  A Rust \<open>Result<T, E>\<close> is \<open>'e + 't\<close> with \<open>Inl\<close> the error; \<open>Option<T>\<close> is
  \<open>'t option\<close>; \<open>usize\<close> is 64 bits wide (the extension is built for 64-bit targets).
\<close>

subsection \<open>Machine integers\<close>

type_synonym u16 = "16 word"
type_synonym u32 = "32 word"
type_synonym u64 = "64 word"
type_synonym i32 = "32 word"
type_synonym i64 = "64 word"
type_synonym usize = "64 word"

text \<open>Rust's \<open>as usize\<close> on a \<open>u32\<close>: a zero extension.\<close>

definition as_usize :: "u32 \<Rightarrow> usize" where
  "as_usize x = ucast x"

lemma unat_as_usize [simp]: "unat (as_usize x) = unat x"
proof -
  have "unat x < 2 ^ 64" using unsigned_less [of x, where ?'a = nat] by simp
  then show ?thesis by (simp add: as_usize_def unsigned_ucast_eq take_bit_nat_eq_self)
qed

lemma as_usize_eq_0_iff [simp]: "as_usize x = 0 \<longleftrightarrow> x = 0"
  by (metis unat_as_usize unat_eq_zero)

text \<open>Rust's \<open>checked_add\<close> on \<open>u32\<close>: \<open>None\<close> on overflow.\<close>

definition checked_add_u32 :: "u32 \<Rightarrow> u32 \<Rightarrow> u32 option" where
  "checked_add_u32 a b = (if unat a + unat b < 2 ^ 32 then Some (a + b) else None)"

lemma checked_add_u32_SomeD: "checked_add_u32 a b = Some c \<Longrightarrow> unat c = unat a + unat b"
  by (auto simp: checked_add_u32_def unat_word_ariths split: if_splits)

lemma checked_add_u32_None_iff: "checked_add_u32 a b = None \<longleftrightarrow> 2 ^ 32 \<le> unat a + unat b"
  by (auto simp: checked_add_u32_def)

text \<open>Rust's \<open>u32::try_from\<close> and the conversion of a Ruby Integer to \<open>usize\<close>.\<close>

definition u32_try_from :: "int \<Rightarrow> u32 option" where
  "u32_try_from n = (if 0 \<le> n \<and> n < 2 ^ 32 then Some (word_of_int n) else None)"

definition usize_try_from :: "int \<Rightarrow> usize option" where
  "usize_try_from n = (if 0 \<le> n \<and> n < 2 ^ 64 then Some (word_of_int n) else None)"

lemma u32_try_from_SomeD: "u32_try_from n = Some w \<Longrightarrow> uint w = n"
  by (auto simp: u32_try_from_def uint_word_of_int take_bit_int_eq_self split: if_splits)

lemma usize_try_from_SomeD: "usize_try_from n = Some w \<Longrightarrow> uint w = n"
  by (auto simp: usize_try_from_def uint_word_of_int take_bit_int_eq_self split: if_splits)

lemma u32_try_from_uint [simp]: "u32_try_from (uint w) = Some w"
  using uint_lt2p [of w] by (simp add: u32_try_from_def)

lemma usize_try_from_uint [simp]: "usize_try_from (uint w) = Some w"
  using uint_lt2p [of w] by (simp add: usize_try_from_def)

subsection \<open>Results\<close>

definition map_err :: "('e \<Rightarrow> 'f) \<Rightarrow> 'e + 'a \<Rightarrow> 'f + 'a" where
  "map_err f r = (case r of Inl e \<Rightarrow> Inl (f e) | Inr x \<Rightarrow> Inr x)"

definition res_map :: "('a \<Rightarrow> 'b) \<Rightarrow> 'e + 'a \<Rightarrow> 'e + 'b" where
  "res_map f r = (case r of Inl e \<Rightarrow> Inl e | Inr x \<Rightarrow> Inr (f x))"

definition res_bind :: "'e + 'a \<Rightarrow> ('a \<Rightarrow> 'e + 'b) \<Rightarrow> 'e + 'b" where
  "res_bind r f = (case r of Inl e \<Rightarrow> Inl e | Inr x \<Rightarrow> f x)"

lemma map_err_simps [simp]: "map_err f (Inl e) = Inl (f e)" "map_err f (Inr x) = Inr x"
  by (simp_all add: map_err_def)

lemma res_map_simps [simp]: "res_map f (Inl e) = Inl e" "res_map f (Inr x) = Inr (f x)"
  by (simp_all add: res_map_def)

lemma res_bind_simps [simp]: "res_bind (Inl e) f = Inl e" "res_bind (Inr x) f = f x"
  by (simp_all add: res_bind_def)

lemma map_err_eq_Inr_iff [simp]: "map_err f r = Inr x \<longleftrightarrow> r = Inr x"
  by (cases r) simp_all

lemma map_err_eq_Inl_iff: "map_err f r = Inl e \<longleftrightarrow> (\<exists>d. r = Inl d \<and> e = f d)"
  by (cases r) auto

lemma res_map_eq_Inr_iff: "res_map f r = Inr y \<longleftrightarrow> (\<exists>x. r = Inr x \<and> y = f x)"
  by (cases r) auto

lemma res_map_eq_Inl_iff [simp]: "res_map f r = Inl e \<longleftrightarrow> r = Inl e"
  by (cases r) simp_all

lemma res_bind_eq_Inr_iff: "res_bind r f = Inr y \<longleftrightarrow> (\<exists>x. r = Inr x \<and> f x = Inr y)"
  by (cases r) auto

lemma res_bind_eq_Inl_iff:
  "res_bind r f = Inl e \<longleftrightarrow> r = Inl e \<or> (\<exists>x. r = Inr x \<and> f x = Inl e)"
  by (cases r) auto

text \<open>\<open>option.map(f).transpose()?\<close>\<close>

fun opt_traverse :: "('a \<Rightarrow> 'e + 'b) \<Rightarrow> 'a option \<Rightarrow> 'e + 'b option" where
  "opt_traverse f None = Inr None"
| "opt_traverse f (Some x) = res_map Some (f x)"

lemma opt_traverse_None_iff: "opt_traverse f v = Inr None \<longleftrightarrow> v = None"
  by (cases v) (auto simp: res_map_eq_Inr_iff)

lemma opt_traverse_Some_iff:
  "opt_traverse f v = Inr (Some y) \<longleftrightarrow> (\<exists>x. v = Some x \<and> f x = Inr y)"
  by (cases v) (auto simp: res_map_eq_Inr_iff)

text \<open>
  Collecting an iterator of results, which stops at the first error
  (\<open>collect::<Result<Vec<_>, _>>\<close>, \<open>ary_try_from_iter\<close>).
\<close>

fun traverse :: "('a \<Rightarrow> 'e + 'b) \<Rightarrow> 'a list \<Rightarrow> 'e + 'b list" where
  "traverse f [] = Inr []"
| "traverse f (x # xs) =
     (case f x of Inl e \<Rightarrow> Inl e | Inr y \<Rightarrow> res_map ((#) y) (traverse f xs))"

lemma traverse_Inr_iff: "traverse f xs = Inr ys \<longleftrightarrow> list_all2 (\<lambda>x y. f x = Inr y) xs ys"
  by (induction xs arbitrary: ys)
     (auto simp: res_map_eq_Inr_iff list_all2_Cons1 split: sum.splits)

lemma traverse_total: "(\<And>x. x \<in> set xs \<Longrightarrow> f x = Inr (g x)) \<Longrightarrow> traverse f xs = Inr (map g xs)"
  by (induction xs) auto

lemma traverse_InlD:
  "traverse f xs = Inl e \<Longrightarrow>
     \<exists>us x vs. xs = us @ x # vs \<and> (\<forall>u\<in>set us. \<exists>y. f u = Inr y) \<and> f x = Inl e"
proof (induction xs)
  case Nil
  then show ?case by simp
next
  case (Cons a xs)
  show ?case
  proof (cases "f a")
    case (Inl d)
    with Cons.prems have "a # xs = [] @ a # xs \<and> (\<forall>u\<in>set []. \<exists>y. f u = Inr y) \<and> f a = Inl e"
      by simp
    then show ?thesis by blast
  next
    case (Inr b)
    with Cons.prems have "traverse f xs = Inl e" by simp
    then obtain us x vs where "xs = us @ x # vs" "\<forall>u\<in>set us. \<exists>y. f u = Inr y" "f x = Inl e"
      using Cons.IH by blast
    with Inr have "a # xs = (a # us) @ x # vs \<and> (\<forall>u\<in>set (a # us). \<exists>y. f u = Inr y) \<and> f x = Inl e"
      by simp
    then show ?thesis by blast
  qed
qed

lemma traverse_first_error:
  "(\<And>u. u \<in> set us \<Longrightarrow> \<exists>y. f u = Inr y) \<Longrightarrow> f x = Inl e \<Longrightarrow> traverse f (us @ x # vs) = Inl e"
proof (induction us)
  case Nil
  then show ?case by simp
next
  case (Cons a us)
  from Cons.prems(1) [of a] obtain y where "f a = Inr y" by auto
  with Cons show ?case by simp
qed

subsection \<open>Operations against an external service\<close>

text \<open>
  A Rust function that awaits calls of the Prosody core and may return early with an error
  is a function of the service's state \<open>'s\<close>. An early return keeps the effects of the
  calls already made, so the state is returned beside the result in both cases.
\<close>

type_synonym ('s, 'e, 'a) op = "'s \<Rightarrow> ('e + 'a) \<times> 's"

definition op_ok :: "'a \<Rightarrow> ('s, 'e, 'a) op" where
  "op_ok x = (\<lambda>s. (Inr x, s))"

definition op_err :: "'e \<Rightarrow> ('s, 'e, 'a) op" where
  "op_err e = (\<lambda>s. (Inl e, s))"

definition op_lift :: "'e + 'a \<Rightarrow> ('s, 'e, 'a) op" where
  "op_lift r = (\<lambda>s. (r, s))"

definition op_bind :: "('s, 'e, 'a) op \<Rightarrow> ('a \<Rightarrow> ('s, 'e, 'b) op) \<Rightarrow> ('s, 'e, 'b) op" where
  "op_bind m f = (\<lambda>s. case m s of (r, t) \<Rightarrow> (case r of Inl e \<Rightarrow> (Inl e, t) | Inr x \<Rightarrow> f x t))"

definition op_map_err :: "('e \<Rightarrow> 'f) \<Rightarrow> ('s, 'e, 'a) op \<Rightarrow> ('s, 'f, 'a) op" where
  "op_map_err f m = (\<lambda>s. case m s of (r, t) \<Rightarrow> (map_err f r, t))"

definition op_map :: "('a \<Rightarrow> 'b) \<Rightarrow> ('s, 'e, 'a) op \<Rightarrow> ('s, 'e, 'b) op" where
  "op_map f m = (\<lambda>s. case m s of (r, t) \<Rightarrow> (res_map f r, t))"

text \<open>\<open>begin m ensure f end\<close>: an exception of \<open>f\<close> replaces what \<open>m\<close> returned or raised.\<close>

definition op_ensure :: "('s, 'e, 'a) op \<Rightarrow> ('s, 'e, 'b) op \<Rightarrow> ('s, 'e, 'a) op" where
  "op_ensure m f =
     (\<lambda>s. case m s of (r, t) \<Rightarrow> (case f t of (Inl e, u) \<Rightarrow> (Inl e, u) | (Inr _, u) \<Rightarrow> (r, u)))"

text \<open>\<open>begin m rescue => e; h e end\<close>: what \<open>h\<close> raises itself is not rescued.\<close>

definition op_rescue :: "('s, 'e, 'a) op \<Rightarrow> ('e \<Rightarrow> ('s, 'e, 'a) op) \<Rightarrow> ('s, 'e, 'a) op" where
  "op_rescue m h = (\<lambda>s. case m s of (r, t) \<Rightarrow> (case r of Inl e \<Rightarrow> h e t | Inr x \<Rightarrow> (Inr x, t)))"

lemma op_ok_apply [simp]: "op_ok x s = (Inr x, s)"
  by (simp add: op_ok_def)

lemma op_err_apply [simp]: "op_err e s = (Inl e, s)"
  by (simp add: op_err_def)

lemma op_lift_apply [simp]: "op_lift r s = (r, s)"
  by (simp add: op_lift_def)

lemma op_bind_Inl [simp]: "m s = (Inl e, t) \<Longrightarrow> op_bind m f s = (Inl e, t)"
  by (simp add: op_bind_def)

lemma op_bind_Inr [simp]: "m s = (Inr x, t) \<Longrightarrow> op_bind m f s = f x t"
  by (simp add: op_bind_def)

lemma op_map_err_apply [simp]: "m s = (r, t) \<Longrightarrow> op_map_err f m s = (map_err f r, t)"
  by (simp add: op_map_err_def)

lemma op_map_apply [simp]: "m s = (r, t) \<Longrightarrow> op_map f m s = (res_map f r, t)"
  by (simp add: op_map_def)

lemma op_bind_eq_Inr_iff:
  "op_bind m f s = (Inr y, u) \<longleftrightarrow> (\<exists>x t. m s = (Inr x, t) \<and> f x t = (Inr y, u))"
  by (auto simp: op_bind_def split: prod.splits sum.splits)

lemma op_bind_eq_Inl_iff:
  "op_bind m f s = (Inl e, u) \<longleftrightarrow>
     m s = (Inl e, u) \<or> (\<exists>x t. m s = (Inr x, t) \<and> f x t = (Inl e, u))"
  by (auto simp: op_bind_def split: prod.splits sum.splits)

text \<open>An operation that cannot have touched the service, whatever it returned.\<close>

definition untouched :: "('s, 'e, 'a) op \<Rightarrow> 's \<Rightarrow> bool" where
  "untouched m s \<longleftrightarrow> snd (m s) = s"

named_theorems frame \<open>operations that leave the service untouched\<close>

lemma untouched_ok [frame, simp]: "untouched (op_ok x) s"
  by (simp add: untouched_def)

lemma untouched_err [frame, simp]: "untouched (op_err e) s"
  by (simp add: untouched_def)

lemma untouched_lift [frame, simp]: "untouched (op_lift r) s"
  by (simp add: untouched_def)

end
