(* ===== verification/Gvl.thy ===== *)
theory Gvl
  imports Prosody_Prelude
begin

text \<open>
  \<open>without_gvl\<close> of gvl.rs: running a closure with Ruby's global VM lock released. The two
  closures and the result cross the C boundary as raw pointers, so the model tracks the
  ownership of the three boxes: turned into a raw pointer by \<open>Box::into_raw\<close>, taken back by
  \<open>Box::from_raw\<close>. Taking back or borrowing a box that is not out as a raw pointer is
  undefined behaviour, recorded in \<open>gvl_ub\<close>.

  Ruby's part is the list of calls \<open>rb_thread_call_without_gvl\<close> makes before it returns.
\<close>

datatype gvl_error = Panicked

datatype box = Unallocated | Raw | Reclaimed

datatype 'r gvl_result = No_result | Boxed "gvl_error + 'r"

record 'r gvl_state =
  gvl_func :: box
  gvl_unblock :: box
  gvl_result :: box
  gvl_value :: "'r gvl_result" \<comment> \<open>what the result box holds\<close>
  gvl_ub :: bool
  gvl_logged :: nat \<comment> \<open>lines logged for panics of the unblock closure\<close>

text \<open>One call by Ruby. A closure's outcome is \<open>None\<close> when it panics.\<close>

datatype 'r gvl_call =
    Call_func "'r option"
  | Call_unblock "unit option"

fun is_call_func :: "'r gvl_call \<Rightarrow> bool" where
  "is_call_func (Call_func _) = True"
| "is_call_func (Call_unblock _) = False"

text \<open>\<open>catch_unwind(..).map_err(|_| GvlError::Panicked)\<close>\<close>

definition catch_unwind :: "'r option \<Rightarrow> gvl_error + 'r" where
  "catch_unwind r = (case r of None \<Rightarrow> Inl Panicked | Some x \<Rightarrow> Inr x)"

text \<open>\<open>anon_func\<close> takes the closure back, runs it, and gives the boxed result away.\<close>

definition anon_func :: "'r option \<Rightarrow> 'r gvl_state \<Rightarrow> 'r gvl_state" where
  "anon_func outcome s =
     (let s = (if gvl_func s = Raw then s\<lparr>gvl_func := Reclaimed\<rparr> else s\<lparr>gvl_ub := True\<rparr>)
      in s\<lparr>gvl_result := Raw, gvl_value := Boxed (catch_unwind outcome)\<rparr>)"

text \<open>\<open>anon_unblock\<close> only borrows its closure; a panic is logged.\<close>

definition anon_unblock :: "unit option \<Rightarrow> 'r gvl_state \<Rightarrow> 'r gvl_state" where
  "anon_unblock outcome s =
     (let s = (if gvl_unblock s = Raw then s else s\<lparr>gvl_ub := True\<rparr>)
      in case catch_unwind outcome of
           Inl _ \<Rightarrow> s\<lparr>gvl_logged := Suc (gvl_logged s)\<rparr>
         | Inr _ \<Rightarrow> s)"

fun gvl_step :: "'r gvl_call \<Rightarrow> 'r gvl_state \<Rightarrow> 'r gvl_state" where
  "gvl_step (Call_func outcome) s = anon_func outcome s"
| "gvl_step (Call_unblock outcome) s = anon_unblock outcome s"

definition gvl_start :: "'r gvl_state" where
  "gvl_start = \<lparr>gvl_func = Raw, gvl_unblock = Raw, gvl_result = Unallocated,
     gvl_value = No_result, gvl_ub = False, gvl_logged = 0\<rparr>"

text \<open>After Ruby returns, the result box and then the unblock closure are taken back.\<close>

definition reclaim_result :: "'r gvl_state \<Rightarrow> 'r gvl_state" where
  "reclaim_result s =
     (if gvl_result s = Raw then s\<lparr>gvl_result := Reclaimed\<rparr> else s\<lparr>gvl_ub := True\<rparr>)"

definition reclaim_unblock :: "'r gvl_state \<Rightarrow> 'r gvl_state" where
  "reclaim_unblock s =
     (if gvl_unblock s = Raw then s\<lparr>gvl_unblock := Reclaimed\<rparr> else s\<lparr>gvl_ub := True\<rparr>)"

definition without_gvl :: "'r gvl_call list \<Rightarrow> 'r gvl_state" where
  "without_gvl calls = reclaim_unblock (reclaim_result (fold gvl_step calls gvl_start))"

text \<open>The value \<open>without_gvl\<close> returns, where it is defined at all.\<close>

definition gvl_returned :: "'r gvl_state \<Rightarrow> (gvl_error + 'r) option" where
  "gvl_returned s =
     (if gvl_ub s then None
      else case gvl_value s of No_result \<Rightarrow> None | Boxed r \<Rightarrow> Some r)"

subsection \<open>What the calls leave behind\<close>

definition func_calls :: "'r gvl_call list \<Rightarrow> nat" where
  "func_calls calls = length (filter is_call_func calls)"

lemma func_calls_simps [simp]:
  "func_calls [] = 0"
  "func_calls (Call_func r # cs) = Suc (func_calls cs)"
  "func_calls (Call_unblock u # cs) = func_calls cs"
  by (simp_all add: func_calls_def)

lemma func_calls_append [simp]: "func_calls (xs @ ys) = func_calls xs + func_calls ys"
  by (simp add: func_calls_def)

text \<open>The state after the calls, by the number of times the function ran.\<close>

definition gvl_inv :: "nat \<Rightarrow> 'r gvl_state \<Rightarrow> bool" where
  "gvl_inv n s \<longleftrightarrow>
     gvl_unblock s = Raw \<and>
     gvl_func s = (if n = 0 then Raw else Reclaimed) \<and>
     gvl_result s = (if n = 0 then Unallocated else Raw) \<and>
     (gvl_ub s \<longleftrightarrow> 1 < n)"

lemma gvl_step_inv: "gvl_inv n s \<Longrightarrow> gvl_inv (n + func_calls [c]) (gvl_step c s)"
  by (cases c) (auto simp: gvl_inv_def anon_func_def anon_unblock_def Let_def split: sum.splits)

lemma gvl_steps_inv: "gvl_inv n s \<Longrightarrow> gvl_inv (n + func_calls cs) (fold gvl_step cs s)"
proof (induction cs arbitrary: n s)
  case Nil
  then show ?case by simp
next
  case (Cons c cs)
  have "gvl_inv (n + func_calls [c]) (gvl_step c s)"
    by (rule gvl_step_inv) (rule Cons.prems)
  from Cons.IH [OF this] show ?case
    using func_calls_append [of "[c]" cs] by (simp add: add.assoc)
qed

lemma gvl_start_calls_inv: "gvl_inv (func_calls cs) (fold gvl_step cs gvl_start)"
  using gvl_steps_inv [of 0 gvl_start cs] by (simp add: gvl_inv_def gvl_start_def)

lemma unblock_calls_keep_value:
  "func_calls cs = 0 \<Longrightarrow> gvl_value (fold gvl_step cs s) = gvl_value s"
proof (induction cs arbitrary: s)
  case Nil
  then show ?case by simp
next
  case (Cons c cs)
  then show ?case
    by (cases c) (auto simp: anon_unblock_def Let_def split: sum.splits)
qed

lemma call_func_value: "gvl_value (gvl_step (Call_func r) s) = Boxed (catch_unwind r)"
  by (simp add: anon_func_def Let_def)

definition unblock_panics :: "'r gvl_call list \<Rightarrow> nat" where
  "unblock_panics cs = length (filter (\<lambda>c. c = Call_unblock None) cs)"

lemma gvl_logged_calls: "gvl_logged (fold gvl_step cs s) = gvl_logged s + unblock_panics cs"
proof (induction cs arbitrary: s)
  case Nil
  then show ?case by (simp add: unblock_panics_def)
next
  case (Cons c cs)
  have "gvl_logged (gvl_step c s) = gvl_logged s + unblock_panics [c]"
    by (cases c) (auto simp: anon_func_def anon_unblock_def Let_def catch_unwind_def
        unblock_panics_def split: option.splits)
  with Cons show ?case by (simp add: unblock_panics_def)
qed

text \<open>
  C28: \<open>without_gvl\<close> touches freed or foreign memory exactly when Ruby breaks its promise to
  call the function once: however many unblock calls come before or after it, one call of
  the function is both necessary and sufficient for defined behaviour.
\<close>

theorem without_gvl_defined_iff: "gvl_ub (without_gvl calls) \<longleftrightarrow> func_calls calls \<noteq> 1"
  using gvl_start_calls_inv [of calls]
  by (auto simp: without_gvl_def reclaim_result_def reclaim_unblock_def gvl_inv_def)

text \<open>
  C29: Under Ruby's contract all three boxes are taken back (nothing leaks), the caller gets
  the function's value, or \<open>Panicked\<close> when it panicked, and each panic of the unblock closure
  is logged and nothing more: no panic of either closure ends the process.
\<close>

theorem without_gvl_result:
  assumes "func_calls pre = 0" and "func_calls post = 0"
  shows "without_gvl (pre @ Call_func r # post) =
     \<lparr>gvl_func = Reclaimed, gvl_unblock = Reclaimed, gvl_result = Reclaimed,
      gvl_value = Boxed (case r of None \<Rightarrow> Inl Panicked | Some x \<Rightarrow> Inr x),
      gvl_ub = False, gvl_logged = unblock_panics pre + unblock_panics post\<rparr>"
proof -
  let ?calls = "pre @ Call_func r # post"
  let ?s = "fold gvl_step ?calls gvl_start"
  have inv: "gvl_inv 1 ?s"
    using gvl_start_calls_inv [of ?calls] assms by simp
  have "gvl_value ?s = Boxed (catch_unwind r)"
    using assms(2) call_func_value [of r "fold gvl_step pre gvl_start"]
    by (simp only: fold_append fold_Cons comp_apply unblock_calls_keep_value)
  moreover have "gvl_logged ?s = unblock_panics pre + unblock_panics post"
    using gvl_logged_calls [of ?calls gvl_start] by (simp add: gvl_start_def unblock_panics_def)
  ultimately show ?thesis
    using inv by (simp add: without_gvl_def reclaim_result_def reclaim_unblock_def gvl_inv_def
        catch_unwind_def)
qed

theorem without_gvl_result_witness:
  "without_gvl ([Call_unblock None] @ Call_func (Some (5 :: nat)) # [Call_unblock (Some ())]) =
     \<lparr>gvl_func = Reclaimed, gvl_unblock = Reclaimed, gvl_result = Reclaimed,
      gvl_value = Boxed (Inr 5), gvl_ub = False, gvl_logged = 1\<rparr>"
  using without_gvl_result [of "[Call_unblock None]" "[Call_unblock (Some ())]" "Some (5 :: nat)"]
  by (simp add: unblock_panics_def)

end
