(* ===== verification/Text_Format.thy ===== *)
theory Text_Format
  imports Prosody_Prelude
begin

text \<open>
  The text the extension builds with \<open>format!\<close>: decimal \<open>Display\<close> of integers, the
  quoted \<open>Debug\<close> form of strings, and joining. Strings are lists of bytes. The printing of
  integers is shown injective, from which the task identifiers of the handler inherit
  uniqueness.
\<close>

subsection \<open>Decimal numbers\<close>

definition digit :: "nat \<Rightarrow> char" where
  "digit d = char_of (48 + d)"

fun show_nat :: "nat \<Rightarrow> string" where
  "show_nat n = (if n < 10 then [digit n] else show_nat (n div 10) @ [digit (n mod 10)])"

declare show_nat.simps [simp del]

definition show_int :: "int \<Rightarrow> string" where
  "show_int k = (if k < 0 then CHR ''-'' # show_nat (nat (- k)) else show_nat (nat k))"

text \<open>Reading the digits back, to state that printing loses nothing.\<close>

definition digit_value :: "char \<Rightarrow> nat" where
  "digit_value c = of_char c - 48"

definition read_nat :: "string \<Rightarrow> nat" where
  "read_nat s = foldl (\<lambda>n c. 10 * n + digit_value c) 0 s"

definition is_digit :: "char \<Rightarrow> bool" where
  "is_digit c \<longleftrightarrow> 48 \<le> (of_char c :: nat) \<and> (of_char c :: nat) \<le> 57"

lemma digit_value_digit: "d < 10 \<Longrightarrow> digit_value (digit d) = d"
  by (simp add: digit_value_def digit_def)

lemma is_digit_digit: "d < 10 \<Longrightarrow> is_digit (digit d)"
  by (simp add: is_digit_def digit_def)

lemma show_nat_digits: "\<forall>c\<in>set (show_nat n). is_digit c"
proof (induction n rule: show_nat.induct)
  case (1 n)
  then show ?case
    by (subst show_nat.simps) (auto simp: is_digit_digit)
qed

lemma show_nat_nonempty [simp]: "show_nat n \<noteq> []"
  by (subst show_nat.simps) simp

lemma read_show_nat [simp]: "read_nat (show_nat n) = n"
proof (induction n rule: show_nat.induct)
  case (1 n)
  show ?case
  proof (cases "n < 10")
    case True
    then show ?thesis by (subst show_nat.simps) (simp add: read_nat_def digit_value_digit)
  next
    case False
    with 1 have "read_nat (show_nat (n div 10)) = n div 10" by simp
    with False show ?thesis
      by (subst show_nat.simps) (simp add: read_nat_def digit_value_digit)
  qed
qed

lemma show_nat_inject [simp]: "show_nat m = show_nat n \<longleftrightarrow> m = n"
  by (metis read_show_nat)

lemma not_digit_minus: "\<not> is_digit (CHR ''-'')" "\<not> is_digit (CHR ''/'')" "\<not> is_digit (CHR '':'')"
  by (simp_all add: is_digit_def)

lemma show_nat_no_minus: "show_nat n \<noteq> CHR ''-'' # s"
  using show_nat_digits [of n] not_digit_minus(1) by (cases "show_nat n") auto

lemma show_int_inject [simp]: "show_int a = show_int b \<longleftrightarrow> a = b"
  using show_nat_no_minus show_nat_no_minus [THEN not_sym] by (auto simp: show_int_def)

text \<open>Neither separator of a task identifier occurs in a printed integer.\<close>

lemma show_int_no_sep: "CHR ''/'' \<notin> set (show_int k)" "CHR '':'' \<notin> set (show_int k)"
  using show_nat_digits [of "nat k"] show_nat_digits [of "nat (- k)"] not_digit_minus(2,3)
  by (auto simp: show_int_def)

text \<open>Splitting a text at its first, or at its last, separator is unambiguous.\<close>

lemma first_sep_unique:
  "ys @ c # xs = vs @ c # us \<Longrightarrow> c \<notin> set ys \<Longrightarrow> c \<notin> set vs \<Longrightarrow> ys = vs \<and> xs = us"
proof (induction ys arbitrary: vs)
  case Nil
  then show ?case by (cases vs) auto
next
  case (Cons y ys)
  then show ?case by (cases vs) auto
qed

lemma last_sep_unique:
  assumes "xs @ c # ys = us @ c # vs" and "c \<notin> set ys" and "c \<notin> set vs"
  shows "xs = us \<and> ys = vs"
proof -
  have "rev ys @ c # rev xs = rev vs @ c # rev us"
    using arg_cong [OF assms(1), of rev] by simp
  then have "rev ys = rev vs \<and> rev xs = rev us"
    by (rule first_sep_unique) (use assms in simp_all)
  then show ?thesis by simp
qed

subsection \<open>The \<open>Debug\<close> form of a string\<close>

definition hex_digit :: "nat \<Rightarrow> char" where
  "hex_digit d = (if d < 10 then char_of (48 + d) else char_of (87 + d))"

definition dquote :: char where
  "dquote = char_of (34 :: nat)"

definition backslash :: char where
  "backslash = char_of (92 :: nat)"

text \<open>
  Quotes, backslashes and the control characters of ASCII are escaped the way
  \<open>str::escape_debug\<close> writes them; every other byte is copied.
\<close>

definition escape_byte :: "char \<Rightarrow> string" where
  "escape_byte c =
     (let n = (of_char c :: nat)
      in if n = 34 then [backslash, dquote]
         else if n = 92 then [backslash, backslash]
         else if n = 9 then [backslash, CHR ''t'']
         else if n = 10 then [backslash, CHR ''n'']
         else if n = 13 then [backslash, CHR ''r'']
         else if n = 0 then [backslash, CHR ''0'']
         else if n < 16 then backslash # ''u{'' @ [hex_digit n] @ ''}''
         else if n < 32 \<or> n = 127
           then backslash # ''u{'' @ [hex_digit (n div 16), hex_digit (n mod 16)] @ ''}''
         else [c])"

definition debug_str :: "string \<Rightarrow> string" where
  "debug_str s = dquote # concat (map escape_byte s) @ [dquote]"

text \<open>Joining with a separator.\<close>

fun join :: "string \<Rightarrow> string list \<Rightarrow> string" where
  "join sep [] = []"
| "join sep [x] = x"
| "join sep (x # y # ys) = x @ sep @ join sep (y # ys)"

lemma join_snoc: "xs \<noteq> [] \<Longrightarrow> join sep (xs @ [x]) = join sep xs @ sep @ x"
proof (induction xs)
  case Nil
  then show ?case by simp
next
  case (Cons a xs)
  then show ?case by (cases xs) simp_all
qed

end
