(* ===== verification/Durations.thy ===== *)
theory Durations
  imports Text_Format
begin

text \<open>
  Rust's \<open>f64\<close> and \<open>std::time::Duration\<close> as far as the extension uses them, and
  \<open>seconds\<close> of util.rs, which every duration option of the configuration goes through.

  A finite \<open>f64\<close> is represented by the rational number it stands for; the two zeros are
  not told apart, since no caller distinguishes them.
\<close>

datatype f64 = F64 rat | F64_infinity | F64_neg_infinity | F64_nan

record duration =
  dur_secs :: u64
  dur_nanos :: u32

definition total_nanos :: "duration \<Rightarrow> int" where
  "total_nanos d = uint (dur_secs d) * 10 ^ 9 + uint (dur_nanos d)"

text \<open>
  \<open>Duration::try_from_secs_f64\<close>: rounds to the nearest nanosecond, ties to even, and
  fails on a negative value, on one that needs more than 64 bits of seconds, and on an
  infinity or NaN.
\<close>

definition round_half_even :: "rat \<Rightarrow> int" where
  "round_half_even x =
     (let n = \<lfloor>x\<rfloor>; d = x - of_int n
      in if d < 1 / 2 \<or> d = 1 / 2 \<and> even n then n else n + 1)"

definition duration_of_nanos :: "int \<Rightarrow> duration" where
  "duration_of_nanos n =
     \<lparr>dur_secs = word_of_int (n div 10 ^ 9), dur_nanos = word_of_int (n mod 10 ^ 9)\<rparr>"

definition max_nanos :: int where
  "max_nanos = 2 ^ 64 * 10 ^ 9"

definition try_from_secs_f64 :: "f64 \<Rightarrow> duration option" where
  "try_from_secs_f64 v =
     (case v of
        F64 r \<Rightarrow>
          if r < 0 then None
          else let n = round_half_even (r * 10 ^ 9)
               in if n < max_nanos then Some (duration_of_nanos n) else None
      | _ \<Rightarrow> None)"

definition seconds :: "string \<Rightarrow> f64 \<Rightarrow> string + duration" where
  "seconds option v =
     (case try_from_secs_f64 v of
        None \<Rightarrow> Inl (option @ '': must be a finite, non-negative number of seconds'')
      | Some d \<Rightarrow> Inr d)"

text \<open>Which numbers are accepted, stated without the conversion.\<close>

definition valid_seconds :: "f64 \<Rightarrow> bool" where
  "valid_seconds v \<longleftrightarrow>
     (\<exists>r. v = F64 r \<and> 0 \<le> r \<and> round_half_even (r * 10 ^ 9) < max_nanos)"

subsection \<open>Rounding\<close>

lemma round_half_even_bounds:
  "of_int (round_half_even x) - 1 / 2 \<le> x" "x \<le> of_int (round_half_even x) + 1 / 2"
proof -
  define n where "n = \<lfloor>x\<rfloor>"
  have x: "of_int n \<le> x" "x < of_int n + 1"
    unfolding n_def by linarith+
  have "round_half_even x = n \<and> x - of_int n \<le> 1 / 2 \<or>
      round_half_even x = n + 1 \<and> 1 / 2 \<le> x - of_int n"
    unfolding round_half_even_def Let_def n_def [symmetric] by auto
  with x show "of_int (round_half_even x) - 1 / 2 \<le> x" "x \<le> of_int (round_half_even x) + 1 / 2"
    by auto
qed

lemma round_half_even_of_int [simp]: "round_half_even (of_int n) = n"
  by (simp add: round_half_even_def)

lemma round_half_even_nonneg: "0 \<le> x \<Longrightarrow> 0 \<le> round_half_even x"
  by (auto simp: round_half_even_def Let_def intro: add_nonneg_nonneg)

lemma round_half_even_mono: "x \<le> y \<Longrightarrow> round_half_even x \<le> round_half_even y"
proof -
  assume le: "x \<le> y"
  then have fl: "\<lfloor>x\<rfloor> \<le> \<lfloor>y\<rfloor>" by (rule floor_mono)
  show ?thesis
  proof (cases "\<lfloor>x\<rfloor> = \<lfloor>y\<rfloor>")
    case True
    with le show ?thesis by (auto simp: round_half_even_def Let_def)
  next
    case False
    with fl have "\<lfloor>x\<rfloor> + 1 \<le> \<lfloor>y\<rfloor>" by simp
    then show ?thesis by (auto simp: round_half_even_def Let_def)
  qed
qed

subsection \<open>Durations\<close>

lemma uint_word_of_int_lt: "0 \<le> n \<Longrightarrow> n < 2 ^ LENGTH('a) \<Longrightarrow> uint (word_of_int n :: 'a::len word) = n"
  by (simp add: uint_word_of_int take_bit_int_eq_self)

lemma total_nanos_duration_of_nanos:
  assumes "0 \<le> n" "n < max_nanos"
  shows "total_nanos (duration_of_nanos n) = n"
    and "uint (dur_nanos (duration_of_nanos n)) < 10 ^ 9"
proof -
  have secs: "0 \<le> n div 10 ^ 9" "n div 10 ^ 9 < 2 ^ 64"
    using assms by (auto simp: max_nanos_def)
  have nanos: "0 \<le> n mod 10 ^ 9" "n mod 10 ^ 9 < 10 ^ 9" by simp_all
  have w: "uint (word_of_int (n div 10 ^ 9) :: u64) = n div 10 ^ 9"
    "uint (word_of_int (n mod 10 ^ 9) :: u32) = n mod 10 ^ 9"
    using secs nanos by (simp_all add: uint_word_of_int_lt)
  show "total_nanos (duration_of_nanos n) = n"
    by (simp only: total_nanos_def duration_of_nanos_def duration.simps w) simp
  show "uint (dur_nanos (duration_of_nanos n)) < 10 ^ 9"
    using nanos by (simp only: duration_of_nanos_def duration.simps w)
qed

lemma try_from_secs_f64_SomeD:
  assumes "try_from_secs_f64 (F64 r) = Some d"
  shows "0 \<le> r" and "total_nanos d = round_half_even (r * 10 ^ 9)"
    and "uint (dur_nanos d) < 10 ^ 9"
proof -
  let ?n = "round_half_even (r * 10 ^ 9)"
  show r: "0 \<le> r" using assms by (auto simp: try_from_secs_f64_def split: if_splits)
  have n: "?n < max_nanos" and d: "d = duration_of_nanos ?n"
    using assms by (auto simp: try_from_secs_f64_def Let_def split: if_splits)
  have "0 \<le> ?n" using r by (simp add: round_half_even_nonneg)
  with n d show "total_nanos d = ?n" "uint (dur_nanos d) < 10 ^ 9"
    by (simp_all only: total_nanos_duration_of_nanos)
qed

lemma try_from_secs_f64_None_iff: "try_from_secs_f64 v = None \<longleftrightarrow> \<not> valid_seconds v"
  by (cases v) (auto simp: try_from_secs_f64_def valid_seconds_def Let_def)

lemma seconds_Inr_iff: "seconds option v = Inr d \<longleftrightarrow> try_from_secs_f64 v = Some d"
  by (simp add: seconds_def split: option.split)

lemma seconds_Inl_iff:
  "seconds option v = Inl e \<longleftrightarrow>
     \<not> valid_seconds v \<and> e = option @ '': must be a finite, non-negative number of seconds''"
  by (auto simp: seconds_def try_from_secs_f64_None_iff [symmetric] split: option.split)

lemma seconds_total: "valid_seconds v \<Longrightarrow> \<exists>d. seconds option v = Inr d"
  by (cases "try_from_secs_f64 v") (auto simp: seconds_def try_from_secs_f64_None_iff)

subsection \<open>The order of durations\<close>

text \<open>\<open>Duration\<close> derives its order: seconds first, then nanoseconds.\<close>

instantiation duration_ext :: (linorder) linorder
begin

definition less_eq_duration_ext :: "('a::linorder) duration_ext \<Rightarrow> 'a duration_ext \<Rightarrow> bool" where
  "less_eq_duration_ext a b \<longleftrightarrow> dur_secs a < dur_secs b \<or> dur_secs a = dur_secs b \<and>
     (dur_nanos a < dur_nanos b \<or> dur_nanos a = dur_nanos b \<and> duration.more a \<le> duration.more b)"

definition less_duration_ext :: "('a::linorder) duration_ext \<Rightarrow> 'a duration_ext \<Rightarrow> bool" where
  "less_duration_ext a b \<longleftrightarrow> a \<le> b \<and> \<not> b \<le> a"

instance
proof
  fix a b c :: "('a::linorder) duration_ext"
  show "(a < b) = (a \<le> b \<and> \<not> b \<le> a)" by (rule less_duration_ext_def)
  show "a \<le> a" by (simp add: less_eq_duration_ext_def)
  show "a \<le> c" if "a \<le> b" "b \<le> c" using that by (auto simp: less_eq_duration_ext_def)
  show "a = b" if "a \<le> b" "b \<le> a"
    using that by (intro duration.equality) (auto simp: less_eq_duration_ext_def)
  show "a \<le> b \<or> b \<le> a" by (auto simp: less_eq_duration_ext_def)
qed

end

lemma duration_le_iff:
  fixes a b :: duration
  assumes "uint (dur_nanos a) < 10 ^ 9" and "uint (dur_nanos b) < 10 ^ 9"
  shows "a \<le> b \<longleftrightarrow> total_nanos a \<le> total_nanos b"
proof -
  have "dur_nanos a \<le> dur_nanos b \<longleftrightarrow> uint (dur_nanos a) \<le> uint (dur_nanos b)"
    "dur_secs a < dur_secs b \<longleftrightarrow> uint (dur_secs a) < uint (dur_secs b)"
    "dur_secs a = dur_secs b \<longleftrightarrow> uint (dur_secs a) = uint (dur_secs b)"
    by (simp_all add: word_le_def word_less_def word_uint_eq_iff)
  moreover have "0 \<le> uint (dur_nanos a)" "0 \<le> uint (dur_nanos b)" by simp_all
  ultimately show ?thesis
    using assms by (auto simp: less_eq_duration_ext_def total_nanos_def le_less)
qed

subsection \<open>Properties\<close>

text \<open>
  Durations are read exactly: an option's number of seconds is accepted exactly when it is
  finite, not negative and below 2^64 seconds after rounding; the duration is within half a
  nanosecond of the number and well formed, whole nanoseconds are kept as they are, and a
  larger number never gives a shorter duration.
\<close>

theorem seconds_rounds_to_nearest:
  "((\<exists>d. seconds option v = Inr d) \<longleftrightarrow>
      (\<exists>r. v = F64 r \<and> 0 \<le> r \<and> round_half_even (r * 10 ^ 9) < 2 ^ 64 * 10 ^ 9)) \<and>
   (\<forall>r d. seconds option (F64 r) = Inr d \<longrightarrow>
      \<bar>of_int (total_nanos d) - r * 10 ^ 9\<bar> \<le> 1 / 2 \<and> uint (dur_nanos d) < 10 ^ 9 \<and>
      (\<forall>n. r * 10 ^ 9 = of_int n \<longrightarrow> total_nanos d = n) \<and>
      (\<forall>q e. r \<le> q \<longrightarrow> seconds other (F64 q) = Inr e \<longrightarrow> d \<le> e))"
proof (intro conjI allI impI)
  show "(\<exists>d. seconds option v = Inr d) \<longleftrightarrow>
      (\<exists>r. v = F64 r \<and> 0 \<le> r \<and> round_half_even (r * 10 ^ 9) < 2 ^ 64 * 10 ^ 9)"
    using seconds_total [of v option] seconds_Inl_iff [of option v]
    by (auto simp: valid_seconds_def max_nanos_def) (metis sum.exhaust)
next
  fix r d
  assume "seconds option (F64 r) = Inr d"
  note d = try_from_secs_f64_SomeD [OF this [unfolded seconds_Inr_iff]]
  show "\<bar>of_int (total_nanos d) - r * 10 ^ 9\<bar> \<le> 1 / 2"
    using round_half_even_bounds [of "r * 10 ^ 9"] unfolding d(2) abs_le_iff by linarith
  show "uint (dur_nanos d) < 10 ^ 9" by (rule d)
  show "total_nanos d = n" if "r * 10 ^ 9 = of_int n" for n
    using that by (simp add: d)
  show "d \<le> e" if "r \<le> q" "seconds other (F64 q) = Inr e" for q e
  proof -
    note e = try_from_secs_f64_SomeD [OF that(2) [unfolded seconds_Inr_iff]]
    from that(1) have "total_nanos d \<le> total_nanos e"
      by (simp add: d e round_half_even_mono)
    with d(3) e(3) show ?thesis by (simp add: duration_le_iff)
  qed
qed

theorem seconds_rounds_to_nearest_witness:
  "\<exists>d. seconds ''timeout'' (F64 (3 / 2)) = Inr d \<and> total_nanos d = 1500000000"
proof -
  note exact = seconds_rounds_to_nearest [of "''timeout''" "F64 (3 / 2)" "''timeout''"]
  have "round_half_even (3 / 2 * 10 ^ 9) = 1500000000"
    using round_half_even_of_int [of 1500000000] by simp
  then have "\<exists>r. F64 (3 / 2) = F64 r \<and> 0 \<le> r \<and> round_half_even (r * 10 ^ 9) < 2 ^ 64 * 10 ^ 9"
    by (intro exI [of _ "3 / 2"]) simp
  with exact obtain d where d: "seconds ''timeout'' (F64 (3 / 2)) = Inr d" by blast
  have "3 / 2 * 10 ^ 9 = (of_int 1500000000 :: rat)" by simp
  with exact d have "total_nanos d = 1500000000" by blast
  with d show ?thesis by blast
qed

end
