(* ===== verification/Ruby_Model.thy ===== *)
theory Ruby_Model
  imports Durations
begin

text \<open>
  The Ruby side as the Rust extension sees it: values, exception classes and errors, the
  process and VM environment of a call, and the fork guard of util.rs that every
  long-lived native object carries.

  Calls into the Ruby VM that can raise (looking a class up, creating a queue, popping it,
  injecting the OpenTelemetry context) are fields of the environment record: the code
  propagates whatever they raise.
\<close>

subsection \<open>Values and errors\<close>

datatype rvalue =
    RNil
  | RBool bool
  | RInteger int
  | RFloat f64
  | RString string
  | RSymbol string
  | RRange rvalue rvalue bool \<comment> \<open>low end, high end, \<open>exclude_end?\<close>\<close>
  | RObject nat \<comment> \<open>any other object, by identity\<close>

datatype rb_class =
    Core_class string \<comment> \<open>a class of Ruby's core library\<close>
  | Prosody_class string \<comment> \<open>\<open>Prosody::<name>\<close>, defined under lib/prosody\<close>

abbreviation argument_error_class :: rb_class where
  "argument_error_class \<equiv> Core_class ''ArgumentError''"

abbreviation type_error_class :: rb_class where
  "type_error_class \<equiv> Core_class ''TypeError''"

abbreviation range_error_class :: rb_class where
  "range_error_class \<equiv> Core_class ''RangeError''"

abbreviation runtime_error_class :: rb_class where
  "runtime_error_class \<equiv> Core_class ''RuntimeError''"

datatype rb_error = Rb_error (err_class: rb_class) (err_msg: string)

text \<open>Ruby truthiness, which \<open>bool::try_convert\<close> uses: only \<open>nil\<close> and \<open>false\<close> are false.\<close>

fun truthy :: "rvalue \<Rightarrow> bool" where
  "truthy RNil = False"
| "truthy (RBool b) = b"
| "truthy _ = True"

fun is_nil :: "rvalue \<Rightarrow> bool" where
  "is_nil RNil = True"
| "is_nil _ = False"

text \<open>
  The two conversions of Ruby values that raise \<open>TypeError\<close> on anything else
  (\<open>String::try_convert\<close>, and reading an Integer as such).
\<close>

fun string_try_convert :: "rvalue \<Rightarrow> rb_error + string" where
  "string_try_convert (RString s) = Inr s"
| "string_try_convert _ = Inl (Rb_error type_error_class ''no implicit conversion into String'')"

fun integer_from_value :: "rvalue \<Rightarrow> int option" where
  "integer_from_value (RInteger n) = Some n"
| "integer_from_value _ = None"

text \<open>
  The exception classes of lib/prosody/handler.rb and lib/prosody/state.rb answer
  \<open>permanent?\<close>; the core classes do not define it.
\<close>

fun class_permanent :: "rb_class \<Rightarrow> bool option" where
  "class_permanent (Core_class _) = None"
| "class_permanent (Prosody_class c) =
     (if c = ''PermanentError'' \<or> c = ''PermanentStateError'' then Some True
      else if c = ''TransientError'' \<or> c = ''TransientStateError'' then Some False
      else None)"

subsection \<open>The environment of a call\<close>

record 'ctx rb_env =
  env_pid :: u32 \<comment> \<open>\<open>process::id()\<close>\<close>
  env_const_get :: "string \<Rightarrow> rb_error option" \<comment> \<open>lookup of \<open>Prosody::<name>\<close>; \<open>None\<close>: found\<close>
  env_otel :: "rb_error + 'ctx" \<comment> \<open>what \<open>extract_opentelemetry_context\<close> returns\<close>
  env_queue_new :: "rb_error option" \<comment> \<open>\<open>Thread::Queue.new\<close> raised\<close>
  env_pop :: "rb_error option" \<comment> \<open>\<open>Queue#pop\<close> was interrupted by an exception\<close>

text \<open>
  \<open>ruby_error\<close> of handler/state/mod.rs: a failed class lookup replaces the error.
\<close>

definition ruby_error :: "'ctx rb_env \<Rightarrow> string \<Rightarrow> string \<Rightarrow> rb_error" where
  "ruby_error env cls message =
     (case env_const_get env cls of
        None \<Rightarrow> Rb_error (Prosody_class cls) message
      | Some e \<Rightarrow> e)"

lemma ruby_error_found [simp]:
  "env_const_get env cls = None \<Longrightarrow> ruby_error env cls m = Rb_error (Prosody_class cls) m"
  by (simp add: ruby_error_def)

definition runtime_error :: "string \<Rightarrow> rb_error" where
  "runtime_error m = Rb_error runtime_error_class m"

definition argument_error :: "string \<Rightarrow> rb_error" where
  "argument_error m = Rb_error argument_error_class m"

subsection \<open>The fork guard\<close>

record fork_guard =
  guard_pid :: u32
  guard_class :: string

definition fork_guard_new :: "'ctx rb_env \<Rightarrow> string \<Rightarrow> fork_guard" where
  "fork_guard_new env cls = \<lparr>guard_pid = env_pid env, guard_class = cls\<rparr>"

definition fork_error :: "fork_guard \<Rightarrow> rb_error" where
  "fork_error g = runtime_error (guard_class g @
     '' cannot be used after fork. Create a new client in the child process.'')"

definition fork_check :: "fork_guard \<Rightarrow> 'ctx rb_env \<Rightarrow> rb_error + unit" where
  "fork_check g env = (if env_pid env = guard_pid g then Inr () else Inl (fork_error g))"

lemma fork_check_eq_Inr_iff [simp]: "fork_check g env = Inr u \<longleftrightarrow> env_pid env = guard_pid g"
  by (simp add: fork_check_def)

lemma fork_check_refuse: "env_pid env \<noteq> guard_pid g \<Longrightarrow> fork_check g env = Inl (fork_error g)"
  by (simp add: fork_check_def)

lemma fork_check_pass: "env_pid env = guard_pid g \<Longrightarrow> fork_check g env = Inr ()"
  by (simp add: fork_check_def)

lemma fork_guard_new_passes [simp]: "fork_check (fork_guard_new env cls) env = Inr ()"
  by (simp add: fork_check_def fork_guard_new_def)

text \<open>
  The contract of every operation of a guarded object: in another process than the one
  that made the object it raises, and the service behind it is not touched.
\<close>

locale fork_guarded =
  fixes guard_of :: "'o \<Rightarrow> fork_guard"
    and call :: "'o \<Rightarrow> 'ctx rb_env \<Rightarrow> ('s, rb_error, 'a) op"
  assumes refuse: "env_pid env \<noteq> guard_pid (guard_of x) \<Longrightarrow>
    call x env s = (Inl (fork_error (guard_of x)), s)"
begin

lemma child_untouched: "env_pid env \<noteq> guard_pid (guard_of x) \<Longrightarrow> untouched (call x env) s"
  by (simp add: untouched_def refuse)

lemma success_same_process:
  "call x env s = (Inr y, t) \<Longrightarrow> env_pid env = guard_pid (guard_of x)"
  using refuse [of env x s] by auto

text \<open>Any number of calls in a forked child leaves the service as the parent left it.\<close>

lemma child_inert:
  "\<forall>x\<in>set xs. env_pid env \<noteq> guard_pid (guard_of x) \<Longrightarrow>
     fold (\<lambda>x s. snd (call x env s)) xs s = s"
  by (induction xs arbitrary: s) (simp_all add: refuse)

end

end
