(* ===== verification/Bridge.thy ===== *)
theory Bridge
  imports Gvl Ruby_Model
begin

text \<open>
  The bridge of bridge/mod.rs and bridge/callback.rs, and the Ruby values whose cleanup it
  defers (\<open>ThreadSafeValue\<close> of util.rs). Rust threads put closures into an unbounded
  channel; one Ruby thread takes them out in batches and runs them.

  The closures of type \<open>RubyFunction\<close> that the program creates are the constructors of
  \<open>ruby_function\<close>. The channel, the oneshot channels of \<open>run\<close>, the Ruby queues of
  \<open>wait_for\<close> and the boxed Ruby values are components of one state; the handlers are
  functions on it, and \<open>bridge_step\<close> interleaves them.
\<close>

subsection \<open>State\<close>

datatype bridge_error =
    Gvl_err gvl_error
  | Task_create string
  | Task_dropped
  | Cancelled
  | Shutdown

text \<open>
  The closures: the wrapper that \<open>run\<close> builds around its function, the callback that
  \<open>wait_for\<close> sends when its future is done (the output is tagged with its type), and the
  deferred drop of a boxed value.
\<close>

datatype ('w, 'r, 'v) ruby_function =
    Run_fn nat "'w \<Rightarrow> 'r \<times> 'w"
  | Complete_fn nat nat 'v \<comment> \<open>queue, type tag, output\<close>
  | Release_fn nat

text \<open>A oneshot channel between a \<open>Run_fn\<close> and the Rust task awaiting it.\<close>

datatype 'r oneshot = Unused | Pending | Filled 'r | Tx_gone | Rx_gone

text \<open>\<open>DynamicResult\<close>: an output of any type that can be taken once.\<close>

datatype 'v dyn_result = Dyn nat 'v | Dyn_taken

text \<open>One \<open>wait_for\<close> call: the type it awaits, and how far its future has come.\<close>

datatype 'v wait_state =
    Not_waiting
  | Fut_running nat
  | Fut_sent nat 'v
  | Fut_lost nat 'v
  | Wait_returned nat 'v "rb_error + 'v"

datatype boxed = No_box | Box_live | Box_deferred | Box_unregistered | Box_leaked

record ('w, 'r, 'v) bridge =
  br_queue :: "('w, 'r, 'v) ruby_function list" \<comment> \<open>the channel\<close>
  br_batch :: "('w, 'r, 'v) ruby_function list" \<comment> \<open>taken out, not run yet\<close>
  br_open :: bool \<comment> \<open>the Ruby thread still holds the receiver\<close>
  br_senders :: nat \<comment> \<open>clones of the sending end\<close>
  br_world :: 'w \<comment> \<open>the Ruby heap\<close>
  br_oneshots :: "nat \<Rightarrow> 'r oneshot"
  br_queues :: "nat \<Rightarrow> 'v dyn_result list" \<comment> \<open>Ruby queues of \<open>wait_for\<close>\<close>
  br_waits :: "nat \<Rightarrow> 'v wait_state"
  br_boxes :: "nat \<Rightarrow> boxed"

definition POLL_BATCH_SIZE :: nat where
  "POLL_BATCH_SIZE = 16"

definition bridge_new :: "'w \<Rightarrow> ('w, 'r, 'v) bridge" where
  "bridge_new w = \<lparr>br_queue = [], br_batch = [], br_open = True, br_senders = 1, br_world = w,
     br_oneshots = (\<lambda>_. Unused), br_queues = (\<lambda>_. []), br_waits = (\<lambda>_. Not_waiting),
     br_boxes = (\<lambda>_. No_box)\<rparr>"

subsection \<open>Sending\<close>

text \<open>\<open>Bridge::send\<close>\<close>

definition send ::
  "('w, 'r, 'v) ruby_function \<Rightarrow> ('w, 'r, 'v) bridge \<Rightarrow> (bridge_error + unit) \<times> ('w, 'r, 'v) bridge"
where
  "send c b =
     (if br_open b then (Inr (), b\<lparr>br_queue := br_queue b @ [c]\<rparr>) else (Inl Shutdown, b))"

text \<open>
  The first half of \<open>Bridge::run\<close>: a fresh oneshot and the wrapped function. When the send
  fails the wrapper, and with it the sending end of the oneshot, is dropped.
\<close>

definition run_start ::
  "nat \<Rightarrow> ('w \<Rightarrow> 'r \<times> 'w) \<Rightarrow> ('w, 'r, 'v) bridge \<Rightarrow>
    (bridge_error + unit) \<times> ('w, 'r, 'v) bridge"
where
  "run_start i f b =
     (case send (Run_fn i f) (b\<lparr>br_oneshots := (br_oneshots b)(i := Pending)\<rparr>) of
        (Inr u, b) \<Rightarrow> (Inr u, b)
      | (Inl e, b) \<Rightarrow> (Inl e, b\<lparr>br_oneshots := (br_oneshots b)(i := Tx_gone)\<rparr>))"

text \<open>The second half awaits the receiving end; \<open>None\<close> while there is nothing to see.\<close>

definition run_await :: "nat \<Rightarrow> ('w, 'r, 'v) bridge \<Rightarrow> (bridge_error + 'r) option" where
  "run_await i b =
     (case br_oneshots b i of
        Filled r \<Rightarrow> Some (Inr r)
      | Tx_gone \<Rightarrow> Some (Inl Shutdown)
      | _ \<Rightarrow> None)"

subsection \<open>Running closures on the Ruby thread\<close>

text \<open>
  \<open>RubyDrop::drop\<close>: unregistering the value is for Ruby threads only; elsewhere it leaks.
\<close>

definition ruby_drop :: "bool \<Rightarrow> boxed" where
  "ruby_drop on_ruby_thread = (if on_ruby_thread then Box_unregistered else Box_leaked)"

definition callback_complete :: "nat \<Rightarrow> 'v dyn_result \<Rightarrow> ('w, 'r, 'v) bridge \<Rightarrow> ('w, 'r, 'v) bridge" where
  "callback_complete q d b = b\<lparr>br_queues := (br_queues b)(q := br_queues b q @ [d])\<rparr>"

declare callback_complete_def [simp]

fun execute :: "('w, 'r, 'v) ruby_function \<Rightarrow> ('w, 'r, 'v) bridge \<Rightarrow> ('w, 'r, 'v) bridge" where
  "execute (Run_fn i f) b =
     (case f (br_world b) of (r, w) \<Rightarrow>
        b\<lparr>br_world := w,
          br_oneshots := (case br_oneshots b i of
                            Pending \<Rightarrow> (br_oneshots b)(i := Filled r)
                          | _ \<Rightarrow> br_oneshots b)\<rparr>)"
| "execute (Complete_fn q t v) b = callback_complete q (Dyn t v) b"
| "execute (Release_fn k) b = b\<lparr>br_boxes := (br_boxes b)(k := ruby_drop True)\<rparr>"

text \<open>
  The loop that fills a batch: while fewer than \<open>POLL_BATCH_SIZE\<close> commands are held, take
  one more, until the channel has none.
\<close>

fun drain :: "'c list \<Rightarrow> 'c list \<Rightarrow> 'c list \<times> 'c list" where
  "drain commands [] = (commands, [])"
| "drain commands (c # q) =
     (if length commands < POLL_BATCH_SIZE then drain (commands @ [c]) q else (commands, c # q))"

text \<open>
  \<open>poll_fn\<close>: what \<open>select!\<close> woke up for. Receiving from an empty channel returns only when
  no sender is left.
\<close>

datatype wake = Wake_cancel | Wake_channel

fun poll_fn :: "wake \<Rightarrow> 'c list \<Rightarrow> (bridge_error + 'c list) \<times> 'c list" where
  "poll_fn Wake_cancel q = (Inl Cancelled, q)"
| "poll_fn Wake_channel [] = (Inl Shutdown, [])"
| "poll_fn Wake_channel (c # q) = (case drain [c] q of (commands, rest) \<Rightarrow> (Inr commands, rest))"

text \<open>\<open>poll\<close>: fill a batch without the lock, then run it on the Ruby thread in order.\<close>

definition take_batch :: "wake \<Rightarrow> ('w, 'r, 'v) bridge \<Rightarrow> (bridge_error + unit) \<times> ('w, 'r, 'v) bridge"
where
  "take_batch wk b =
     (case poll_fn wk (br_queue b) of
        (Inl e, q) \<Rightarrow> (Inl e, b\<lparr>br_queue := q\<rparr>)
      | (Inr cs, q) \<Rightarrow> (Inr (), b\<lparr>br_queue := q, br_batch := cs\<rparr>))"

definition exec_next :: "('w, 'r, 'v) bridge \<Rightarrow> ('w, 'r, 'v) bridge" where
  "exec_next b =
     (case br_batch b of [] \<Rightarrow> b | c # cs \<Rightarrow> execute c (b\<lparr>br_batch := cs\<rparr>))"

definition poll :: "wake \<Rightarrow> ('w, 'r, 'v) bridge \<Rightarrow> (bridge_error + unit) \<times> ('w, 'r, 'v) bridge"
where
  "poll wk b =
     (case take_batch wk b of
        (Inl e, b) \<Rightarrow> (Inl e, b)
      | (Inr u, b) \<Rightarrow> (Inr (), fold execute (br_batch b) (b\<lparr>br_batch := []\<rparr>)))"

text \<open>
  The Ruby thread: poll again after a success or a logged error, stop on \<open>Shutdown\<close>.
  It gets one wake-up reason per iteration; the flag says whether the thread stopped before
  the reasons ran out.
\<close>

fun bridge_thread :: "wake list \<Rightarrow> ('w, 'r, 'v) bridge \<Rightarrow> bool \<times> ('w, 'r, 'v) bridge" where
  "bridge_thread [] b = (False, b)"
| "bridge_thread (wk # wks) b =
     (case poll wk b of
        (Inr u, b) \<Rightarrow> bridge_thread wks b
      | (Inl e, b) \<Rightarrow> if e = Shutdown then (True, b\<lparr>br_open := False\<rparr>) else bridge_thread wks b)"

text \<open>
  Ruby kills the thread when the process ends. The receiver goes, and with it every closure
  still in the channel or the batch: their oneshots close, deferred values are dropped on
  the thread that discards them.
\<close>

definition discard :: "bool \<Rightarrow> ('w, 'r, 'v) ruby_function \<Rightarrow> ('w, 'r, 'v) bridge \<Rightarrow> ('w, 'r, 'v) bridge"
where
  "discard on_ruby c b =
     (case c of
        Run_fn i f \<Rightarrow>
          b\<lparr>br_oneshots := (case br_oneshots b i of
                              Pending \<Rightarrow> (br_oneshots b)(i := Tx_gone)
                            | _ \<Rightarrow> br_oneshots b)\<rparr>
      | Complete_fn q t v \<Rightarrow> b
      | Release_fn k \<Rightarrow> b\<lparr>br_boxes := (br_boxes b)(k := ruby_drop on_ruby)\<rparr>)"

definition kill_thread :: "bool \<Rightarrow> ('w, 'r, 'v) bridge \<Rightarrow> ('w, 'r, 'v) bridge" where
  "kill_thread on_ruby b =
     fold (discard on_ruby) (br_batch b @ br_queue b)
       (b\<lparr>br_batch := [], br_queue := [], br_open := False\<rparr>)"

subsection \<open>Waiting for a future from Ruby\<close>

text \<open>\<open>wait_for\<close> up to the spawn: a Ruby queue, and the future with a clone of the sender.\<close>

definition wait_start ::
  "'ctx rb_env \<Rightarrow> nat \<Rightarrow> nat \<Rightarrow> ('w, 'r, 'v) bridge \<Rightarrow> (rb_error + unit) \<times> ('w, 'r, 'v) bridge"
where
  "wait_start env q t b =
     (case env_queue_new env of
        Some e \<Rightarrow> (Inl e, b)
      | None \<Rightarrow> (Inr (), b\<lparr>br_queues := (br_queues b)(q := []),
                        br_waits := (br_waits b)(q := Fut_running t)\<rparr>))"

text \<open>
  The spawned task when its future is done: the callback goes to the Ruby thread. A closed
  channel is only logged.
\<close>

definition future_done :: "nat \<Rightarrow> 'v \<Rightarrow> ('w, 'r, 'v) bridge \<Rightarrow> ('w, 'r, 'v) bridge" where
  "future_done q v b =
     (case br_waits b q of
        Fut_running t \<Rightarrow>
          (case send (Complete_fn q t v) b of
             (Inr _, b) \<Rightarrow> b\<lparr>br_waits := (br_waits b)(q := Fut_sent t v)\<rparr>
           | (Inl _, b) \<Rightarrow> b\<lparr>br_waits := (br_waits b)(q := Fut_lost t v)\<rparr>)
      | _ \<Rightarrow> b)"

text \<open>\<open>AtomicTake::take\<close> and the downcast to the awaited type.\<close>

definition dyn_take :: "'v dyn_result \<Rightarrow> (nat \<times> 'v) option" where
  "dyn_take d = (case d of Dyn t v \<Rightarrow> Some (t, v) | Dyn_taken \<Rightarrow> None)"

definition unpack_result :: "nat \<Rightarrow> 'v dyn_result \<Rightarrow> rb_error + 'v" where
  "unpack_result t d =
     (case dyn_take d of
        None \<Rightarrow> Inl (runtime_error ''result already taken'')
      | Some (t', v) \<Rightarrow>
          if t' = t then Inr v else Inl (runtime_error ''failed to downcast result''))"

text \<open>The end of \<open>wait_for\<close>: pop the queue (which blocks while it is empty) and unpack.\<close>

definition wait_pop :: "nat \<Rightarrow> ('w, 'r, 'v) bridge \<Rightarrow> ((rb_error + 'v) \<times> ('w, 'r, 'v) bridge) option"
where
  "wait_pop q b =
     (case (br_waits b q, br_queues b q) of
        (Fut_sent t v, d # ds) \<Rightarrow>
          (let r = unpack_result t d
           in Some (r, b\<lparr>br_queues := (br_queues b)(q := ds),
                        br_waits := (br_waits b)(q := Wait_returned t v r)\<rparr>))
      | _ \<Rightarrow> None)"

subsection \<open>Boxed Ruby values\<close>

definition value_new :: "nat \<Rightarrow> ('w, 'r, 'v) bridge \<Rightarrow> ('w, 'r, 'v) bridge" where
  "value_new k b = b\<lparr>br_boxes := (br_boxes b)(k := Box_live)\<rparr>"

text \<open>
  \<open>ThreadSafeValue::drop\<close>: directly on a Ruby thread, else through the bridge. A refused
  closure is dropped where the drop runs, on the foreign thread, so the value leaks.
\<close>

definition value_drop :: "bool \<Rightarrow> nat \<Rightarrow> ('w, 'r, 'v) bridge \<Rightarrow> ('w, 'r, 'v) bridge" where
  "value_drop on_ruby_thread k b =
     (if on_ruby_thread then b\<lparr>br_boxes := (br_boxes b)(k := ruby_drop True)\<rparr>
      else case send (Release_fn k) b of
             (Inr _, b) \<Rightarrow> b\<lparr>br_boxes := (br_boxes b)(k := Box_deferred)\<rparr>
           | (Inl _, b) \<Rightarrow> b\<lparr>br_boxes := (br_boxes b)(k := ruby_drop False)\<rparr>)"

end
