(* ===== verification/Bridge_Steps.thy ===== *)
theory Bridge_Steps
  imports Bridge
begin

text \<open>
  The interleavings of the bridge: any number of Rust threads sending, awaiting and dropping,
  one Ruby thread taking batches and running closures, and the process ending at any time.
  A run carries the list of its observable events: a closure accepted by the channel, a
  closure run, the thread killed.
\<close>

datatype ('w, 'r, 'v) bridge_event =
    Accepted "('w, 'r, 'v) ruby_function"
  | Executed "('w, 'r, 'v) ruby_function"
  | Killed
  | Tau

inductive bridge_step ::
  "('w, 'r, 'v) bridge \<Rightarrow> ('w, 'r, 'v) bridge_event \<Rightarrow> ('w, 'r, 'v) bridge \<Rightarrow> bool"
where
  run_accepted:
    "br_oneshots b i = Unused \<Longrightarrow> 0 < br_senders b \<Longrightarrow> br_open b \<Longrightarrow>
      bridge_step b (Accepted (Run_fn i f)) (snd (run_start i f b))"
| run_refused:
    "br_oneshots b i = Unused \<Longrightarrow> \<not> br_open b \<Longrightarrow> bridge_step b Tau (snd (run_start i f b))"
| run_abandoned:
    "br_oneshots b i = Pending \<Longrightarrow>
      bridge_step b Tau (b\<lparr>br_oneshots := (br_oneshots b)(i := Rx_gone)\<rparr>)"
| wait_started:
    "br_waits b q = Not_waiting \<Longrightarrow> wait_start (env :: unit rb_env) q t b = (Inr (), b') \<Longrightarrow>
      bridge_step b Tau b'"
| future_sent:
    "br_waits b q = Fut_running t \<Longrightarrow> 0 < br_senders b \<Longrightarrow> br_open b \<Longrightarrow>
      bridge_step b (Accepted (Complete_fn q t v)) (future_done q v b)"
| future_lost:
    "br_waits b q = Fut_running t \<Longrightarrow> \<not> br_open b \<Longrightarrow> bridge_step b Tau (future_done q v b)"
| wait_returned: "wait_pop q b = Some (r, b') \<Longrightarrow> bridge_step b Tau b'"
| value_created: "br_boxes b k = No_box \<Longrightarrow> bridge_step b Tau (value_new k b)"
| value_dropped_here: "br_boxes b k = Box_live \<Longrightarrow> bridge_step b Tau (value_drop True k b)"
| value_dropped_away:
    "br_boxes b k = Box_live \<Longrightarrow> 0 < br_senders b \<Longrightarrow> br_open b \<Longrightarrow>
      bridge_step b (Accepted (Release_fn k)) (value_drop False k b)"
| value_leaked:
    "br_boxes b k = Box_live \<Longrightarrow> \<not> br_open b \<Longrightarrow> bridge_step b Tau (value_drop False k b)"
| sender_cloned:
    "0 < br_senders b \<Longrightarrow> bridge_step b Tau (b\<lparr>br_senders := Suc (br_senders b)\<rparr>)"
| sender_dropped:
    "0 < br_senders b \<Longrightarrow> bridge_step b Tau (b\<lparr>br_senders := br_senders b - 1\<rparr>)"
| batch_taken:
    "br_open b \<Longrightarrow> br_batch b = [] \<Longrightarrow> br_queue b \<noteq> [] \<Longrightarrow>
      bridge_step b Tau (snd (take_batch Wake_channel b))"
| executed:
    "br_open b \<Longrightarrow> br_batch b = c # cs \<Longrightarrow> bridge_step b (Executed c) (exec_next b)"
| poll_cancelled:
    "br_open b \<Longrightarrow> br_batch b = [] \<Longrightarrow> bridge_step b Tau (snd (take_batch Wake_cancel b))"
| thread_stopped:
    "br_open b \<Longrightarrow> br_batch b = [] \<Longrightarrow> br_queue b = [] \<Longrightarrow> br_senders b = 0 \<Longrightarrow>
      bridge_step b Tau (b\<lparr>br_open := False\<rparr>)"
| thread_killed: "br_open b \<Longrightarrow> bridge_step b Killed (kill_thread on_ruby b)"

inductive bridge_run ::
  "('w, 'r, 'v) bridge \<Rightarrow> ('w, 'r, 'v) bridge_event list \<Rightarrow> ('w, 'r, 'v) bridge \<Rightarrow> bool"
  for b0
where
  run_nil: "bridge_run b0 [] b0"
| run_snoc: "bridge_run b0 es b \<Longrightarrow> bridge_step b e b' \<Longrightarrow> bridge_run b0 (es @ [e]) b'"

fun accepted :: "('w, 'r, 'v) bridge_event list \<Rightarrow> ('w, 'r, 'v) ruby_function list" where
  "accepted [] = []"
| "accepted (Accepted c # es) = c # accepted es"
| "accepted (_ # es) = accepted es"

fun executed :: "('w, 'r, 'v) bridge_event list \<Rightarrow> ('w, 'r, 'v) ruby_function list" where
  "executed [] = []"
| "executed (Executed c # es) = c # executed es"
| "executed (_ # es) = executed es"

lemma accepted_append [simp]: "accepted (xs @ ys) = accepted xs @ accepted ys"
  by (induction xs rule: accepted.induct) simp_all

lemma executed_append [simp]: "executed (xs @ ys) = executed xs @ executed ys"
  by (induction xs rule: executed.induct) simp_all

subsection \<open>The effect of the handlers on each component\<close>

text \<open>The closures waiting to be run, in the order they will be.\<close>

definition pending :: "('w, 'r, 'v) bridge \<Rightarrow> ('w, 'r, 'v) ruby_function list" where
  "pending b = br_batch b @ br_queue b"

named_theorems bridge_effects \<open>the handlers of the bridge, unfolded\<close>

declare send_def [bridge_effects] run_start_def [bridge_effects] wait_start_def [bridge_effects]
  future_done_def [bridge_effects] value_new_def [bridge_effects] value_drop_def [bridge_effects]

lemma drain_eq:
  "length cs \<le> POLL_BATCH_SIZE \<Longrightarrow>
     drain cs q = (cs @ take (POLL_BATCH_SIZE - length cs) q, drop (POLL_BATCH_SIZE - length cs) q)"
proof (induction cs q rule: drain.induct)
  case (1 cs)
  then show ?case by simp
next
  case (2 cs c q)
  show ?case
  proof (cases "length cs < POLL_BATCH_SIZE")
    case True
    then obtain n where "POLL_BATCH_SIZE - length cs = Suc n"
      by (metis Suc_diff_Suc)
    with True 2 show ?thesis
      by (simp add: Suc_le_eq) (metis Suc_diff_Suc diff_Suc_1' diff_diff_left plus_1_eq_Suc)
  next
    case False
    with 2 show ?thesis by simp
  qed
qed

lemma poll_fn_channel:
  "q \<noteq> [] \<Longrightarrow> poll_fn Wake_channel q = (Inr (take POLL_BATCH_SIZE q), drop POLL_BATCH_SIZE q)"
  by (cases q) (simp_all add: drain_eq POLL_BATCH_SIZE_def numeral_eq_Suc)

lemma take_batch_channel:
  "br_queue b \<noteq> [] \<Longrightarrow> take_batch Wake_channel b =
     (Inr (), b\<lparr>br_queue := drop POLL_BATCH_SIZE (br_queue b),
                br_batch := take POLL_BATCH_SIZE (br_queue b)\<rparr>)"
  by (simp add: take_batch_def poll_fn_channel)

lemma take_batch_cancel: "take_batch Wake_cancel b = (Inl Cancelled, b)"
  by (simp add: take_batch_def)

lemma exec_next_Cons: "br_batch b = c # cs \<Longrightarrow> exec_next b = execute c (b\<lparr>br_batch := cs\<rparr>)"
  by (simp add: exec_next_def)

lemma execute_fields [simp]:
  "br_queue (execute c b) = br_queue b"
  "br_batch (execute c b) = br_batch b"
  "br_open (execute c b) = br_open b"
  "br_senders (execute c b) = br_senders b"
  "br_waits (execute c b) = br_waits b"
  by (cases c; simp split: prod.split)+

lemma exec_next_fields [simp]:
  "br_queue (exec_next b) = br_queue b"
  "br_open (exec_next b) = br_open b"
  "br_senders (exec_next b) = br_senders b"
  "br_waits (exec_next b) = br_waits b"
  by (simp_all add: exec_next_def split: list.split)

fun run_ids :: "('w, 'r, 'v) ruby_function list \<Rightarrow> nat list" where
  "run_ids [] = []"
| "run_ids (Run_fn i f # cs) = i # run_ids cs"
| "run_ids (_ # cs) = run_ids cs"

fun release_ids :: "('w, 'r, 'v) ruby_function list \<Rightarrow> nat list" where
  "release_ids [] = []"
| "release_ids (Release_fn k # cs) = k # release_ids cs"
| "release_ids (_ # cs) = release_ids cs"

fun completions :: "nat \<Rightarrow> ('w, 'r, 'v) ruby_function list \<Rightarrow> 'v dyn_result list" where
  "completions q [] = []"
| "completions q (Complete_fn p t v # cs) =
     (if p = q then Dyn t v # completions q cs else completions q cs)"
| "completions q (_ # cs) = completions q cs"

lemma run_ids_append [simp]: "run_ids (xs @ ys) = run_ids xs @ run_ids ys"
  by (induction xs rule: run_ids.induct) simp_all

lemma release_ids_append [simp]: "release_ids (xs @ ys) = release_ids xs @ release_ids ys"
  by (induction xs rule: release_ids.induct) simp_all

lemma completions_append [simp]: "completions q (xs @ ys) = completions q xs @ completions q ys"
  by (induction q xs rule: completions.induct) simp_all

lemma run_ids_iff: "i \<in> set (run_ids cs) \<longleftrightarrow> (\<exists>f. Run_fn i f \<in> set cs)"
  by (induction cs rule: run_ids.induct) auto

text \<open>Discarding a list of closures, component by component.\<close>

lemma discard_fields [simp]:
  "br_queue (discard r c b) = br_queue b"
  "br_batch (discard r c b) = br_batch b"
  "br_open (discard r c b) = br_open b"
  "br_senders (discard r c b) = br_senders b"
  "br_world (discard r c b) = br_world b"
  "br_queues (discard r c b) = br_queues b"
  "br_waits (discard r c b) = br_waits b"
  by (simp_all add: discard_def split: ruby_function.split)

lemma fold_discard_fields [simp]:
  "br_queue (fold (discard r) cs b) = br_queue b"
  "br_batch (fold (discard r) cs b) = br_batch b"
  "br_open (fold (discard r) cs b) = br_open b"
  "br_senders (fold (discard r) cs b) = br_senders b"
  "br_world (fold (discard r) cs b) = br_world b"
  "br_queues (fold (discard r) cs b) = br_queues b"
  "br_waits (fold (discard r) cs b) = br_waits b"
  by (induction cs arbitrary: b) simp_all

lemma fold_discard_oneshots:
  "br_oneshots (fold (discard r) cs b) i =
     (if br_oneshots b i = Pending \<and> i \<in> set (run_ids cs) then Tx_gone else br_oneshots b i)"
proof (induction cs arbitrary: b)
  case Nil
  then show ?case by simp
next
  case (Cons c cs)
  then show ?case by (cases c) (auto simp: discard_def split: oneshot.split)
qed

lemma fold_discard_boxes:
  "br_boxes (fold (discard r) cs b) k =
     (if k \<in> set (release_ids cs) then ruby_drop r else br_boxes b k)"
proof (induction cs arbitrary: b)
  case Nil
  then show ?case by simp
next
  case (Cons c cs)
  then show ?case by (cases c) (auto simp: discard_def)
qed

lemma kill_thread_fields [simp]:
  "br_queue (kill_thread r b) = []"
  "br_batch (kill_thread r b) = []"
  "br_open (kill_thread r b) = False"
  "br_world (kill_thread r b) = br_world b"
  "br_queues (kill_thread r b) = br_queues b"
  "br_waits (kill_thread r b) = br_waits b"
  by (simp_all add: kill_thread_def)

lemma wait_pop_SomeE:
  assumes "wait_pop q b = Some (r, b')"
  obtains t v d ds where "br_waits b q = Fut_sent t v" "br_queues b q = d # ds"
    "r = unpack_result t d"
    "b' = b\<lparr>br_queues := (br_queues b)(q := ds), br_waits := (br_waits b)(q := Wait_returned t v r)\<rparr>"
  using assms by (auto simp: wait_pop_def Let_def split: wait_state.splits list.splits)

subsection \<open>First in, first out\<close>

text \<open>
  What the channel accepted is what has run, then what waits, then what a kill threw away.
\<close>

definition fifo_inv :: "('w, 'r, 'v) bridge_event list \<Rightarrow> ('w, 'r, 'v) bridge \<Rightarrow> bool" where
  "fifo_inv es b \<longleftrightarrow>
     (\<exists>lost. accepted es = executed es @ pending b @ lost \<and>
        (Killed \<notin> set es \<longrightarrow> lost = []) \<and> (br_open b \<longrightarrow> lost = [])) \<and>
     (\<not> br_open b \<longrightarrow> pending b = []) \<and>
     (br_open b \<longrightarrow> Killed \<notin> set es) \<and>
     length (br_batch b) \<le> POLL_BATCH_SIZE"

lemma fifo_inv_new: "fifo_inv [] (bridge_new w)"
  by (simp add: fifo_inv_def bridge_new_def pending_def)

lemma fifo_inv_step: "bridge_step b e b' \<Longrightarrow> fifo_inv es b \<Longrightarrow> fifo_inv (es @ [e]) b'"
proof (induction rule: bridge_step.induct)
  case (batch_taken b)
  then show ?case by (auto simp: fifo_inv_def pending_def take_batch_channel)
next
  case (executed b c cs)
  then show ?case by (auto simp: fifo_inv_def pending_def exec_next_Cons)
next
  case (wait_returned q b r b')
  then show ?case by (auto simp: fifo_inv_def pending_def elim!: wait_pop_SomeE)
next
  case (thread_killed b r)
  then show ?case by (auto simp: fifo_inv_def pending_def)
next
  case (wait_started b q env t b')
  then show ?case by (auto simp: fifo_inv_def pending_def wait_start_def split: option.splits)
qed (auto simp: fifo_inv_def pending_def bridge_effects take_batch_cancel)

lemma fifo_inv_run: "bridge_run (bridge_new w) es b \<Longrightarrow> fifo_inv es b"
  by (induction rule: bridge_run.induct) (auto intro: fifo_inv_new fifo_inv_step)

subsection \<open>The Ruby heap\<close>

text \<open>What running a closure does to the Ruby heap.\<close>

fun world_effect :: "('w, 'r, 'v) ruby_function \<Rightarrow> 'w \<Rightarrow> 'w" where
  "world_effect (Run_fn i f) w = snd (f w)"
| "world_effect _ w = w"

lemma execute_world: "br_world (execute c b) = world_effect c (br_world b)"
  by (cases c) (simp_all split: prod.split)

lemma world_step:
  "bridge_step b e b' \<Longrightarrow> br_world b' = fold world_effect (executed [e]) (br_world b)"
proof (induction rule: bridge_step.induct)
  case (wait_returned q b r b')
  then show ?case by (auto elim!: wait_pop_SomeE)
next
  case (executed b c cs)
  then show ?case by (simp add: exec_next_Cons execute_world)
next
  case (batch_taken b)
  then show ?case by (simp add: take_batch_channel)
next
  case (wait_started b q env t b')
  then show ?case by (auto simp: wait_start_def split: option.splits)
qed (simp_all add: bridge_effects take_batch_cancel)

lemma world_run: "bridge_run b0 es b \<Longrightarrow> br_world b = fold world_effect (executed es) (br_world b0)"
  by (induction rule: bridge_run.induct) (simp_all add: world_step)

subsection \<open>Oneshot channels\<close>

text \<open>
  A oneshot that is still pending belongs to a closure that will run or be discarded, and a
  filled one holds what its function returned at its turn.
\<close>

definition turn_of ::
  "'w \<Rightarrow> ('w, 'r, 'v) ruby_function list \<Rightarrow> nat \<Rightarrow> 'r \<Rightarrow> bool"
where
  "turn_of w cs i r \<longleftrightarrow>
     (\<exists>pre f post. cs = pre @ Run_fn i f # post \<and> r = fst (f (fold world_effect pre w)))"

lemma turn_of_append: "turn_of w cs i r \<Longrightarrow> turn_of w (cs @ ds) i r"
  by (fastforce simp: turn_of_def)

lemma turn_of_now: "turn_of w (cs @ [Run_fn i f]) i (fst (f (fold world_effect cs w)))"
  by (auto simp: turn_of_def)

definition oneshot_inv ::
  "'w \<Rightarrow> ('w, 'r, 'v) bridge_event list \<Rightarrow> ('w, 'r, 'v) bridge \<Rightarrow> bool"
where
  "oneshot_inv w es b \<longleftrightarrow>
     distinct (run_ids (accepted es)) \<and>
     (\<forall>i\<in>set (run_ids (accepted es)). br_oneshots b i \<noteq> Unused) \<and>
     (\<forall>i. br_oneshots b i = Pending \<longrightarrow> i \<in> set (run_ids (pending b))) \<and>
     (\<forall>i r. br_oneshots b i = Filled r \<longrightarrow> turn_of w (executed es) i r)"

lemma oneshot_inv_new: "oneshot_inv w [] (bridge_new w)"
  by (simp add: oneshot_inv_def bridge_new_def)

text \<open>Steps that leave the oneshots, the pending closures and the history of runs alone.\<close>

lemma oneshot_inv_frame:
  assumes "oneshot_inv w es b" and "br_oneshots b' = br_oneshots b"
    and "run_ids (pending b') = run_ids (pending b)"
    and "run_ids (accepted [e]) = []" and "executed [e] = []"
  shows "oneshot_inv w (es @ [e]) b'"
  using assms by (simp add: oneshot_inv_def)

lemma oneshot_inv_execute:
  assumes inv: "oneshot_inv w es b" and batch: "br_batch b = c # cs"
    and world: "br_world b = fold world_effect (executed es) w"
  shows "oneshot_inv w (es @ [Executed c]) (exec_next b)"
proof -
  let ?b = "exec_next b"
  have pend: "pending b = c # pending ?b"
    using batch by (simp add: pending_def exec_next_Cons)
  have ran: "executed (es @ [Executed c]) = executed es @ [c]" by simp
  show ?thesis
  proof (cases c)
    case (Run_fn i f)
    have new: "br_oneshots ?b = (case br_oneshots b i of
        Pending \<Rightarrow> (br_oneshots b)(i := Filled (fst (f (br_world b)))) | _ \<Rightarrow> br_oneshots b)"
      using batch Run_fn
      by (cases "f (br_world b)") (simp add: exec_next_Cons split: oneshot.split)
    have now: "turn_of w (executed es @ [c]) i (fst (f (br_world b)))"
      unfolding Run_fn world by (rule turn_of_now)
    show ?thesis
      using inv now pend unfolding oneshot_inv_def ran new Run_fn
      by (auto intro: turn_of_append split: oneshot.splits if_splits)
  next
    case (Complete_fn q t v)
    then show ?thesis using inv pend batch
      by (auto simp: oneshot_inv_def exec_next_Cons intro: turn_of_append)
  next
    case (Release_fn k)
    then show ?thesis using inv pend batch
      by (auto simp: oneshot_inv_def exec_next_Cons intro: turn_of_append)
  qed
qed

lemma oneshot_inv_kill:
  assumes "oneshot_inv w es b"
  shows "oneshot_inv w (es @ [Killed]) (kill_thread r b)"
  using assms
  by (auto simp: oneshot_inv_def kill_thread_def fold_discard_oneshots pending_def split: if_splits)

lemma oneshot_inv_step:
  "bridge_step b e b' \<Longrightarrow> oneshot_inv w es b \<Longrightarrow> fifo_inv es b \<Longrightarrow>
     br_world b = fold world_effect (executed es) w \<Longrightarrow> oneshot_inv w (es @ [e]) b'"
proof (induction rule: bridge_step.induct)
  case (run_accepted b i f)
  then show ?case by (auto simp: oneshot_inv_def pending_def bridge_effects)
next
  case (run_refused b i f)
  then show ?case by (auto simp: oneshot_inv_def pending_def bridge_effects)
next
  case (run_abandoned b i)
  then show ?case by (auto simp: oneshot_inv_def pending_def)
next
  case (wait_started b q env t b')
  then show ?case
    by (auto simp: wait_start_def pending_def split: option.splits intro!: oneshot_inv_frame)
next
  case (wait_returned q b r b')
  then show ?case by (auto simp: pending_def elim!: wait_pop_SomeE intro!: oneshot_inv_frame)
next
  case (batch_taken b)
  then show ?case
    by (auto simp: pending_def take_batch_channel run_ids_append [symmetric] simp del: run_ids_append
        intro!: oneshot_inv_frame)
next
  case (executed b c cs)
  then show ?case by (simp add: oneshot_inv_execute)
next
  case (thread_killed b r)
  then show ?case by (simp add: oneshot_inv_kill)
qed (auto simp: bridge_effects take_batch_cancel pending_def intro!: oneshot_inv_frame)

lemma oneshot_inv_run: "bridge_run (bridge_new w) es b \<Longrightarrow> oneshot_inv w es b"
proof (induction rule: bridge_run.induct)
  case run_nil
  show ?case by (rule oneshot_inv_new)
next
  case (run_snoc es b e b')
  have "br_world b = fold world_effect (executed es) w"
    using world_run [OF run_snoc.hyps(1)] by (simp add: bridge_new_def)
  then show ?case
    by (rule oneshot_inv_step [OF run_snoc.hyps(2) run_snoc.IH fifo_inv_run [OF run_snoc.hyps(1)]])
qed

subsection \<open>Waiting calls\<close>

text \<open>
  The outputs delivered or on their way to one queue, by the state of the call that waits on it.
\<close>

fun wait_ok :: "bool \<Rightarrow> 'v wait_state \<Rightarrow> 'v dyn_result list \<Rightarrow> bool" where
  "wait_ok op (Fut_sent t v) ds \<longleftrightarrow> ds = [Dyn t v] \<or> \<not> op \<and> ds = []"
| "wait_ok op (Wait_returned t v r) ds \<longleftrightarrow> r = Inr v \<and> ds = []"
| "wait_ok op _ ds \<longleftrightarrow> ds = []"

definition outputs :: "('w, 'r, 'v) bridge \<Rightarrow> nat \<Rightarrow> 'v dyn_result list" where
  "outputs b q = br_queues b q @ completions q (pending b)"

definition wait_inv :: "('w, 'r, 'v) bridge \<Rightarrow> bool" where
  "wait_inv b \<longleftrightarrow> (\<forall>q. wait_ok (br_open b) (br_waits b q) (outputs b q))"

lemma wait_inv_new: "wait_inv (bridge_new w)"
  by (simp add: wait_inv_def outputs_def bridge_new_def pending_def)

lemma wait_ok_closing: "wait_ok op w ds \<Longrightarrow> wait_ok False w ds"
  by (cases w) auto

lemma wait_inv_frame:
  assumes "wait_inv b" and "br_waits b' = br_waits b" and "br_open b' \<longrightarrow> br_open b"
    and "outputs b' = outputs b"
  shows "wait_inv b'"
  using assms wait_ok_closing by (cases "br_open b'") (auto simp: wait_inv_def)

lemma wait_inv_execute:
  assumes "wait_inv b" "br_batch b = c # cs"
  shows "wait_inv (exec_next b)"
proof (rule wait_inv_frame [OF assms(1)])
  show "outputs (exec_next b) = outputs b"
    using assms(2)
    by (cases c) (auto simp: outputs_def exec_next_Cons pending_def fun_eq_iff split: prod.split)
qed (use assms(2) in \<open>simp_all add: exec_next_Cons\<close>)

lemma wait_inv_pop:
  assumes inv: "wait_inv b" and pop: "wait_pop q b = Some (r, b')"
  shows "wait_inv b'" and "\<exists>t v. br_waits b q = Fut_sent t v \<and> r = Inr v"
proof -
  from pop obtain t v d ds where w: "br_waits b q = Fut_sent t v" "br_queues b q = d # ds"
    and r: "r = unpack_result t d"
    and b': "b' = b\<lparr>br_queues := (br_queues b)(q := ds),
      br_waits := (br_waits b)(q := Wait_returned t v r)\<rparr>"
    by (rule wait_pop_SomeE)
  have "wait_ok (br_open b) (Fut_sent t v) (outputs b q)"
    using inv w(1) by (metis wait_inv_def)
  then have d: "d = Dyn t v" "ds = []" "completions q (pending b) = []"
    using w(2) by (auto simp: outputs_def)
  then have ret: "r = Inr v" by (simp add: r unpack_result_def dyn_take_def)
  then show "\<exists>t v. br_waits b q = Fut_sent t v \<and> r = Inr v" using w by blast
  show "wait_inv b'"
    unfolding wait_inv_def
  proof
    fix p
    show "wait_ok (br_open b') (br_waits b' p) (outputs b' p)"
      using inv d ret by (cases "p = q") (auto simp: wait_inv_def b' outputs_def pending_def)
  qed
qed

lemma wait_ok_lost: "wait_ok op w (ds @ es) \<Longrightarrow> wait_ok False w ds"
  by (cases w) (auto simp: append_eq_Cons_conv)

lemma wait_inv_kill: "wait_inv b \<Longrightarrow> wait_inv (kill_thread r b)"
  by (auto simp: wait_inv_def outputs_def pending_def intro: wait_ok_lost)

lemma wait_inv_step: "bridge_step b e b' \<Longrightarrow> fifo_inv es b \<Longrightarrow> wait_inv b \<Longrightarrow> wait_inv b'"
proof (induction rule: bridge_step.induct)
  case (wait_started b q env t b')
  then have b': "b' = b\<lparr>br_queues := (br_queues b)(q := []), br_waits := (br_waits b)(q := Fut_running t)\<rparr>"
    by (auto simp: wait_start_def split: option.splits)
  have "wait_ok (br_open b) (br_waits b p) (outputs b p)" for p
    using wait_started.prems by (simp add: wait_inv_def)
  from this [of q] this show ?case
    using wait_started.hyps(1) by (auto simp: wait_inv_def b' outputs_def pending_def)
next
  case (future_sent b q t v)
  have "wait_ok (br_open b) (br_waits b p) (outputs b p)" for p
    using future_sent.prems by (simp add: wait_inv_def)
  from this [of q] this show ?case
    using future_sent.hyps by (auto simp: wait_inv_def bridge_effects outputs_def pending_def)
next
  case (future_lost b q t v)
  have "wait_ok (br_open b) (br_waits b p) (outputs b p)" for p
    using future_lost.prems by (simp add: wait_inv_def)
  from this [of q] this show ?case
    using future_lost.hyps by (auto simp: wait_inv_def bridge_effects outputs_def pending_def)
next
  case (wait_returned q b r b')
  then show ?case by (blast intro: wait_inv_pop(1))
next
  case (batch_taken b)
  then show ?case
    by (auto simp: take_batch_channel outputs_def pending_def fun_eq_iff
        completions_append [symmetric] simp del: completions_append intro: wait_inv_frame)
next
  case (executed b c cs)
  then show ?case by (simp add: wait_inv_execute)
next
  case (thread_killed b r)
  then show ?case by (simp add: wait_inv_kill)
qed (auto simp: bridge_effects take_batch_cancel outputs_def pending_def fun_eq_iff
    elim!: wait_inv_frame)

lemma wait_inv_run: "bridge_run (bridge_new w) es b \<Longrightarrow> wait_inv b"
  by (induction rule: bridge_run.induct) (auto intro: wait_inv_new wait_inv_step fifo_inv_run)

end
