(* ===== verification/Bridge_Props.thy ===== *)
theory Bridge_Props
  imports Bridge_Steps
begin

text \<open>
  What the bridge promises: order and completeness of the closures it runs, the results of
  \<open>run\<close> and \<open>wait_for\<close>, the cleanup of boxed values, and the refinement of the batching
  Ruby thread to a plain sequential executor, which is the interface the other components
  use.
\<close>

subsection \<open>Boxed values\<close>

definition box_inv :: "('w, 'r, 'v) bridge_event list \<Rightarrow> ('w, 'r, 'v) bridge \<Rightarrow> bool" where
  "box_inv es b \<longleftrightarrow>
     distinct (release_ids (accepted es)) \<and>
     (\<forall>k\<in>set (release_ids (accepted es)). br_boxes b k \<notin> {No_box, Box_live}) \<and>
     (\<forall>k. br_boxes b k = Box_deferred \<longleftrightarrow> k \<in> set (release_ids (pending b))) \<and>
     (\<forall>k\<in>set (release_ids (executed es)). br_boxes b k = Box_unregistered) \<and>
     (\<forall>k. br_boxes b k = Box_leaked \<longrightarrow> \<not> br_open b)"

lemma box_inv_new: "box_inv [] (bridge_new w)"
  by (simp add: box_inv_def bridge_new_def pending_def)

lemma box_inv_frame:
  assumes "box_inv es b" and "br_boxes b' = br_boxes b" and "br_open b' \<longrightarrow> br_open b"
    and "release_ids (pending b') = release_ids (pending b)"
    and "release_ids (accepted [e]) = []" and "executed [e] = []"
  shows "box_inv (es @ [e]) b'"
  using assms by (auto simp: box_inv_def)

lemma box_fresh:
  assumes "box_inv es b" and "fifo_inv es b" and "br_boxes b k = No_box \<or> br_boxes b k = Box_live"
  shows "k \<notin> set (release_ids (accepted es))" "k \<notin> set (release_ids (pending b))"
    "k \<notin> set (release_ids (executed es))"
proof -
  show acc: "k \<notin> set (release_ids (accepted es))"
    using assms(1,3) by (auto simp: box_inv_def)
  then show "k \<notin> set (release_ids (pending b))" "k \<notin> set (release_ids (executed es))"
    using assms(2) by (auto simp: fifo_inv_def)
qed

lemma box_inv_execute:
  assumes inv: "box_inv es b" and fifo: "fifo_inv es b" and batch: "br_batch b = c # cs"
  shows "box_inv (es @ [Executed c]) (exec_next b)"
proof -
  let ?b = "exec_next b"
  have pend: "pending b = c # pending ?b"
    using batch by (simp add: pending_def exec_next_Cons)
  have other: "br_boxes ?b = br_boxes b" if "release_ids [c] = []"
    using that batch by (cases c) (simp_all add: exec_next_Cons split: prod.split)
  show ?thesis
  proof (cases c)
    case (Release_fn k)
    from fifo have "distinct (release_ids (pending b))"
      using inv by (auto simp: fifo_inv_def box_inv_def)
    then have once: "k \<notin> set (release_ids (pending ?b))"
      using pend Release_fn by simp
    have "br_boxes ?b = (br_boxes b)(k := Box_unregistered)"
      using batch Release_fn by (simp add: exec_next_Cons ruby_drop_def)
    then show ?thesis
      using inv pend once Release_fn by (auto simp: box_inv_def)
  next
    case (Run_fn i f)
    then show ?thesis using inv pend other by (auto simp: box_inv_def)
  next
    case (Complete_fn q t v)
    then show ?thesis using inv pend other by (auto simp: box_inv_def)
  qed
qed

lemma box_inv_kill:
  assumes "box_inv es b" and "fifo_inv es b"
  shows "box_inv (es @ [Killed]) (kill_thread r b)"
proof -
  have boxes: "br_boxes (kill_thread r b) k =
      (if k \<in> set (release_ids (pending b)) then ruby_drop r else br_boxes b k)" for k
    by (simp add: kill_thread_def fold_discard_boxes pending_def)
  have "k \<notin> set (release_ids (pending b))" if "k \<in> set (release_ids (executed es))" for k
    using assms that by (fastforce simp: box_inv_def fifo_inv_def)
  then show ?thesis
    using assms by (auto simp: box_inv_def boxes ruby_drop_def pending_def)
qed

lemma box_inv_step:
  "bridge_step b e b' \<Longrightarrow> fifo_inv es b \<Longrightarrow> box_inv es b \<Longrightarrow> box_inv (es @ [e]) b'"
proof (induction rule: bridge_step.induct)
  case (value_created b k)
  then show ?case
    using box_fresh [of es b k] by (auto simp: box_inv_def bridge_effects pending_def)
next
  case (value_dropped_here b k)
  then show ?case
    using box_fresh [of es b k] by (auto simp: box_inv_def bridge_effects pending_def ruby_drop_def)
next
  case (value_dropped_away b k)
  then show ?case
    using box_fresh [of es b k] by (auto simp: box_inv_def bridge_effects pending_def)
next
  case (value_leaked b k)
  then show ?case
    using box_fresh [of es b k] by (auto simp: box_inv_def bridge_effects pending_def ruby_drop_def)
next
  case (wait_started b q env t b')
  then show ?case
    by (auto simp: wait_start_def pending_def split: option.splits elim!: box_inv_frame)
next
  case (wait_returned q b r b')
  then show ?case by (auto simp: pending_def elim!: wait_pop_SomeE box_inv_frame)
next
  case (batch_taken b)
  then show ?case
    by (auto simp: pending_def take_batch_channel release_ids_append [symmetric]
        simp del: release_ids_append elim!: box_inv_frame)
next
  case (executed b c cs)
  then show ?case by (simp add: box_inv_execute)
next
  case (thread_killed b r)
  then show ?case by (simp add: box_inv_kill)
qed (auto simp: bridge_effects take_batch_cancel pending_def elim!: box_inv_frame)

lemma box_inv_run: "bridge_run (bridge_new w) es b \<Longrightarrow> box_inv es b"
  by (induction rule: bridge_run.induct) (auto intro: box_inv_new box_inv_step fifo_inv_run)

subsection \<open>The Ruby thread as a sequential executor\<close>

lemma fold_execute_fields [simp]:
  "br_queue (fold execute cs b) = br_queue b"
  "br_batch (fold execute cs b) = br_batch b"
  "br_open (fold execute cs b) = br_open b"
  by (induction cs arbitrary: b) simp_all

lemma execute_set_queue: "execute c (b\<lparr>br_queue := q\<rparr>) = (execute c b)\<lparr>br_queue := q\<rparr>"
  by (cases c) (simp_all split: prod.split oneshot.split)

lemma fold_execute_set_queue:
  "fold execute cs (b\<lparr>br_queue := q\<rparr>) = (fold execute cs b)\<lparr>br_queue := q\<rparr>"
  by (induction cs arbitrary: b) (simp_all add: execute_set_queue)

lemma poll_channel:
  assumes "br_queue b \<noteq> []" and "br_batch b = []"
  shows "poll Wake_channel b =
    (Inr (), (fold execute (take POLL_BATCH_SIZE (br_queue b)) b)
       \<lparr>br_queue := drop POLL_BATCH_SIZE (br_queue b)\<rparr>)"
proof -
  have "b\<lparr>br_queue := drop POLL_BATCH_SIZE (br_queue b), br_batch := []\<rparr> =
      b\<lparr>br_queue := drop POLL_BATCH_SIZE (br_queue b)\<rparr>"
    using assms(2) by simp
  with assms(1) show ?thesis
    by (simp add: poll_def take_batch_channel fold_execute_set_queue)
qed

text \<open>The number of polls that serve a channel of the given length.\<close>

definition polls_for :: "nat \<Rightarrow> nat" where
  "polls_for k = (k + (POLL_BATCH_SIZE - 1)) div POLL_BATCH_SIZE"

lemma polls_for_0 [simp]: "polls_for 0 = 0"
  by (simp add: polls_for_def POLL_BATCH_SIZE_def)

lemma polls_for_pos: "0 < k \<Longrightarrow> polls_for k = Suc (polls_for (k - POLL_BATCH_SIZE))"
proof (cases "POLL_BATCH_SIZE \<le> k")
  case True
  then obtain m where "k = POLL_BATCH_SIZE + m" by (metis le_Suc_ex)
  then show ?thesis by (simp add: polls_for_def POLL_BATCH_SIZE_def)
next
  case False
  moreover assume "0 < k"
  ultimately have "(k + 15) div 16 = 1"
    by (intro div_nat_eqI) (simp_all add: POLL_BATCH_SIZE_def)
  with False show ?thesis by (simp add: polls_for_def POLL_BATCH_SIZE_def)
qed

lemma thread_serves:
  "br_batch b = [] \<Longrightarrow>
     bridge_thread (replicate (polls_for (length (br_queue b))) Wake_channel) b =
       (False, (fold execute (br_queue b) b)\<lparr>br_queue := []\<rparr>)"
proof (induction "length (br_queue b)" arbitrary: b rule: less_induct)
  case less
  show ?case
  proof (cases "br_queue b = []")
    case True
    then show ?thesis by simp
  next
    case False
    let ?q = "br_queue b"
    let ?b = "(fold execute (take POLL_BATCH_SIZE ?q) b)\<lparr>br_queue := drop POLL_BATCH_SIZE ?q\<rparr>"
    have "length (br_queue ?b) < length ?q" and "br_batch ?b = []"
      using False less.prems by (simp_all add: POLL_BATCH_SIZE_def)
    from less.hyps [OF this] have
      "bridge_thread (replicate (polls_for (length (br_queue ?b))) Wake_channel) ?b =
        (False, (fold execute (drop POLL_BATCH_SIZE ?q) (fold execute (take POLL_BATCH_SIZE ?q) b))
          \<lparr>br_queue := []\<rparr>)"
      by (simp add: fold_execute_set_queue)
    also have "fold execute (drop POLL_BATCH_SIZE ?q) (fold execute (take POLL_BATCH_SIZE ?q) b) =
        fold execute ?q b"
      by (metis append_take_drop_id comp_apply fold_append)
    finally show ?thesis
      using False less.prems polls_for_pos [of "length ?q"] by (simp add: poll_channel)
  qed
qed

text \<open>
  The interface of \<open>run\<close>: an executor that runs a function on the Ruby heap and reports
  what it returned, as long as the Ruby side is there, and refuses it otherwise.
\<close>

locale ruby_executor =
  fixes run :: "('w \<Rightarrow> 'r \<times> 'w) \<Rightarrow> 'b \<Rightarrow> (bridge_error + 'r) option \<times> 'b"
    and heap :: "'b \<Rightarrow> 'w"
    and accepts :: "'b \<Rightarrow> bool"
    and ok :: "'b \<Rightarrow> bool"
  assumes run_ok: "ok b \<Longrightarrow> ok (snd (run f b))"
    and run_accepts: "ok b \<Longrightarrow> accepts (snd (run f b)) = accepts b"
    and run_value: "ok b \<Longrightarrow> accepts b \<Longrightarrow> fst (run f b) = Some (Inr (fst (f (heap b))))"
    and run_heap: "ok b \<Longrightarrow> accepts b \<Longrightarrow> heap (snd (run f b)) = snd (f (heap b))"
    and run_refused: "ok b \<Longrightarrow> \<not> accepts b \<Longrightarrow> fst (run f b) = Some (Inl Shutdown)"
    and run_refused_heap: "ok b \<Longrightarrow> \<not> accepts b \<Longrightarrow> heap (snd (run f b)) = heap b"
begin

definition run_all :: "('w \<Rightarrow> 'r \<times> 'w) list \<Rightarrow> 'b \<Rightarrow> 'b" where
  "run_all fs b = fold (\<lambda>f b. snd (run f b)) fs b"

lemma run_all_Cons [simp]: "run_all (f # fs) b = run_all fs (snd (run f b))"
  by (simp add: run_all_def)

lemma run_all_Nil [simp]: "run_all [] b = b"
  by (simp add: run_all_def)

lemma run_all_ok: "ok b \<Longrightarrow> ok (run_all fs b) \<and> accepts (run_all fs b) = accepts b"
  by (induction fs arbitrary: b) (simp_all add: run_ok run_accepts)

lemma run_all_heap:
  "ok b \<Longrightarrow> heap (run_all fs b) =
     (if accepts b then fold (\<lambda>f w. snd (f w)) fs (heap b) else heap b)"
  by (induction fs arbitrary: b)
     (simp_all add: run_ok run_accepts run_heap run_refused_heap)

lemma run_returns: "ok b \<Longrightarrow> \<exists>r. fst (run f b) = Some r"
  by (cases "accepts b") (simp_all add: run_value run_refused)

end

text \<open>The specification: no channel, no batches, the function is applied at once.\<close>

definition bridge_call ::
  "('w \<Rightarrow> 'r \<times> 'w) \<Rightarrow> bool \<times> 'w \<Rightarrow> (bridge_error + 'r) option \<times> (bool \<times> 'w)"
where
  "bridge_call f = (\<lambda>(up, w).
     if up then (case f w of (r, w) \<Rightarrow> (Some (Inr r), (up, w))) else (Some (Inl Shutdown), (up, w)))"

interpretation spec: ruby_executor bridge_call snd fst "\<lambda>_. True"
  by unfold_locales (auto simp: bridge_call_def split: prod.splits)

text \<open>
  The implementation: \<open>run\<close> with a fresh oneshot, the Ruby thread polling until the channel
  is empty, then the result. The counter names the next fresh oneshot.
\<close>

definition serve :: "('w, 'r, 'v) bridge \<Rightarrow> ('w, 'r, 'v) bridge" where
  "serve b =
     (if br_open b
      then snd (bridge_thread (replicate (polls_for (length (br_queue b))) Wake_channel) b)
      else b)"

definition bridge_exec ::
  "('w \<Rightarrow> 'r \<times> 'w) \<Rightarrow> nat \<times> ('w, 'r, 'v) bridge \<Rightarrow>
    (bridge_error + 'r) option \<times> (nat \<times> ('w, 'r, 'v) bridge)"
where
  "bridge_exec f = (\<lambda>(i, b).
     case run_start i f b of
       (Inl e, b) \<Rightarrow> (Some (Inl e), (Suc i, b))
     | (Inr _, b) \<Rightarrow> let b = serve b in (run_await i b, (Suc i, b)))"

definition quiescent :: "nat \<times> ('w, 'r, 'v) bridge \<Rightarrow> bool" where
  "quiescent = (\<lambda>(i, b). br_batch b = [] \<and> br_queue b = [] \<and> (\<forall>j\<ge>i. br_oneshots b j = Unused))"

lemma bridge_exec_open:
  assumes "quiescent (i, b)" and "br_open b"
  shows "bridge_exec f (i, b) =
    (Some (Inr (fst (f (br_world b)))),
     (Suc i, b\<lparr>br_world := snd (f (br_world b)),
               br_oneshots := (br_oneshots b)(i := Filled (fst (f (br_world b))))\<rparr>))"
proof -
  let ?b = "b\<lparr>br_oneshots := (br_oneshots b)(i := Pending), br_queue := [Run_fn i f]\<rparr>"
  have start: "run_start i f b = (Inr (), ?b)"
    using assms by (simp add: quiescent_def run_start_def send_def)
  have "br_batch ?b = []" using assms by (simp add: quiescent_def)
  from thread_serves [OF this] assms have
    "serve ?b = b\<lparr>br_world := snd (f (br_world b)),
        br_oneshots := (br_oneshots b)(i := Filled (fst (f (br_world b))))\<rparr>"
    by (simp add: serve_def quiescent_def split: prod.split)
  then show ?thesis
    by (simp add: bridge_exec_def start run_await_def Let_def)
qed

lemma bridge_exec_closed:
  assumes "\<not> br_open b"
  shows "bridge_exec f (i, b) =
    (Some (Inl Shutdown), (Suc i, b\<lparr>br_oneshots := (br_oneshots b)(i := Tx_gone)\<rparr>))"
  using assms by (simp add: bridge_exec_def run_start_def send_def)

interpretation impl: ruby_executor bridge_exec "\<lambda>(i, b). br_world b" "\<lambda>(i, b). br_open b" quiescent
proof
  fix s :: "nat \<times> ('w, 'r, 'v) bridge" and f :: "'w \<Rightarrow> 'r \<times> 'w"
  obtain i b where s: "s = (i, b)" by (cases s)
  assume ok: "quiescent s"
  show "quiescent (snd (bridge_exec f s))"
    using ok unfolding s
    by (cases "br_open b") (simp_all add: bridge_exec_open bridge_exec_closed, simp_all add: quiescent_def)
  show "(\<lambda>(i, b). br_open b) (snd (bridge_exec f s)) = (\<lambda>(i, b). br_open b) s"
    using ok unfolding s by (cases "br_open b") (simp_all add: bridge_exec_open bridge_exec_closed)
  show "fst (bridge_exec f s) = Some (Inr (fst (f ((\<lambda>(i, b). br_world b) s))))"
    if "(\<lambda>(i, b). br_open b) s"
    using ok that unfolding s by (simp add: bridge_exec_open)
  show "(\<lambda>(i, b). br_world b) (snd (bridge_exec f s)) = snd (f ((\<lambda>(i, b). br_world b) s))"
    if "(\<lambda>(i, b). br_open b) s"
    using ok that unfolding s by (simp add: bridge_exec_open)
  show "fst (bridge_exec f s) = Some (Inl Shutdown)" if "\<not> (\<lambda>(i, b). br_open b) s"
    using ok that unfolding s by (simp add: bridge_exec_closed)
  show "(\<lambda>(i, b). br_world b) (snd (bridge_exec f s)) = (\<lambda>(i, b). br_world b) s"
    if "\<not> (\<lambda>(i, b). br_open b) s"
    using ok that unfolding s by (simp add: bridge_exec_closed)
qed

subsection \<open>A sample run\<close>

text \<open>
  One closure that reads and increments a counter, accepted, taken and run; the hypotheses
  of the properties below hold along it.
\<close>

definition sample_fn :: "nat \<Rightarrow> nat \<times> nat" where
  "sample_fn w = (w, Suc w)"

definition sample_sent :: "(nat, nat, nat) bridge" where
  "sample_sent = snd (run_start 0 sample_fn (bridge_new 7))"

definition sample_taken :: "(nat, nat, nat) bridge" where
  "sample_taken = snd (take_batch Wake_channel sample_sent)"

definition sample_done :: "(nat, nat, nat) bridge" where
  "sample_done = exec_next sample_taken"

definition sample_events :: "(nat, nat, nat) bridge_event list" where
  "sample_events = [Accepted (Run_fn 0 sample_fn), Tau, Executed (Run_fn 0 sample_fn)]"

lemmas sample_defs = sample_sent_def sample_taken_def sample_done_def sample_events_def
  sample_fn_def run_start_def send_def bridge_new_def take_batch_def exec_next_def

lemma sample_run: "bridge_run (bridge_new 7) sample_events sample_done"
proof -
  have "bridge_run (bridge_new 7) [] (bridge_new 7 :: (nat, nat, nat) bridge)"
    by (rule run_nil)
  moreover have "bridge_step (bridge_new 7) (Accepted (Run_fn 0 sample_fn)) sample_sent"
    unfolding sample_sent_def by (rule run_accepted) (simp_all add: bridge_new_def)
  ultimately have "bridge_run (bridge_new 7) ([] @ [Accepted (Run_fn 0 sample_fn)]) sample_sent"
    by (rule run_snoc)
  moreover have "bridge_step sample_sent Tau sample_taken"
    unfolding sample_taken_def by (rule batch_taken) (simp_all add: sample_defs)
  ultimately have
    "bridge_run (bridge_new 7) (([] @ [Accepted (Run_fn 0 sample_fn)]) @ [Tau]) sample_taken"
    by (rule run_snoc)
  moreover have "bridge_step sample_taken (Executed (Run_fn 0 sample_fn)) sample_done"
    unfolding sample_done_def
    by (rule bridge_step.executed [where cs = "[]"]) (simp_all add: sample_defs)
  ultimately have "bridge_run (bridge_new 7)
      ((([] @ [Accepted (Run_fn 0 sample_fn)]) @ [Tau]) @ [Executed (Run_fn 0 sample_fn)]) sample_done"
    by (rule run_snoc)
  then show ?thesis by (simp add: sample_events_def)
qed

text \<open>A call of \<open>wait_for\<close> whose future is done and whose output is in the queue.\<close>

definition sample_env :: "unit rb_env" where
  "sample_env = \<lparr>env_pid = 100, env_const_get = (\<lambda>_. None), env_otel = Inr (),
     env_queue_new = None, env_pop = None\<rparr>"

definition sample_waiting :: "(nat, nat, nat) bridge" where
  "sample_waiting = snd (wait_start sample_env 0 1 (bridge_new 7))"

definition sample_future :: "(nat, nat, nat) bridge" where
  "sample_future = future_done 0 5 sample_waiting"

definition sample_waited :: "(nat, nat, nat) bridge" where
  "sample_waited = exec_next (snd (take_batch Wake_channel sample_future))"

lemmas sample_wait_defs = sample_env_def sample_waiting_def sample_future_def sample_waited_def
  wait_start_def future_done_def sample_defs

lemma sample_wait_run:
  "bridge_run (bridge_new 7) ((([] @ [Tau]) @ [Accepted (Complete_fn 0 1 5)]) @ [Tau] @
     [Executed (Complete_fn 0 1 5)]) sample_waited"
proof -
  have "bridge_run (bridge_new 7) [] (bridge_new 7 :: (nat, nat, nat) bridge)"
    by (rule run_nil)
  moreover have "bridge_step (bridge_new 7) Tau sample_waiting"
    by (rule wait_started [where env = sample_env and q = 0 and t = 1]) (simp_all add: sample_wait_defs)
  ultimately have "bridge_run (bridge_new 7) ([] @ [Tau]) sample_waiting"
    by (rule run_snoc)
  moreover have "bridge_step sample_waiting (Accepted (Complete_fn 0 1 5)) sample_future"
    unfolding sample_future_def by (rule future_sent) (simp_all add: sample_wait_defs)
  ultimately have
    "bridge_run (bridge_new 7) (([] @ [Tau]) @ [Accepted (Complete_fn 0 1 5)]) sample_future"
    by (rule run_snoc)
  moreover have "bridge_step sample_future Tau (snd (take_batch Wake_channel sample_future))"
    by (rule batch_taken) (simp_all add: sample_wait_defs)
  ultimately have "bridge_run (bridge_new 7) ((([] @ [Tau]) @ [Accepted (Complete_fn 0 1 5)]) @ [Tau])
      (snd (take_batch Wake_channel sample_future))"
    by (rule run_snoc)
  moreover have "bridge_step (snd (take_batch Wake_channel sample_future))
      (Executed (Complete_fn 0 1 5)) sample_waited"
    unfolding sample_waited_def
    by (rule bridge_step.executed [where cs = "[]"]) (simp_all add: sample_wait_defs)
  ultimately have "bridge_run (bridge_new 7)
      (((([] @ [Tau]) @ [Accepted (Complete_fn 0 1 5)]) @ [Tau]) @ [Executed (Complete_fn 0 1 5)])
      sample_waited"
    by (rule run_snoc)
  then show ?thesis by simp
qed

lemma sample_wait_pop: "\<exists>b'. wait_pop 0 sample_waited = Some (Inr 5, b')"
  by (simp add: sample_wait_defs wait_pop_def unpack_result_def dyn_take_def Let_def)

text \<open>The two ways the thread ends.\<close>

definition sample_stopped :: "(nat, nat, nat) bridge" where
  "sample_stopped = (bridge_new 7)\<lparr>br_senders := 0, br_open := False\<rparr>"

lemma sample_stop_run: "bridge_run (bridge_new 7) (([] @ [Tau]) @ [Tau]) sample_stopped"
proof -
  have "bridge_step (bridge_new 7 :: (nat, nat, nat) bridge) Tau
      ((bridge_new 7)\<lparr>br_senders := br_senders (bridge_new 7 :: (nat, nat, nat) bridge) - 1\<rparr>)"
    by (rule sender_dropped) (simp add: bridge_new_def)
  then have "bridge_run (bridge_new 7) ([] @ [Tau]) ((bridge_new 7 :: (nat, nat, nat) bridge)
      \<lparr>br_senders := br_senders (bridge_new 7 :: (nat, nat, nat) bridge) - 1\<rparr>)"
    by (rule run_snoc [OF run_nil])
  then have "bridge_run (bridge_new 7) ([] @ [Tau]) ((bridge_new 7 :: (nat, nat, nat) bridge)
      \<lparr>br_senders := 0\<rparr>)"
    by (simp add: bridge_new_def)
  moreover have "bridge_step ((bridge_new 7 :: (nat, nat, nat) bridge)\<lparr>br_senders := 0\<rparr>) Tau
      ((bridge_new 7)\<lparr>br_senders := 0\<rparr>\<lparr>br_open := False\<rparr>)"
    by (rule thread_stopped) (simp_all add: bridge_new_def)
  ultimately have "bridge_run (bridge_new 7) (([] @ [Tau]) @ [Tau])
      ((bridge_new 7 :: (nat, nat, nat) bridge)\<lparr>br_senders := 0\<rparr>\<lparr>br_open := False\<rparr>)"
    by (rule run_snoc)
  then show ?thesis by (simp add: sample_stopped_def)
qed

lemma sample_kill_run:
  "bridge_run (bridge_new 7) ([] @ [Accepted (Run_fn 0 sample_fn)] @ [Killed]) (kill_thread True sample_sent)"
proof -
  have "bridge_step (bridge_new 7) (Accepted (Run_fn 0 sample_fn)) sample_sent"
    unfolding sample_sent_def by (rule run_accepted) (simp_all add: bridge_new_def)
  then have "bridge_run (bridge_new 7) ([] @ [Accepted (Run_fn 0 sample_fn)]) sample_sent"
    by (rule run_snoc [OF run_nil])
  moreover have "bridge_step sample_sent Killed (kill_thread True sample_sent)"
    by (rule thread_killed) (simp add: sample_defs)
  ultimately show ?thesis using run_snoc by fastforce
qed

text \<open>A boxed value dropped on a foreign thread.\<close>

definition sample_dropped :: "(nat, nat, nat) bridge" where
  "sample_dropped = value_drop False 0 (value_new 0 (bridge_new 7))"

lemma sample_dropped_box: "br_boxes sample_dropped 0 = Box_deferred" "br_open sample_dropped"
  by (simp_all add: sample_dropped_def value_drop_def value_new_def send_def bridge_new_def)

lemma sample_drop_run:
  "bridge_run (bridge_new 7) ([] @ [Tau] @ [Accepted (Release_fn 0)]) sample_dropped"
proof -
  have "bridge_step (bridge_new 7 :: (nat, nat, nat) bridge) Tau (value_new 0 (bridge_new 7))"
    by (rule value_created) (simp_all add: bridge_new_def)
  then have "bridge_run (bridge_new 7) ([] @ [Tau]) (value_new 0 (bridge_new 7 :: (nat, nat, nat) bridge))"
    by (rule run_snoc [OF run_nil])
  moreover have "bridge_step (value_new 0 (bridge_new 7)) (Accepted (Release_fn 0)) sample_dropped"
    unfolding sample_dropped_def
    by (rule value_dropped_away) (simp_all add: value_new_def bridge_new_def)
  ultimately show ?thesis using run_snoc by fastforce
qed

subsection \<open>Properties\<close>

text \<open>
  C1: Whatever threads send, cancel and drop in between, the Ruby thread runs the closures in
  the order the channel accepted them, each at most once; what was accepted and has not run
  is still waiting, in order, unless the process killed the thread. A batch never holds more
  than \<open>POLL_BATCH_SIZE\<close> (16) closures.
\<close>

theorem bridge_fifo:
  assumes "bridge_run (bridge_new w) es b"
  shows "\<exists>lost. accepted es = executed es @ br_batch b @ br_queue b @ lost \<and>
    (Killed \<notin> set es \<longrightarrow> lost = []) \<and> length (br_batch b) \<le> 16"
  using fifo_inv_run [OF assms] by (auto simp: fifo_inv_def pending_def POLL_BATCH_SIZE_def)

theorem bridge_fifo_witness:
  "executed sample_events @ br_batch sample_done @ br_queue sample_done = accepted sample_events \<and>
     length (br_batch sample_done) \<le> 16"
  using bridge_fifo [OF sample_run] by (auto simp: sample_events_def)

text \<open>
  The Ruby heap is always the one that running a prefix of the accepted closures one by
  one, in order, would have left: batching and concurrency are not observable.
\<close>

theorem bridge_heap_sequential:
  assumes "bridge_run (bridge_new w) es b"
  shows "\<exists>n. executed es = take n (accepted es) \<and>
    br_world b = fold world_effect (take n (accepted es)) w"
proof -
  obtain rest where acc: "accepted es = executed es @ rest"
    using fifo_inv_run [OF assms] by (auto simp: fifo_inv_def)
  have "br_world b = fold world_effect (executed es) w"
    using world_run [OF assms] by (simp add: bridge_new_def)
  with acc show ?thesis by (intro exI [of _ "length (executed es)"]) simp
qed

theorem bridge_heap_sequential_witness:
  "\<exists>n. executed sample_events = take n (accepted sample_events) \<and>
    br_world sample_done = fold world_effect (take n (accepted sample_events)) 7"
  by (rule bridge_heap_sequential [OF sample_run])

text \<open>
  When \<open>run\<close> returns a value, the function it was given was accepted exactly once, and
  the value is what that function returns on the heap left by the closures accepted before it.
\<close>

theorem run_result_at_its_turn:
  assumes "bridge_run (bridge_new w) es b" and "run_await i b = Some (Inr r)"
  shows "\<exists>pre f post. accepted es = pre @ Run_fn i f # post \<and>
    r = fst (f (fold world_effect pre w)) \<and> i \<notin> set (run_ids (pre @ post))"
proof -
  have inv: "oneshot_inv w es b" by (rule oneshot_inv_run) (rule assms(1))
  have "br_oneshots b i = Filled r"
    using assms(2) by (auto simp: run_await_def split: oneshot.splits)
  with inv have "turn_of w (executed es) i r" by (simp add: oneshot_inv_def)
  then obtain pre f post where ex: "executed es = pre @ Run_fn i f # post"
    and r: "r = fst (f (fold world_effect pre w))"
    by (auto simp: turn_of_def)
  obtain rest where "accepted es = executed es @ rest"
    using fifo_inv_run [OF assms(1)] by (auto simp: fifo_inv_def)
  with ex have acc: "accepted es = pre @ Run_fn i f # (post @ rest)" by simp
  moreover have "distinct (run_ids (accepted es))" using inv by (simp add: oneshot_inv_def)
  ultimately have "i \<notin> set (run_ids (pre @ (post @ rest)))" by auto
  with acc r show ?thesis by blast
qed

theorem run_result_at_its_turn_witness:
  "\<exists>pre f post. accepted sample_events = pre @ Run_fn 0 f # post \<and>
    7 = fst (f (fold world_effect pre 7)) \<and> 0 \<notin> set (run_ids (pre @ post))"
  by (rule run_result_at_its_turn [OF sample_run]) (simp add: sample_defs run_await_def)

text \<open>
  A Ruby thread that stops because no sender is left has run everything: nothing accepted
  is lost and no \<open>run\<close> is left waiting.
\<close>

theorem graceful_stop_complete:
  assumes "bridge_run (bridge_new w) es b" and "\<not> br_open b" and "Killed \<notin> set es"
  shows "executed es = accepted es \<and> (\<forall>i. br_oneshots b i \<noteq> Pending)"
  using fifo_inv_run [OF assms(1)] oneshot_inv_run [OF assms(1)] assms(2,3)
  by (auto simp: fifo_inv_def oneshot_inv_def)

theorem graceful_stop_complete_witness:
  "executed (([] @ [Tau]) @ [Tau] :: (nat, nat, nat) bridge_event list) =
     accepted (([] @ [Tau]) @ [Tau]) \<and> (\<forall>i. br_oneshots sample_stopped i \<noteq> Pending)"
  by (rule graceful_stop_complete [OF sample_stop_run]) (simp_all add: sample_stopped_def)

text \<open>
  When the process kills the thread, a \<open>run\<close> still awaiting its result is not left
  hanging: it sees its value, or \<open>Shutdown\<close>.
\<close>

theorem run_settles_when_gone:
  assumes "bridge_run (bridge_new w) es b" and "\<not> br_open b"
    and "br_oneshots b i \<noteq> Unused" and "br_oneshots b i \<noteq> Rx_gone"
  shows "run_await i b = Some (Inl Shutdown) \<or> (\<exists>r. run_await i b = Some (Inr r))"
  using fifo_inv_run [OF assms(1)] oneshot_inv_run [OF assms(1)] assms(2-4)
  by (cases "br_oneshots b i") (auto simp: fifo_inv_def oneshot_inv_def run_await_def)

theorem run_settles_when_gone_witness:
  "run_await 0 (kill_thread True sample_sent) = Some (Inl Shutdown) \<or>
     (\<exists>r. run_await 0 (kill_thread True sample_sent) = Some (Inr r))"
  by (rule run_settles_when_gone [OF sample_kill_run])
     (simp_all add: kill_thread_def discard_def sample_defs)

text \<open>
  C15: \<open>wait_for\<close> returns its own future's output: the errors \<open>result already taken\<close> and
  \<open>failed to downcast result\<close> cannot occur, however many waits are under way.
\<close>

theorem wait_for_returns_output:
  assumes "bridge_run (bridge_new w) es b" and "wait_pop q b = Some (r, b')"
  shows "\<exists>t v. br_waits b q = Fut_sent t v \<and> r = Inr v"
  by (rule wait_inv_pop(2) [OF wait_inv_run [OF assms(1)] assms(2)])

theorem wait_for_returns_output_witness:
  "\<exists>t v. br_waits sample_waited 0 = Fut_sent t v \<and> (Inr 5 :: rb_error + nat) = Inr v"
proof -
  obtain b' where "wait_pop 0 sample_waited = Some (Inr 5, b')" using sample_wait_pop by blast
  then show ?thesis by (rule wait_for_returns_output [OF sample_wait_run])
qed

text \<open>
  C16: Serving a channel of any length takes \<open>polls_for\<close> of it (its length divided by 16,
  rounded up) polls, after which the channel is empty, the thread still runs, and the state
  is the one that executing the closures one after the other gives.
\<close>

theorem thread_serves_channel:
  assumes "br_batch b = []"
  shows "bridge_thread (replicate (polls_for (length (br_queue b))) Wake_channel) b =
    (False, (fold execute (br_queue b) b)\<lparr>br_queue := []\<rparr>)"
  by (rule thread_serves) (rule assms)

theorem thread_serves_channel_witness:
  "bridge_thread (replicate (polls_for (length (br_queue sample_sent))) Wake_channel) sample_sent =
    (False, (fold execute (br_queue sample_sent) sample_sent)\<lparr>br_queue := []\<rparr>)"
  by (rule thread_serves_channel) (simp add: sample_defs)

text \<open>
  C30: A Ruby value dropped on a foreign thread is unregistered on the Ruby thread, exactly
  once, or leaked when the bridge is gone; while the bridge is up no value leaks, and a value
  whose drop was deferred has its closure in the channel.
\<close>

theorem boxed_value_cleanup:
  assumes "bridge_run (bridge_new w) es b"
  shows "distinct (release_ids (executed es)) \<and>
    (\<forall>k\<in>set (release_ids (executed es)). br_boxes b k = Box_unregistered) \<and>
    (\<forall>k. br_boxes b k = Box_leaked \<longrightarrow> \<not> br_open b) \<and>
    (\<forall>k. br_boxes b k = Box_deferred \<longrightarrow> br_open b \<and> k \<in> set (release_ids (pending b)))"
  using box_inv_run [OF assms] fifo_inv_run [OF assms] by (auto simp: box_inv_def fifo_inv_def)

theorem boxed_value_cleanup_witness:
  "br_boxes sample_dropped 0 \<noteq> Box_leaked \<and> 0 \<in> set (release_ids (pending sample_dropped))"
  using boxed_value_cleanup [OF sample_drop_run] sample_dropped_box by auto

text \<open>
  C2: The bridge refines the sequential executor: a series of \<open>run\<close> calls through the
  channel, the oneshots and the polling thread leaves the Ruby heap that applying the
  functions directly leaves, and leaves it alone when the bridge is closed.
\<close>

theorem bridge_refines_executor:
  assumes "quiescent (i, b)"
  shows "br_world (snd (fold (\<lambda>f s. snd (bridge_exec f s)) fs (i, b))) =
    snd (fold (\<lambda>f s. snd (bridge_call f s)) fs (br_open b, br_world b))"
  using impl.run_all_heap [OF assms, where fs = fs]
    spec.run_all_heap [where b = "(br_open b, br_world b)" and fs = fs]
  by (simp add: impl.run_all_def spec.run_all_def case_prod_beta split: if_splits)

theorem bridge_refines_executor_witness:
  "br_world (snd (fold (\<lambda>f s. snd (bridge_exec f s)) [sample_fn, sample_fn]
       (0, bridge_new 7 :: (nat, nat, nat) bridge))) =
    snd (fold (\<lambda>f s. snd (bridge_call f s)) [sample_fn, sample_fn]
       (br_open (bridge_new 7 :: (nat, nat, nat) bridge), br_world (bridge_new 7 :: (nat, nat, nat) bridge)))"
  by (rule bridge_refines_executor) (simp add: quiescent_def bridge_new_def)

end
