(* ===== verification/Result_Channel.thy ===== *)
theory Result_Channel
  imports Bridge
begin

text \<open>
  scheduler/result.rs: the one-shot channel that carries a task's result from the Ruby
  callback to the Rust task awaiting it, and the classification of failures.

  What the code asks of a Ruby object (three method calls, and serde_magnus's conversion to
  JSON) is the record \<open>callee\<close>: any of them may raise.
\<close>

datatype processing_error =
    Transient string
  | Permanent string
  | Closed

text \<open>The categories of the Prosody core that the extension answers with.\<close>

datatype error_category = Category_transient | Category_permanent

fun classify_processing :: "processing_error \<Rightarrow> error_category" where
  "classify_processing (Transient _) = Category_transient"
| "classify_processing (Permanent _) = Category_permanent"
| "classify_processing Closed = Category_transient"

record 'j callee =
  call_permanent :: "rvalue \<Rightarrow> rb_error + rvalue" \<comment> \<open>\<open>permanent?\<close>\<close>
  call_full_message :: "rvalue \<Rightarrow> rb_error + string" \<comment> \<open>\<open>full_message(highlight: false)\<close>\<close>
  call_inspect :: "rvalue \<Rightarrow> rb_error + string"
  call_to_string :: "rvalue \<Rightarrow> string" \<comment> \<open>magnus' \<open>Display\<close>, which does not fail\<close>
  call_deserialize :: "rvalue \<Rightarrow> string + 'j"

subsection \<open>The channel\<close>

record 'j result_channel =
  ch_taken :: bool \<comment> \<open>the \<open>AtomicTake\<close> has been emptied\<close>
  ch_slot :: "(processing_error + 'j) oneshot"

definition result_channel_new :: "'j result_channel" where
  "result_channel_new = \<lparr>ch_taken = False, ch_slot = Pending\<rparr>"

text \<open>\<open>oneshot::Sender::send\<close>: whether the receiver was still there, and the slot after.\<close>

definition oneshot_send :: "'r \<Rightarrow> 'r oneshot \<Rightarrow> bool \<times> 'r oneshot" where
  "oneshot_send r slot = (case slot of Pending \<Rightarrow> (True, Filled r) | _ \<Rightarrow> (False, slot))"

text \<open>What a call of the callback reports, by its two arguments.\<close>

definition is_permanent :: "'j callee \<Rightarrow> rvalue \<Rightarrow> bool" where
  "is_permanent m e = (case call_permanent m e of Inl _ \<Rightarrow> False | Inr v \<Rightarrow> truthy v)"

definition error_string :: "'j callee \<Rightarrow> rvalue \<Rightarrow> string" where
  "error_string m e =
     (case call_full_message m e of
        Inr s \<Rightarrow> s
      | Inl _ \<Rightarrow> (case call_inspect m e of Inr s \<Rightarrow> s | Inl _ \<Rightarrow> call_to_string m e))"

definition result_send ::
  "'j callee \<Rightarrow> bool \<Rightarrow> rvalue \<Rightarrow> 'j result_channel \<Rightarrow> bool \<times> 'j result_channel"
where
  "result_send m is_success result ch =
     (if ch_taken ch then (False, ch)
      else let ch = ch\<lparr>ch_taken := True\<rparr> in
        if is_success then
          (case oneshot_send (map_err Transient (call_deserialize m result)) (ch_slot ch) of
             (_, slot) \<Rightarrow> (True, ch\<lparr>ch_slot := slot\<rparr>))
        else
          (let error = (if is_permanent m result then Permanent (error_string m result)
                        else Transient (error_string m result))
           in case oneshot_send (Inl error) (ch_slot ch) of
                (sent, slot) \<Rightarrow> (sent, ch\<lparr>ch_slot := slot\<rparr>)))"

text \<open>\<open>into_proc\<close>: the callback, on its argument list.\<close>

fun callback_call ::
  "'j callee \<Rightarrow> rvalue list \<Rightarrow> 'j result_channel \<Rightarrow> (rb_error + bool) \<times> 'j result_channel"
where
  "callback_call m (is_success # result # rest) ch =
     (case result_send m (truthy is_success) result ch of (sent, ch) \<Rightarrow> (Inr sent, ch))"
| "callback_call m args ch =
     (Inl (argument_error (''Expected two arguments but received '' @ show_nat (length args))), ch)"

text \<open>
  \<open>ResultReceiver::receive\<close>; \<open>None\<close> while there is nothing to see. The sender lives in the
  callback, so the channel closes when Ruby collects an unused callback.
\<close>

definition receive :: "'j result_channel \<Rightarrow> (processing_error + 'j) option" where
  "receive ch =
     (case ch_slot ch of
        Filled r \<Rightarrow> Some r
      | Tx_gone \<Rightarrow> Some (Inl Closed)
      | _ \<Rightarrow> None)"

definition callback_freed :: "'j result_channel \<Rightarrow> 'j result_channel" where
  "callback_freed ch =
     (if ch_taken ch then ch
      else ch\<lparr>ch_taken := True,
              ch_slot := (case ch_slot ch of Pending \<Rightarrow> Tx_gone | slot \<Rightarrow> slot)\<rparr>)"

definition receiver_dropped :: "'j result_channel \<Rightarrow> 'j result_channel" where
  "receiver_dropped ch = ch\<lparr>ch_slot := Rx_gone\<rparr>"

subsection \<open>Histories\<close>

text \<open>What can happen to a channel, in any order; the answers of the callback are collected.\<close>

datatype channel_event = Callback "rvalue list" | Callback_freed | Receiver_dropped

fun channel_step ::
  "'j callee \<Rightarrow> channel_event \<Rightarrow> 'j result_channel \<Rightarrow> (rb_error + bool) list \<times> 'j result_channel"
where
  "channel_step m (Callback args) ch = (case callback_call m args ch of (r, ch) \<Rightarrow> ([r], ch))"
| "channel_step m Callback_freed ch = ([], callback_freed ch)"
| "channel_step m Receiver_dropped ch = ([], receiver_dropped ch)"

fun channel_run ::
  "'j callee \<Rightarrow> channel_event list \<Rightarrow> 'j result_channel \<Rightarrow> (rb_error + bool) list \<times> 'j result_channel"
where
  "channel_run m [] ch = ([], ch)"
| "channel_run m (e # es) ch =
     (case channel_step m e ch of (rs, ch) \<Rightarrow>
        case channel_run m es ch of (rs', ch) \<Rightarrow> (rs @ rs', ch))"

text \<open>The value a callback's two arguments stand for.\<close>

definition task_outcome :: "'j callee \<Rightarrow> bool \<Rightarrow> rvalue \<Rightarrow> processing_error + 'j" where
  "task_outcome m is_success result =
     (if is_success then map_err Transient (call_deserialize m result)
      else Inl ((if is_permanent m result then Permanent else Transient) (error_string m result)))"

lemma result_send_taken [simp]: "ch_taken ch \<Longrightarrow> result_send m s v ch = (False, ch)"
  by (simp add: result_send_def)

lemma result_send_fresh:
  "\<not> ch_taken ch \<Longrightarrow> result_send m s v ch =
     (s \<or> ch_slot ch = Pending,
      ch\<lparr>ch_taken := True,
         ch_slot := (case ch_slot ch of Pending \<Rightarrow> Filled (task_outcome m s v) | slot \<Rightarrow> slot)\<rparr>)"
  by (auto simp: result_send_def oneshot_send_def task_outcome_def Let_def split: oneshot.splits)

lemma callback_call_short:
  "length args < 2 \<Longrightarrow>
     callback_call m args ch =
       (Inl (argument_error (''Expected two arguments but received '' @ show_nat (length args))), ch)"
  by (cases "(m, args, ch)" rule: callback_call.cases) auto

lemma channel_run_append:
  "channel_run m (es @ fs) ch =
     (case channel_run m es ch of (rs, ch) \<Rightarrow>
        case channel_run m fs ch of (rs', ch) \<Rightarrow> (rs @ rs', ch))"
  by (induction es arbitrary: ch) (auto split: prod.splits)

text \<open>Once taken, a channel only reacts to its receiver going away.\<close>

lemma channel_taken_step:
  "ch_taken ch \<Longrightarrow> channel_step m e ch = (rs, ch') \<Longrightarrow>
     ch_taken ch' \<and> Inr True \<notin> set rs \<and> (e \<noteq> Receiver_dropped \<longrightarrow> ch' = ch)"
  by (cases e; (cases "case e of Callback a \<Rightarrow> a | _ \<Rightarrow> []" rule: remdups_adj.cases)?)
     (auto simp: callback_freed_def receiver_dropped_def split: prod.splits)

lemma channel_taken_run:
  "ch_taken ch \<Longrightarrow> channel_run m es ch = (rs, ch') \<Longrightarrow>
     ch_taken ch' \<and> Inr True \<notin> set rs \<and> (Receiver_dropped \<notin> set es \<longrightarrow> ch' = ch)"
proof (induction es arbitrary: ch rs)
  case Nil
  then show ?case by simp
next
  case (Cons e es)
  obtain r1 c1 where e: "channel_step m e ch = (r1, c1)" by (cases "channel_step m e ch")
  obtain r2 where es: "channel_run m es c1 = (r2, ch')" "rs = r1 @ r2"
    using Cons.prems(2) e by (auto split: prod.splits)
  show ?case
    using channel_taken_step [OF Cons.prems(1) e] Cons.IH [of c1 r2] es by auto
qed

definition malformed :: "channel_event \<Rightarrow> bool" where
  "malformed e = (case e of Callback args \<Rightarrow> length args < 2 | _ \<Rightarrow> False)"

lemma malformed_run:
  "\<forall>e\<in>set es. malformed e \<Longrightarrow> snd (channel_run m es ch) = ch \<and> Inr True \<notin> set (fst (channel_run m es ch))"
proof (induction es)
  case Nil
  then show ?case by simp
next
  case (Cons e es)
  then obtain args where "e = Callback args" "length args < 2"
    by (auto simp: malformed_def split: channel_event.splits)
  with Cons show ?case by (cases "channel_run m es ch") (auto simp: callback_call_short)
qed

lemma one_true_step:
  "channel_step m e ch = (rs, ch') \<Longrightarrow> length (filter ((=) (Inr True)) rs) \<le> 1 \<and>
     (Inr True \<in> set rs \<longrightarrow> ch_taken ch')"
proof (cases e)
  case (Callback args)
  assume *: "channel_step m e ch = (rs, ch')"
  show ?thesis
  proof (cases "length args < 2")
    case True
    with * Callback show ?thesis by (auto simp: callback_call_short)
  next
    case False
    then obtain s v rest where "args = s # v # rest"
      by (metis One_nat_def Suc_1 Suc_le_eq Suc_le_length_iff linorder_not_less)
    with * Callback show ?thesis
      by (cases "ch_taken ch") (auto simp: result_send_fresh)
  qed
qed (auto simp: callback_freed_def)

lemma one_true_run:
  "length (filter ((=) (Inr True)) (fst (channel_run m es ch))) \<le> 1"
proof (induction es arbitrary: ch)
  case Nil
  then show ?case by simp
next
  case (Cons e es)
  obtain r1 c1 where e: "channel_step m e ch = (r1, c1)" by (cases "channel_step m e ch")
  obtain r2 c2 where es: "channel_run m es c1 = (r2, c2)" by (cases "channel_run m es c1")
  show ?case
  proof (cases "Inr True \<in> set r1")
    case True
    with one_true_step [OF e] have "ch_taken c1" by simp
    from channel_taken_run [OF this es] have "filter ((=) (Inr True)) r2 = []"
      by (auto simp: filter_empty_conv)
    with one_true_step [OF e] e es show ?thesis by simp
  next
    case False
    then have "filter ((=) (Inr True)) r1 = []" by (auto simp: filter_empty_conv)
    with Cons.IH [of c1] e es show ?thesis by simp
  qed
qed

definition sample_callee :: "int callee" where
  "sample_callee = \<lparr>call_permanent = (\<lambda>v. if v = RObject 1 then Inr (RBool True) else Inl (runtime_error ''none'')),
     call_full_message = (\<lambda>_. Inl (runtime_error ''none'')),
     call_inspect = (\<lambda>_. Inr ''inspected''), call_to_string = (\<lambda>_. ''object''),
     call_deserialize = (\<lambda>v. case v of RInteger n \<Rightarrow> Inr n | _ \<Rightarrow> Inl ''no JSON'')\<rparr>"

subsection \<open>Properties\<close>

text \<open>
  C4: Delivery: once the callback has been called with a status and a result, and until the
  receiver goes away, the receiver sees exactly what that first well-formed call reported,
  whatever malformed calls came before and whatever calls or collection come after.
\<close>

theorem result_first_report_wins:
  assumes "\<forall>e\<in>set pre. malformed e" and "Receiver_dropped \<notin> set post"
  shows "receive (snd (channel_run m (pre @ Callback (s # v # rest) # post) result_channel_new)) =
    Some (task_outcome m (truthy s) v)"
proof -
  obtain r1 c1 where pre: "channel_run m pre result_channel_new = (r1, c1)"
    by (cases "channel_run m pre result_channel_new")
  have c1: "c1 = result_channel_new"
    using malformed_run [OF assms(1), of m result_channel_new] pre by simp
  let ?c2 = "\<lparr>ch_taken = True, ch_slot = Filled (task_outcome m (truthy s) v)\<rparr>"
  obtain r3 c3 where post: "channel_run m post ?c2 = (r3, c3)"
    by (cases "channel_run m post ?c2")
  have "c3 = ?c2" using channel_taken_run [OF _ post] assms(2) by simp
  then show ?thesis
    using pre c1
    by (simp add: channel_run_append post result_send_fresh result_channel_new_def receive_def)
qed

theorem result_first_report_wins_witness:
  "receive (snd (channel_run sample_callee
     ([Callback [RNil]] @ Callback (RBool True # RInteger 3 # []) # [Callback [RNil, RObject 1], Callback_freed])
     result_channel_new)) = Some (Inr 3)"
  using result_first_report_wins [of "[Callback [RNil]]" "[Callback [RNil, RObject 1], Callback_freed]"
      sample_callee "RBool True" "RInteger 3" "[]"]
  by (simp add: malformed_def task_outcome_def sample_callee_def)

text \<open>
  In no history does the callback tell Ruby more than once that a result was sent.
\<close>

theorem result_sent_at_most_once:
  "length (filter ((=) (Inr True)) (fst (channel_run m es ch))) \<le> 1"
  by (rule one_true_run)

text \<open>
  The answer of \<open>send\<close>: it is true exactly when nothing was sent before and either the
  task failed with the receiver still there, or the task succeeded. In particular a success
  whose receiver was dropped is discarded and still answered with true.
\<close>

theorem result_send_answer:
  "(fst (result_send m s v ch) \<longleftrightarrow> \<not> ch_taken ch \<and> (s \<or> ch_slot ch = Pending)) \<and>
   fst (result_send m True v (receiver_dropped result_channel_new)) \<and>
   receive (snd (result_send m True v (receiver_dropped result_channel_new))) = None"
  by (cases "ch_taken ch")
     (simp_all add: result_send_fresh receiver_dropped_def result_channel_new_def receive_def)

text \<open>
  A failure is permanent exactly when the task raised an exception that answers
  \<open>permanent?\<close> with a true value: a missing or raising \<open>permanent?\<close>, a result with no JSON
  form and a callback that Ruby threw away are all transient, so the record is retried.
\<close>

theorem failure_permanent_iff:
  "((\<exists>e. receive (snd (result_send m s v result_channel_new)) = Some (Inl e) \<and>
        classify_processing e = Category_permanent) \<longleftrightarrow>
      \<not> s \<and> (\<exists>p. call_permanent m v = Inr p \<and> truthy p)) \<and>
   receive (callback_freed result_channel_new) = Some (Inl Closed) \<and>
   classify_processing Closed = Category_transient"
  by (auto simp: result_send_fresh result_channel_new_def receive_def task_outcome_def
      is_permanent_def callback_freed_def map_err_eq_Inl_iff split: sum.splits)

end
