(* ===== verification/Scheduler.thy ===== *)
theory Scheduler
  imports Bridge_Props Result_Channel "HOL-Library.Multiset"
begin

text \<open>
  The scheduler: scheduler/mod.rs, processor.rs, cancellation.rs and handle.rs on the Rust
  side, and \<open>AsyncTaskProcessor\<close> of lib/prosody/processor.rs, which they drive through the
  bridge. The record \<open>processor\<close> holds the Rust shutdown flag and the Ruby object's state:
  its command queue, its thread and the workers of its barrier.
\<close>

datatype scheduler_error =
    Submit_error string
  | Bridge_error bridge_error
  | Cancel_error string
  | Shutdown_error string

text \<open>A task as it is submitted; its function is a Ruby block that may run once.\<close>

record 'f task =
  task_name :: string
  task_carrier :: "(string \<times> string) list"
  task_event :: "(string \<times> string) list"
  task_function :: 'f

datatype 'f command = Execute nat "'f task" | Shutdown_command

record 'f processor =
  pr_shutdown :: bool \<comment> \<open>\<open>is_shutdown\<close> of \<open>RubyProcessor\<close>\<close>
  pr_commands :: "'f command list" \<comment> \<open>\<open>@command_queue\<close>\<close>
  pr_running :: bool \<comment> \<open>\<open>running?\<close>\<close>
  pr_draining :: bool \<comment> \<open>a shutdown command was popped, the barrier is waited for\<close>
  pr_active :: "(nat \<times> 'f task) list" \<comment> \<open>workers in the barrier, by token\<close>
  pr_signals :: "nat \<Rightarrow> nat" \<comment> \<open>what was pushed into each token's queue\<close>
  pr_next :: nat \<comment> \<open>the next token\<close>

text \<open>\<open>RubyProcessor::new\<close>: each of the four Ruby calls may raise.\<close>

definition processor_new ::
  "rb_error + unit \<Rightarrow> rb_error + unit \<Rightarrow> rb_error + unit \<Rightarrow> rb_error + unit \<Rightarrow> rb_error + 'f processor"
where
  "processor_new logger class_lookup new_instance start =
     res_bind logger (\<lambda>_. res_bind class_lookup (\<lambda>_. res_bind new_instance (\<lambda>_.
       res_map (\<lambda>_. \<lparr>pr_shutdown = False, pr_commands = [], pr_running = True, pr_draining = False,
                      pr_active = [], pr_signals = (\<lambda>_. 0), pr_next = 0\<rparr>) start)))"

definition fresh_processor :: "'f processor" where
  "fresh_processor = \<lparr>pr_shutdown = False, pr_commands = [], pr_running = True, pr_draining = False,
     pr_active = [], pr_signals = (\<lambda>_. 0), pr_next = 0\<rparr>"

lemma processor_new_fresh [simp]:
  "processor_new (Inr ()) (Inr ()) (Inr ()) (Inr ()) = Inr fresh_processor"
  by (simp add: processor_new_def fresh_processor_def)

text \<open>The block that \<open>submit\<close> hands to Ruby: the function runs on the first call only.\<close>

definition block_call :: "('w \<Rightarrow> (rb_error + rvalue) \<times> 'w) option \<Rightarrow> 'w \<Rightarrow>
  (rb_error + rvalue) \<times> ('w \<Rightarrow> (rb_error + rvalue) \<times> 'w) option \<times> 'w"
where
  "block_call maybe_function w =
     (case maybe_function of
        Some f \<Rightarrow> (case f w of (r, w) \<Rightarrow> (r, None, w))
      | None \<Rightarrow> (Inr RNil, None, w))"

text \<open>\<open>AsyncTaskProcessor#submit\<close> and \<open>#stop\<close>\<close>

definition ruby_submit :: "'f task \<Rightarrow> 'f processor \<Rightarrow> nat \<times> 'f processor" where
  "ruby_submit t p = (pr_next p,
     p\<lparr>pr_commands := pr_commands p @ [Execute (pr_next p) t], pr_next := Suc (pr_next p)\<rparr>)"

definition ruby_stop :: "'f processor \<Rightarrow> 'f processor" where
  "ruby_stop p =
     (if pr_running p then p\<lparr>pr_commands := pr_commands p @ [Shutdown_command]\<rparr> else p)"

text \<open>
  \<open>RubyProcessor::submit\<close> and \<open>stop\<close>; \<open>raised\<close> is what the Ruby method call raised, if it
  did (before it took effect).
\<close>

definition submit :: "rb_error option \<Rightarrow> 'f task \<Rightarrow> 'f processor \<Rightarrow> (rb_error + nat) \<times> 'f processor"
where
  "submit raised t p =
     (if pr_shutdown p then (Inl (runtime_error ''Processor is shutting down''), p)
      else case raised of
             Some e \<Rightarrow> (Inl e, p)
           | None \<Rightarrow> (case ruby_submit t p of (token, p) \<Rightarrow> (Inr token, p)))"

definition stop :: "rb_error option \<Rightarrow> 'f processor \<Rightarrow> (rb_error + unit) \<times> 'f processor" where
  "stop raised p =
     (if pr_shutdown p then (Inr (), p)
      else let p = p\<lparr>pr_shutdown := True\<rparr>
           in case raised of Some e \<Rightarrow> (Inl e, p) | None \<Rightarrow> (Inr (), ruby_stop p))"

text \<open>\<open>CancellationToken#cancel\<close>\<close>

definition ruby_cancel ::
  "rb_error option \<Rightarrow> nat \<Rightarrow> 'f processor \<Rightarrow> (rb_error + unit) \<times> 'f processor"
where
  "ruby_cancel raised token p =
     (case raised of
        Some e \<Rightarrow> (Inl e, p)
      | None \<Rightarrow> (Inr (), p\<lparr>pr_signals := (pr_signals p)(token := Suc (pr_signals p token))\<rparr>))"

subsection \<open>Through the bridge\<close>

text \<open>
  The scheduler's operations run their Ruby part with \<open>Bridge::run\<close> and flatten the two
  levels of errors with \<open>?\<close> (a bridge error becomes \<open>SchedulerError::Bridge\<close>). The first
  argument is the executor; \<open>None\<close> is a \<open>run\<close> still awaited.
\<close>

definition flat_run ::
  "(('w \<Rightarrow> (scheduler_error + 'a) \<times> 'w) \<Rightarrow> 'b \<Rightarrow> (bridge_error + (scheduler_error + 'a)) option \<times> 'b) \<Rightarrow>
   ('w \<Rightarrow> (scheduler_error + 'a) \<times> 'w) \<Rightarrow> 'b \<Rightarrow> (scheduler_error + 'a) option \<times> 'b"
where
  "flat_run run f b =
     (case run f b of
        (None, b) \<Rightarrow> (None, b)
      | (Some (Inl e), b) \<Rightarrow> (Some (Inl (Bridge_error e)), b)
      | (Some (Inr r), b) \<Rightarrow> (Some r, b))"

text \<open>\<open>Scheduler::schedule\<close>: the token of the handle; \<open>shown\<close> is \<open>Error::to_string\<close>.\<close>

definition schedule where
  "schedule run shown raised t =
     flat_run run (op_map_err (\<lambda>e. Submit_error (shown e)) (submit raised t))"

text \<open>\<open>CancellationToken::cancel\<close>\<close>

definition cancel where
  "cancel run shown raised token =
     flat_run run (op_map_err (\<lambda>e. Cancel_error (shown e)) (ruby_cancel raised token))"

text \<open>\<open>Scheduler::drop\<close>, the spawned task: its error, if any, is logged.\<close>

definition scheduler_drop where
  "scheduler_drop run shown raised =
     flat_run run (op_map_err (\<lambda>e. Shutdown_error (shown e)) (stop raised))"

text \<open>What any executor of the bridge's contract makes of a flattened call.\<close>

locale flat_executor = ruby_executor run heap accepts ok
  for run :: "('w \<Rightarrow> (scheduler_error + 'a) \<times> 'w) \<Rightarrow> 'b \<Rightarrow>
      (bridge_error + (scheduler_error + 'a)) option \<times> 'b"
    and heap :: "'b \<Rightarrow> 'w" and accepts :: "'b \<Rightarrow> bool" and ok :: "'b \<Rightarrow> bool"
begin

lemma flat_up:
  assumes "ok b" and "accepts b"
  shows "fst (flat_run run f b) = Some (fst (f (heap b)))"
    and "heap (snd (flat_run run f b)) = snd (f (heap b))"
  using run_value [OF assms, of f] run_heap [OF assms, of f]
  by (cases "run f b"; simp add: flat_run_def)+

lemma flat_down:
  assumes "ok b" and "\<not> accepts b"
  shows "fst (flat_run run f b) = Some (Inl (Bridge_error Shutdown))"
    and "heap (snd (flat_run run f b)) = heap b"
  using run_refused [OF assms, of f] run_refused_heap [OF assms, of f]
  by (cases "run f b"; simp add: flat_run_def)+

lemma flat_keeps:
  assumes "ok b"
  shows "ok (snd (flat_run run f b))" and "accepts (snd (flat_run run f b)) = accepts b"
proof -
  have "snd (flat_run run f b) = snd (run f b)"
    by (simp add: flat_run_def split: prod.splits option.splits sum.splits)
  then show "ok (snd (flat_run run f b))" and "accepts (snd (flat_run run f b)) = accepts b"
    by (simp_all add: run_ok [OF assms] run_accepts [OF assms])
qed

end

interpretation flat_spec: flat_executor bridge_call snd fst "\<lambda>_. True"
  by unfold_locales

interpretation flat_impl: flat_executor bridge_exec "\<lambda>(i, b). br_world b" "\<lambda>(i, b). br_open b" quiescent
  by unfold_locales

subsection \<open>The processor and its thread, interleaved\<close>

datatype processor_event = Submitted nat | Started nat | Ended nat | Signalled nat | Internal | Crashed

text \<open>
  The thread pops commands, starts a worker for each task, and after a shutdown command
  waits for the workers and ends; an exception in the loop, or one that a worker passes on to
  the wait for the workers, ends it too, and a task that was being started is gone then. The
  Rust side submits, cancels and stops at any time.
\<close>

inductive processor_step :: "'f processor \<Rightarrow> processor_event \<Rightarrow> 'f processor \<Rightarrow> bool" where
  submitted: "submit None t p = (Inr k, p') \<Longrightarrow> processor_step p (Submitted k) p'"
| submit_failed: "submit raised t p = (Inl e, p') \<Longrightarrow> processor_step p Internal p'"
| stop_called: "stop raised p = (r, p') \<Longrightarrow> processor_step p Internal p'"
| signalled: "ruby_cancel None k p = (Inr (), p') \<Longrightarrow> processor_step p (Signalled k) p'"
| started:
    "pr_running p \<Longrightarrow> \<not> pr_draining p \<Longrightarrow> pr_commands p = Execute k t # cs \<Longrightarrow>
      processor_step p (Started k) (p\<lparr>pr_commands := cs, pr_active := pr_active p @ [(k, t)]\<rparr>)"
| ended:
    "pr_running p \<Longrightarrow> pr_active p = ws @ (k, t) # vs \<Longrightarrow>
      processor_step p (Ended k) (p\<lparr>pr_active := ws @ vs\<rparr>)"
| shutdown_popped:
    "pr_running p \<Longrightarrow> \<not> pr_draining p \<Longrightarrow> pr_commands p = Shutdown_command # cs \<Longrightarrow>
      processor_step p Internal (p\<lparr>pr_commands := cs, pr_draining := True\<rparr>)"
| thread_ended:
    "pr_running p \<Longrightarrow> pr_draining p \<Longrightarrow> pr_active p = [] \<Longrightarrow>
      processor_step p Internal (p\<lparr>pr_running := False\<rparr>)"
| crashed: "pr_running p \<Longrightarrow> processor_step p Crashed (p\<lparr>pr_running := False\<rparr>)"
| crashed_starting:
    "pr_running p \<Longrightarrow> \<not> pr_draining p \<Longrightarrow> pr_commands p = Execute k t # cs \<Longrightarrow>
      processor_step p Crashed (p\<lparr>pr_commands := cs, pr_running := False\<rparr>)"

inductive processor_run :: "processor_event list \<Rightarrow> 'f processor \<Rightarrow> bool" where
  start: "processor_run [] fresh_processor"
| step: "processor_run es p \<Longrightarrow> processor_step p e p' \<Longrightarrow> processor_run (es @ [e]) p'"

fun submissions :: "processor_event list \<Rightarrow> nat list" where
  "submissions [] = []"
| "submissions (Submitted k # es) = k # submissions es"
| "submissions (_ # es) = submissions es"

fun starts :: "processor_event list \<Rightarrow> nat list" where
  "starts [] = []"
| "starts (Started k # es) = k # starts es"
| "starts (_ # es) = starts es"

fun ends :: "processor_event list \<Rightarrow> nat list" where
  "ends [] = []"
| "ends (Ended k # es) = k # ends es"
| "ends (_ # es) = ends es"

lemma submissions_append [simp]: "submissions (es @ fs) = submissions es @ submissions fs"
  by (induction es rule: submissions.induct) simp_all

lemma starts_append [simp]: "starts (es @ fs) = starts es @ starts fs"
  by (induction es rule: starts.induct) simp_all

lemma ends_append [simp]: "ends (es @ fs) = ends es @ ends fs"
  by (induction es rule: ends.induct) simp_all

fun executes :: "'f command list \<Rightarrow> nat list" where
  "executes [] = []"
| "executes (Execute k t # cs) = k # executes cs"
| "executes (Shutdown_command # cs) = executes cs"

lemma executes_append [simp]: "executes (cs @ ds) = executes cs @ executes ds"
  by (induction cs rule: executes.induct) simp_all

text \<open>
  The queue holds the tasks not started, in order, save the one a crash may have lost; the
  one shutdown command is its last entry, and is gone once the thread drains; after a crash
  nothing moves any more.
\<close>

definition processor_inv :: "processor_event list \<Rightarrow> 'f processor \<Rightarrow> bool" where
  "processor_inv es p \<longleftrightarrow>
     (\<exists>lost. submissions es = starts es @ lost @ executes (pr_commands p) \<and> length lost \<le> 1 \<and>
        (Crashed \<notin> set es \<longrightarrow> lost = [])) \<and>
     (Crashed \<in> set es \<longrightarrow> \<not> pr_running p) \<and>
     distinct (submissions es) \<and> (\<forall>k\<in>set (submissions es). k < pr_next p) \<and>
     mset (starts es) = mset (ends es) + image_mset fst (mset (pr_active p)) \<and>
     (pr_draining p \<longrightarrow> pr_shutdown p \<and> pr_commands p = []) \<and>
     (Shutdown_command \<in> set (pr_commands p) \<longrightarrow>
        pr_shutdown p \<and> (\<exists>cs. pr_commands p = cs @ [Shutdown_command] \<and> Shutdown_command \<notin> set cs)) \<and>
     (\<not> pr_running p \<longrightarrow> Crashed \<in> set es \<or> pr_draining p \<and> pr_active p = [])"

lemmas processor_ops = submit_def ruby_submit_def stop_def ruby_stop_def ruby_cancel_def

lemma executes_only: "Shutdown_command \<notin> set cs \<Longrightarrow> executes cs = [] \<Longrightarrow> cs = []"
  by (cases cs rule: executes.cases) auto

lemma processor_inv_step:
  assumes "processor_inv es p" and "processor_step p e p'"
  shows "processor_inv (es @ [e]) p'"
  using assms(2,1)
proof cases
  case (submitted t k)
  with assms(1) show ?thesis
    by (auto simp: processor_inv_def processor_ops less_Suc_eq split: if_splits)
next
  case (submit_failed raised t e)
  with assms(1) show ?thesis
    by (auto simp: processor_inv_def processor_ops split: if_splits option.splits)
next
  case (stop_called raised r)
  with assms(1) show ?thesis
    by (auto simp: processor_inv_def processor_ops Let_def split: if_splits option.splits)
next
  case (signalled k)
  with assms(1) show ?thesis by (auto simp: processor_inv_def processor_ops)
next
  case (started k t cs)
  with assms(1) show ?thesis by (auto simp: processor_inv_def append_eq_Cons_conv Cons_eq_append_conv)
next
  case (ended ws k t vs)
  with assms(1) show ?thesis by (auto simp: processor_inv_def)
next
  case (shutdown_popped cs)
  with assms(1) show ?thesis by (auto simp: processor_inv_def append_eq_Cons_conv Cons_eq_append_conv)
next
  case thread_ended
  with assms(1) show ?thesis by (auto simp: processor_inv_def)
next
  case crashed
  with assms(1) show ?thesis by (auto simp: processor_inv_def)
next
  case (crashed_starting k t cs)
  with assms(1) show ?thesis
    by (auto simp: processor_inv_def append_eq_Cons_conv Cons_eq_append_conv)
qed

lemma processor_inv_run: "processor_run es p \<Longrightarrow> processor_inv es p"
proof (induction rule: processor_run.induct)
  case start
  show ?case by (simp add: processor_inv_def fresh_processor_def)
next
  case (step es p e p')
  then show ?case using processor_inv_step by blast
qed

fun block_calls :: "nat \<Rightarrow> ('w \<Rightarrow> (rb_error + rvalue) \<times> 'w) option \<Rightarrow> 'w \<Rightarrow>
  (rb_error + rvalue) list \<times> 'w"
where
  "block_calls 0 mf w = ([], w)"
| "block_calls (Suc n) mf w =
     (case block_call mf w of (r, mf, w) \<Rightarrow> case block_calls n mf w of (rs, w) \<Rightarrow> (r # rs, w))"

lemma block_calls_spent: "block_calls n None w = (replicate n (Inr RNil), w)"
  by (induction n) (simp_all add: block_call_def)

subsection \<open>A sample run\<close>

definition sample_task :: "unit task" where
  "sample_task = \<lparr>task_name = ''topic/0:1'', task_carrier = [], task_event = [], task_function = ()\<rparr>"

definition sample_processor :: "unit processor" where
  "sample_processor = fresh_processor\<lparr>pr_next := 1, pr_shutdown := True, pr_draining := True,
     pr_running := False\<rparr>"

definition sample_processor_events :: "processor_event list" where
  "sample_processor_events = [Submitted 0, Internal, Started 0, Internal, Ended 0, Internal]"

lemmas sample_processor_defs = sample_task_def sample_processor_def sample_processor_events_def
  fresh_processor_def processor_ops

lemma sample_processor_run: "processor_run sample_processor_events sample_processor"
proof -
  define p1 where "p1 = snd (submit None sample_task fresh_processor)"
  define p2 where "p2 = snd (stop None p1)"
  define p3 where "p3 = p2\<lparr>pr_commands := [Shutdown_command], pr_active := [(0, sample_task)]\<rparr>"
  define p4 where "p4 = p3\<lparr>pr_commands := [], pr_draining := True\<rparr>"
  define p5 where "p5 = p4\<lparr>pr_active := []\<rparr>"
  note defs = p1_def p2_def p3_def p4_def p5_def sample_processor_defs
  have 0: "processor_run [] (fresh_processor :: unit processor)" by (rule start)
  have 1: "processor_step fresh_processor (Submitted 0) p1"
    by (rule submitted [of sample_task]) (simp add: defs)
  have 2: "processor_step p1 Internal p2"
    by (rule stop_called [of None _ "Inr ()"]) (simp add: defs)
  have 3: "processor_step p2 (Started 0) p3"
    using started [of p2 0 sample_task "[Shutdown_command]"] by (simp add: defs)
  have 4: "processor_step p3 Internal p4"
    using shutdown_popped [of p3 "[]"] by (simp add: defs)
  have 5: "processor_step p4 (Ended 0) p5"
    using ended [of p4 "[]" 0 sample_task "[]"] by (simp add: defs)
  have "p5\<lparr>pr_running := False\<rparr> = sample_processor" by (simp add: defs)
  then have 6: "processor_step p5 Internal sample_processor"
    using thread_ended [of p5] by (simp add: defs)
  from step [OF step [OF step [OF step [OF step [OF step [OF 0 1] 2] 3] 4] 5] 6]
  show ?thesis by (simp add: sample_processor_events_def)
qed

subsection \<open>Properties\<close>

text \<open>
  C11: Graceful stop: when the processor's thread ends without having crashed, every task that
  was ever submitted has been started in order and has ended, exactly once, however the
  submissions, cancellations and stops were interleaved with the thread.
\<close>

theorem processor_drains:
  assumes "processor_run es p" and "\<not> pr_running p" and "Crashed \<notin> set es"
  shows "starts es = submissions es \<and> mset (ends es) = mset (submissions es) \<and>
    distinct (submissions es)"
  using processor_inv_run [OF assms(1)] assms(2,3) by (auto simp: processor_inv_def)

theorem processor_drains_witness:
  "starts sample_processor_events = submissions sample_processor_events \<and>
     mset (ends sample_processor_events) = mset (submissions sample_processor_events) \<and>
     distinct (submissions sample_processor_events)"
  by (rule processor_drains [OF sample_processor_run])
     (simp_all add: sample_processor_defs)

text \<open>
  Tasks start in the order they were submitted, each at most once, even when the thread
  crashes; what has not started is still in the queue, but for at most the one task whose
  start crashed the thread.
\<close>

theorem processor_starts_in_order:
  assumes "processor_run es p"
  shows "\<exists>lost. submissions es = starts es @ lost @ executes (pr_commands p) \<and> length lost \<le> 1 \<and>
    distinct (starts es)"
proof -
  from processor_inv_run [OF assms] obtain lost where
    "submissions es = starts es @ lost @ executes (pr_commands p)" "length lost \<le> 1"
    "distinct (submissions es)"
    by (auto simp: processor_inv_def)
  then show ?thesis by (intro exI [of _ lost]) auto
qed

theorem processor_starts_in_order_witness:
  "\<exists>lost. submissions sample_processor_events =
     starts sample_processor_events @ lost @ executes (pr_commands sample_processor) \<and>
     length lost \<le> 1 \<and> distinct (starts sample_processor_events)"
  by (rule processor_starts_in_order [OF sample_processor_run])

text \<open>
  A thread that crashed starts nothing any more, although \<open>submit\<close> goes on accepting tasks:
  it looks at the Rust shutdown flag only.
\<close>

theorem crashed_processor_inert:
  assumes "processor_run (es @ Crashed # fs) p"
  shows "starts fs = [] \<and> ends fs = [] \<and>
    (\<not> pr_shutdown p \<longrightarrow> fst (submit None t p) = Inr (pr_next p))"
proof -
  have "starts fs = [] \<and> ends fs = []"
    using assms
  proof (induction fs arbitrary: p rule: rev_induct)
    case (snoc f fs)
    from snoc.prems have "processor_run ((es @ Crashed # fs) @ [f]) p" by simp
    then obtain q where q: "processor_run (es @ Crashed # fs) q" and s: "processor_step q f p"
      by cases auto
    from processor_inv_run [OF q] have "\<not> pr_running q" by (auto simp: processor_inv_def)
    with s have "starts [f] = [] \<and> ends [f] = []" by (cases rule: processor_step.cases) auto
    with snoc.IH [OF q] show ?case by simp
  qed simp
  then show ?thesis by (simp add: submit_def ruby_submit_def)
qed

text \<open>
  \<open>stop\<close> is idempotent and final: whatever Ruby's \<open>stop\<close> did the first time, a second
  one succeeds without touching the processor, and every later submission is refused.
\<close>

theorem stop_final:
  "stop raised' (snd (stop raised p)) = (Inr (), snd (stop raised p)) \<and>
   submit raised' t (snd (stop raised p)) =
     (Inl (runtime_error ''Processor is shutting down''), snd (stop raised p))"
  by (simp add: stop_def submit_def ruby_stop_def Let_def split: option.splits)

text \<open>
  Over the real bridge (channel, batches and polling thread), \<open>schedule\<close> does what
  \<open>submit\<close> does to the Ruby processor and returns its token; a refusal by the processor is a
  submit error, a bridge that is gone a bridge error with the processor left alone.
\<close>

theorem schedule_over_bridge:
  assumes "quiescent (i, b)"
  shows "fst (schedule bridge_exec shown raised t (i, b)) = Some
      (if \<not> br_open b then Inl (Bridge_error Shutdown)
       else map_err (\<lambda>e. Submit_error (shown e)) (fst (submit raised t (br_world b)))) \<and>
    br_world (snd (snd (schedule bridge_exec shown raised t (i, b)))) =
      (if br_open b then snd (submit raised t (br_world b)) else br_world b)"
  using flat_impl.flat_up [OF assms] flat_impl.flat_down [OF assms]
  by (simp_all add: schedule_def op_map_err_def case_prod_beta)

theorem schedule_over_bridge_witness:
  "fst (schedule bridge_exec err_msg None sample_task (0, bridge_new fresh_processor :: (unit processor, _, nat) bridge)) =
     Some (Inr 0)"
  using schedule_over_bridge [of 0 "bridge_new fresh_processor :: (unit processor, _, nat) bridge"
      err_msg None sample_task]
  by (simp add: quiescent_def bridge_new_def sample_processor_defs)

text \<open>
  \<open>cancel\<close> signals exactly its own token. Its errors: what Ruby's \<open>cancel\<close> raised is a
  cancel error, but a bridge that is gone is a bridge error, not a cancel error.
\<close>

theorem cancel_over_bridge:
  assumes "quiescent (i, b)"
  shows "cancel bridge_exec shown raised k (i, b) =
    (Some (if \<not> br_open b then Inl (Bridge_error Shutdown)
           else case raised of Some e \<Rightarrow> Inl (Cancel_error (shown e)) | None \<Rightarrow> Inr ()),
     snd (cancel bridge_exec shown raised k (i, b))) \<and>
    pr_signals (br_world (snd (snd (cancel bridge_exec shown raised k (i, b))))) =
      (\<lambda>j. pr_signals (br_world b) j + (if j = k \<and> br_open b \<and> raised = None then 1 else 0))"
  using flat_impl.flat_up [OF assms] flat_impl.flat_down [OF assms]
  by (cases "br_open b"; cases raised)
     (auto simp: cancel_def op_map_err_def ruby_cancel_def case_prod_beta prod_eq_iff)

theorem cancel_over_bridge_witness:
  "fst (cancel bridge_exec err_msg None 3
     (0, bridge_new fresh_processor\<lparr>br_open := False\<rparr> :: (unit processor, _, nat) bridge)) =
     Some (Inl (Bridge_error Shutdown))"
  using cancel_over_bridge [of 0 "bridge_new fresh_processor\<lparr>br_open := False\<rparr> :: (unit processor, _, nat) bridge"
      err_msg None 3]
  by (simp add: quiescent_def bridge_new_def prod_eq_iff)

text \<open>
  The task function runs once: the first call of the block runs it, every later call
  returns \<open>nil\<close> and has no effect.
\<close>

theorem block_runs_once:
  "block_calls (Suc n) (Some f) w = (fst (f w) # replicate n (Inr RNil), snd (f w))"
  by (simp add: block_call_def block_calls_spent split: prod.splits)

end
