(* ===== verification/Logging.thy ===== *)
theory Logging
  imports Scheduler
begin

text \<open>
  logging.rs: tracing events of the Rust side become lines of the Ruby logger. The visitor
  collects an event's fields into one line, a channel hands the line to a task, and the task
  calls the logger's method on the Ruby thread; whatever fails on the way is reported on
  standard error.
\<close>

datatype level = Level_error | Level_warn | Level_info | Level_debug | Level_trace

fun level_method :: "level \<Rightarrow> string" where
  "level_method Level_error = ''error''"
| "level_method Level_warn = ''warn''"
| "level_method Level_info = ''info''"
| "level_method Level_debug = ''debug''"
| "level_method Level_trace = ''debug''"

definition CONCURRENT_LOG_REQUESTS :: nat where
  "CONCURRENT_LOG_REQUESTS = 16"

subsection \<open>The visitor\<close>

record visitor =
  vi_metadata :: string
  vi_message :: "string option"

definition push_kv :: "string \<Rightarrow> string \<Rightarrow> visitor \<Rightarrow> visitor" where
  "push_kv key v vi =
     (if vi_metadata vi = [] then vi\<lparr>vi_metadata := key @ ''='' @ v\<rparr>
      else vi\<lparr>vi_metadata := vi_metadata vi @ '' '' @ key @ ''='' @ v\<rparr>)"

definition visitor_new :: "string option \<Rightarrow> u32 option \<Rightarrow> visitor" where
  "visitor_new module_path line =
     (let vi = \<lparr>vi_metadata = [], vi_message = None\<rparr>;
          vi = (case module_path of None \<Rightarrow> vi | Some m \<Rightarrow> push_kv ''module'' m vi)
      in case line of None \<Rightarrow> vi | Some l \<Rightarrow> push_kv ''line'' (show_nat (unat l)) vi)"

text \<open>
  The values of a field; the texts of floats, errors (\<open>{:#}\<close>) and debug values (\<open>{:?}\<close>) are
  produced by their types' own formatting and come as texts.
\<close>

datatype field_value =
    F_f64 string
  | F_i64 i64
  | F_u64 u64
  | F_i128 int
  | F_u128 nat
  | F_bool bool
  | F_str string
  | F_error string
  | F_debug string

fun show_bool :: "bool \<Rightarrow> string" where
  "show_bool True = ''true''"
| "show_bool False = ''false''"

fun record_field :: "string \<times> field_value \<Rightarrow> visitor \<Rightarrow> visitor" where
  "record_field (name, F_f64 s) vi = push_kv name s vi"
| "record_field (name, F_i64 v) vi = push_kv name (show_int (sint v)) vi"
| "record_field (name, F_u64 v) vi = push_kv name (show_nat (unat v)) vi"
| "record_field (name, F_i128 v) vi = push_kv name (show_int v) vi"
| "record_field (name, F_u128 v) vi = push_kv name (show_nat v) vi"
| "record_field (name, F_bool v) vi = push_kv name (show_bool v) vi"
| "record_field (name, F_str v) vi = push_kv name v vi"
| "record_field (name, F_error s) vi = push_kv name s vi"
| "record_field (name, F_debug m) vi =
     (if name = ''message'' then vi\<lparr>vi_message := Some m\<rparr> else push_kv name m vi)"

definition visitor_text :: "visitor \<Rightarrow> string" where
  "visitor_text vi =
     (case vi_message vi of
        None \<Rightarrow> vi_metadata vi
      | Some message \<Rightarrow> message @ '' '' @ vi_metadata vi)"

subsection \<open>From the event to the logger\<close>

record event =
  ev_is_event :: bool
  ev_level :: level
  ev_module :: "string option"
  ev_line :: "u32 option"
  ev_fields :: "(string \<times> field_value) list"

definition event_text :: "event \<Rightarrow> string" where
  "event_text ev = visitor_text (fold record_field (ev_fields ev) (visitor_new (ev_module ev) (ev_line ev)))"

text \<open>
  What leaves the Rust side is a line in the channel or a report on standard error. The first
  argument is the send error of a channel whose receiver is gone, as its type prints it.
\<close>

definition on_event ::
  "string option \<Rightarrow> event \<Rightarrow> (level \<times> string) list \<times> string list \<Rightarrow> (level \<times> string) list \<times> string list"
where
  "on_event send_error ev = (\<lambda>(channel, reports).
     if \<not> ev_is_event ev then (channel, reports)
     else case send_error of
         None \<Rightarrow> (channel @ [(ev_level ev, event_text ev)], reports)
       | Some e \<Rightarrow>
           (channel, reports @ [''failed to send log message: '' @ e @ ''; message: '' @ event_text ev]))"

text \<open>
  \<open>log_event\<close> over a bridge: the Ruby heap is the list of calls the logger got; \<open>raised\<close> is
  the exception of the logger's method, if any; the texts of the errors are those their types
  print. The result is the list of reports, or nothing while the run is pending.
\<close>

definition call_logger :: "'e option \<Rightarrow> level \<times> string \<Rightarrow> (string \<times> string) list \<Rightarrow> 'e option \<times> (string \<times> string) list"
where
  "call_logger raised ev calls =
     (raised, case raised of None \<Rightarrow> calls @ [(level_method (fst ev), snd ev)] | Some _ \<Rightarrow> calls)"

definition log_report :: "string \<Rightarrow> string" where
  "log_report e = ''failed to log to Ruby: '' @ e"

definition log_event where
  "log_event run shown_bridge shown raised ev b =
     (case run (call_logger raised ev) b of
        (None, b) \<Rightarrow> (None, b)
      | (Some (Inl e), b) \<Rightarrow> (Some [log_report (shown_bridge e)], b)
      | (Some (Inr None), b) \<Rightarrow> (Some [], b)
      | (Some (Inr (Some e)), b) \<Rightarrow> (Some [log_report (shown e)], b))"

text \<open>
  The task of \<open>Logger::new\<close>: at most \<open>CONCURRENT_LOG_REQUESTS\<close> lines are with the bridge at a
  time, and they finish in any order.
\<close>

record log_pump =
  lp_channel :: "(level \<times> string) list"
  lp_active :: "(level \<times> string) list"
  lp_logged :: "(level \<times> string) list"
  lp_failed :: "(level \<times> string) list"
  lp_reports :: "string list"

definition logger_new :: log_pump where
  "logger_new = \<lparr>lp_channel = [], lp_active = [], lp_logged = [], lp_failed = [], lp_reports = []\<rparr>"

inductive log_step :: "log_pump \<Rightarrow> event option \<Rightarrow> log_pump \<Rightarrow> bool" where
  emit: "on_event None ev (lp_channel p, lp_reports p) = (ch, rs) \<Longrightarrow>
     log_step p (Some ev) (p\<lparr>lp_channel := ch, lp_reports := rs\<rparr>)"
| take_line: "lp_channel p = l # ch \<Longrightarrow> length (lp_active p) < CONCURRENT_LOG_REQUESTS \<Longrightarrow>
     log_step p None (p\<lparr>lp_channel := ch, lp_active := lp_active p @ [l]\<rparr>)"
| logged: "lp_active p = xs @ l # ys \<Longrightarrow>
     log_step p None (p\<lparr>lp_active := xs @ ys, lp_logged := lp_logged p @ [l]\<rparr>)"
| failed: "lp_active p = xs @ l # ys \<Longrightarrow>
     log_step p None (p\<lparr>lp_active := xs @ ys, lp_failed := lp_failed p @ [l],
        lp_reports := lp_reports p @ [log_report e]\<rparr>)"

inductive log_run :: "event list \<Rightarrow> log_pump \<Rightarrow> bool" where
  log_start: "log_run [] logger_new"
| log_more: "log_run evs p \<Longrightarrow> log_step p ev q \<Longrightarrow>
     log_run (case ev of None \<Rightarrow> evs | Some e \<Rightarrow> evs @ [e]) q"

definition event_lines :: "event list \<Rightarrow> (level \<times> string) list" where
  "event_lines evs = map (\<lambda>ev. (ev_level ev, event_text ev)) (filter ev_is_event evs)"

subsection \<open>Lines\<close>

definition kv :: "string \<Rightarrow> string \<Rightarrow> string" where
  "kv key v = key @ ''='' @ v"

fun field_items :: "string \<times> field_value \<Rightarrow> string list" where
  "field_items (name, F_f64 s) = [kv name s]"
| "field_items (name, F_i64 v) = [kv name (show_int (sint v))]"
| "field_items (name, F_u64 v) = [kv name (show_nat (unat v))]"
| "field_items (name, F_i128 v) = [kv name (show_int v)]"
| "field_items (name, F_u128 v) = [kv name (show_nat v)]"
| "field_items (name, F_bool v) = [kv name (show_bool v)]"
| "field_items (name, F_str v) = [kv name v]"
| "field_items (name, F_error s) = [kv name s]"
| "field_items (name, F_debug m) = (if name = ''message'' then [] else [kv name m])"

fun field_message :: "string \<times> field_value \<Rightarrow> string option" where
  "field_message (name, F_debug m) = (if name = ''message'' then Some m else None)"
| "field_message _ = None"

definition line_of :: "string list \<Rightarrow> string option \<Rightarrow> visitor \<Rightarrow> bool" where
  "line_of items message vi \<longleftrightarrow> vi_metadata vi = join '' '' items \<and> vi_message vi = message \<and>
     (vi_metadata vi = [] \<longleftrightarrow> items = [])"

lemma line_of_push: "line_of items message vi \<Longrightarrow> line_of (items @ [kv key v]) message (push_kv key v vi)"
  by (cases "items = []") (auto simp: line_of_def push_kv_def kv_def join_snoc)

lemma line_of_same_message:
  "line_of items message vi \<Longrightarrow> line_of items (Some m) (vi\<lparr>vi_message := Some m\<rparr>)"
  by (auto simp: line_of_def)

lemma line_of_field:
  "line_of items message vi \<Longrightarrow>
     line_of (items @ field_items f)
       (case field_message f of None \<Rightarrow> message | Some m \<Rightarrow> Some m) (record_field f vi)"
  by (cases f rule: field_items.cases) (auto simp: line_of_push line_of_same_message)

lemma line_of_fields:
  "line_of items message vi \<Longrightarrow>
     line_of (items @ concat (map field_items fs))
       (fold (\<lambda>f message. case field_message f of None \<Rightarrow> message | Some m \<Rightarrow> Some m) fs message)
       (fold record_field fs vi)"
proof (induction fs arbitrary: items message vi)
  case (Cons f fs)
  from Cons.IH [OF line_of_field [OF Cons.prems, of f]] show ?case by simp
qed simp

definition header_items :: "string option \<Rightarrow> u32 option \<Rightarrow> string list" where
  "header_items module_path line =
     (case module_path of None \<Rightarrow> [] | Some m \<Rightarrow> [kv ''module'' m]) @
     (case line of None \<Rightarrow> [] | Some l \<Rightarrow> [kv ''line'' (show_nat (unat l))])"

lemma line_of_new: "line_of (header_items m l) None (visitor_new m l)"
proof -
  have "line_of [] None \<lparr>vi_metadata = [], vi_message = None\<rparr>" by (simp add: line_of_def)
  then show ?thesis
    using line_of_push [of "[]" None] line_of_push [of "[kv ''module'' x]" None for x]
    by (cases m; cases l) (auto simp: visitor_new_def header_items_def Let_def line_of_push
        dest: line_of_push)
qed

definition log_inv :: "event list \<Rightarrow> log_pump \<Rightarrow> bool" where
  "log_inv evs p \<longleftrightarrow> length (lp_active p) \<le> CONCURRENT_LOG_REQUESTS \<and>
     length (lp_reports p) = length (lp_failed p) \<and>
     mset (event_lines evs) =
       mset (lp_channel p) + mset (lp_active p) + mset (lp_logged p) + mset (lp_failed p)"

lemma log_inv_step:
  assumes "log_step p ev q" and "log_inv evs p"
  shows "log_inv (case ev of None \<Rightarrow> evs | Some e \<Rightarrow> evs @ [e]) q"
  using assms
  by (cases rule: log_step.cases)
     (auto simp: log_inv_def on_event_def event_lines_def CONCURRENT_LOG_REQUESTS_def
       split: if_splits)

lemma log_inv_run: "log_run evs p \<Longrightarrow> log_inv evs p"
proof (induction rule: log_run.induct)
  case log_start
  show ?case by (simp add: log_inv_def logger_new_def event_lines_def)
next
  case (log_more evs p ev q)
  then show ?case by (intro log_inv_step)
qed

subsection \<open>Properties\<close>

text \<open>
  The text of an event is its last \<open>message\<close> field, if it has one, a space, and the
  metadata: module, line and the other fields in the order they were recorded, each as
  \<open>name=value\<close>, separated by single spaces.
\<close>

theorem log_line:
  "event_text ev =
     (case fold (\<lambda>f message. case field_message f of None \<Rightarrow> message | Some m \<Rightarrow> Some m)
             (ev_fields ev) None of
        None \<Rightarrow> ''''
      | Some m \<Rightarrow> m @ '' '') @
     join '' '' (header_items (ev_module ev) (ev_line ev) @ concat (map field_items (ev_fields ev)))"
  using line_of_fields [OF line_of_new [of "ev_module ev" "ev_line ev"], of "ev_fields ev"]
  by (simp add: line_of_def event_text_def visitor_text_def split: option.split)

text \<open>
  No line is lost or logged twice: while the receiver lives, every event that was emitted is
  waiting in the channel, with one of at most sixteen running requests, logged, or has its own
  report, and only one of these.
\<close>

theorem log_lines_accounted:
  assumes "log_run evs p"
  shows "mset (event_lines evs) =
      mset (lp_channel p) + mset (lp_active p) + mset (lp_logged p) + mset (lp_failed p) \<and>
    length (lp_active p) \<le> CONCURRENT_LOG_REQUESTS \<and>
    length (lp_reports p) = length (lp_failed p)"
  using log_inv_run [OF assms] by (simp add: log_inv_def)

definition sample_event :: event where
  "sample_event = \<lparr>ev_is_event = True, ev_level = Level_warn, ev_module = Some ''m'',
     ev_line = Some 7, ev_fields = [(''n'', F_i64 (- 1)), (''message'', F_debug ''hi'')]\<rparr>"

definition sample_pump :: log_pump where
  "sample_pump = logger_new\<lparr>lp_channel := [(Level_warn, ''hi module=m line=7 n=-1'')]\<rparr>"

lemma sample_event_text: "event_text sample_event = ''hi module=m line=7 n=-1''"
  by code_simp

lemma sample_log_run: "log_run [sample_event] sample_pump"
proof -
  have "ev_is_event sample_event" and "ev_level sample_event = Level_warn"
    by (simp_all add: sample_event_def)
  then have "on_event None sample_event (lp_channel logger_new, lp_reports logger_new) =
      (lp_channel sample_pump, [])"
    by (simp add: on_event_def sample_event_text sample_pump_def logger_new_def)
  from emit [OF this] have "log_step logger_new (Some sample_event) sample_pump"
    by (simp add: sample_pump_def logger_new_def)
  from log_more [OF log_start this] show ?thesis by simp
qed

theorem log_lines_accounted_witness:
  "mset (event_lines [sample_event]) =
      mset (lp_channel sample_pump) + mset (lp_active sample_pump) + mset (lp_logged sample_pump) +
        mset (lp_failed sample_pump) \<and>
    length (lp_active sample_pump) \<le> CONCURRENT_LOG_REQUESTS \<and>
    length (lp_reports sample_pump) = length (lp_failed sample_pump)"
  by (rule log_lines_accounted [OF sample_log_run])

text \<open>
  Over the real bridge the logger's method is called once with the line, at the level's
  method; when it raises or the bridge is gone the line is not silently dropped but reported.
\<close>

theorem log_event_over_bridge:
  assumes "quiescent (i, b)"
  shows "fst (log_event bridge_exec shown_bridge shown raised ev (i, b)) = Some
      (if \<not> br_open b then [log_report (shown_bridge Shutdown)]
       else case raised of None \<Rightarrow> [] | Some e \<Rightarrow> [log_report (shown e)]) \<and>
    br_world (snd (snd (log_event bridge_exec shown_bridge shown raised ev (i, b)))) =
      br_world b @
        (if br_open b \<and> raised = None then [(level_method (fst ev), snd ev)] else [])"
  using impl.run_value [OF assms, of "call_logger raised ev"]
    impl.run_heap [OF assms, of "call_logger raised ev"]
    impl.run_refused [OF assms, of "call_logger raised ev"]
    impl.run_refused_heap [OF assms, of "call_logger raised ev"]
  by (cases "br_open b"; cases raised)
     (auto simp: log_event_def call_logger_def split: prod.splits option.splits sum.splits)

theorem log_event_over_bridge_witness:
  "fst (log_event bridge_exec (\<lambda>_. ''gone'') id (None :: string option) (Level_trace, ''x'')
     (0, bridge_new [] :: (_, _, nat) bridge)) = Some []"
  using log_event_over_bridge [of 0 "bridge_new [] :: (_, _, nat) bridge" "\<lambda>_. ''gone''" id
      "None :: string option" "(Level_trace, ''x'')"]
  by (simp add: quiescent_def bridge_new_def)

end
