(* ===== verification/Awaiting.thy ===== *)
theory Awaiting
  imports Bridge_Props
begin

text \<open>
  How the Ruby-facing methods call the Prosody core: \<open>wait_for\<close> of bridge/mod.rs as one
  operation on the core's state, justified on the detailed bridge, and the OpenTelemetry
  context of tracing_util.rs that most methods extract first.
\<close>

text \<open>
  \<open>wait_for\<close> on a live bridge. The future is spawned, so an interrupted \<open>pop\<close> does not stop
  it: the core still sees its effects.
\<close>

definition wait_for :: "'ctx rb_env \<Rightarrow> ('s \<Rightarrow> 'a \<times> 's) \<Rightarrow> ('s, rb_error, 'a) op" where
  "wait_for env fut = (\<lambda>s.
     case env_queue_new env of
       Some e \<Rightarrow> (Inl e, s)
     | None \<Rightarrow> (case fut s of (out, s) \<Rightarrow>
         (case env_pop env of Some e \<Rightarrow> (Inl e, s) | None \<Rightarrow> (Inr out, s))))"

definition calm :: "'ctx rb_env \<Rightarrow> bool" where
  "calm env \<longleftrightarrow> env_queue_new env = None \<and> env_pop env = None"

lemma wait_for_calm [simp]:
  "calm env \<Longrightarrow> wait_for env fut s = (Inr (fst (fut s)), snd (fut s))"
  by (simp add: wait_for_def calm_def split: prod.splits)

lemma wait_for_Inr_iff:
  "wait_for env fut s = (Inr v, t) \<longleftrightarrow> calm env \<and> fut s = (v, t)"
  by (auto simp: wait_for_def calm_def split: prod.splits option.splits)

lemma wait_for_state:
  "snd (wait_for env fut s) = (if env_queue_new env = None then snd (fut s) else s)"
  by (auto simp: wait_for_def split: prod.splits option.splits)

text \<open>
  Awaiting a fallible call of the core and turning its error into a Ruby exception
  (\<open>wait_for(..)?.map_err(..)\<close>).
\<close>

definition await_core ::
  "'ctx rb_env \<Rightarrow> ('e \<Rightarrow> rb_error) \<Rightarrow> ('s, 'e, 'a) op \<Rightarrow> ('s, rb_error, 'a) op"
where
  "await_core env f m = op_bind (wait_for env m) (\<lambda>r. op_lift (map_err f r))"

lemma await_core_calm [simp]:
  "calm env \<Longrightarrow> await_core env f m s = (map_err f (fst (m s)), snd (m s))"
  by (simp add: await_core_def op_bind_def)

lemma await_core_Inr_iff:
  "await_core env f m s = (Inr v, t) \<longleftrightarrow> calm env \<and> m s = (Inr v, t)"
  by (auto simp: await_core_def op_bind_eq_Inr_iff wait_for_Inr_iff)

lemma await_core_state:
  "snd (await_core env f m s) = (if env_queue_new env = None then snd (m s) else s)"
  by (auto simp: await_core_def op_bind_def wait_for_def split: prod.splits option.splits)

subsection \<open>The OpenTelemetry context\<close>

text \<open>
  \<open>extract_opentelemetry_context\<close>: three Ruby calls and a conversion that may raise, then
  the propagator (a library) reads the carrier.
\<close>

definition extract_opentelemetry_context ::
  "rb_error + unit \<Rightarrow> rb_error + unit \<Rightarrow> rb_error + unit \<Rightarrow> rb_error + (string \<times> string) list \<Rightarrow>
    ((string \<times> string) list \<Rightarrow> 'ctx) \<Rightarrow> rb_error + 'ctx"
where
  "extract_opentelemetry_context const_get propagation inject carrier extract =
     res_bind const_get (\<lambda>_. res_bind propagation (\<lambda>_. res_bind inject (\<lambda>_.
       res_map extract carrier)))"

text \<open>Extract the context, then await the call: the shape of every traced method.\<close>

definition traced_call ::
  "'ctx rb_env \<Rightarrow> ('e \<Rightarrow> rb_error) \<Rightarrow> ('s, 'e, 'a) op \<Rightarrow> ('s, rb_error, 'a) op"
where
  "traced_call env f m = op_bind (op_lift (env_otel env)) (\<lambda>_. await_core env f m)"

definition traced :: "'ctx rb_env \<Rightarrow> bool" where
  "traced env \<longleftrightarrow> calm env \<and> (\<exists>c. env_otel env = Inr c)"

lemma traced_call_traced [simp]:
  "traced env \<Longrightarrow> traced_call env f m s = (map_err f (fst (m s)), snd (m s))"
  by (auto simp: traced_call_def traced_def)

lemma traced_call_Inr_iff:
  "traced_call env f m s = (Inr v, t) \<longleftrightarrow> traced env \<and> m s = (Inr v, t)"
  by (auto simp: traced_call_def traced_def op_bind_eq_Inr_iff await_core_Inr_iff)

lemma traced_call_untraced:
  "env_otel env = Inl e \<Longrightarrow> traced_call env f m s = (Inl e, s)"
  by (simp add: traced_call_def)

text \<open>The call happened, if at all, exactly once.\<close>

lemma traced_call_state: "snd (traced_call env f m s) \<in> {s, snd (m s)}"
  by (cases "env_otel env") (auto simp: traced_call_def await_core_state)

lemma traced_call_frame [frame]: "snd (m s) = s \<Longrightarrow> untouched (traced_call env f m) s"
  using traced_call_state [of env f m s] by (simp add: untouched_def)

subsection \<open>On the detailed bridge\<close>

text \<open>
  The same call step by step: a Ruby queue and a spawned future, the callback through the
  channel, the polling thread, then \<open>pop\<close>. \<open>None\<close> is a caller that waits.
\<close>

definition wait_exec ::
  "'ctx rb_env \<Rightarrow> nat \<Rightarrow> nat \<Rightarrow> ('s \<Rightarrow> 'v \<times> 's) \<Rightarrow> ('w, 'r, 'v) bridge \<Rightarrow> 's \<Rightarrow>
    (rb_error + 'v) option \<times> 's"
where
  "wait_exec env q t fut b s =
     (case wait_start env q t b of
        (Inl e, b) \<Rightarrow> (Some (Inl e), s)
      | (Inr _, b) \<Rightarrow>
          (case fut s of (v, s) \<Rightarrow>
             (case env_pop env of
                Some e \<Rightarrow> (Some (Inl e), s)
              | None \<Rightarrow> (map_option fst (wait_pop q (serve (future_done q v b))), s))))"

text \<open>
  C31: On a live, idle bridge the detailed call (queue, spawned future, channel, polling
  thread, \<open>pop\<close>, downcast) gives what the one-step \<open>wait_for\<close> gives, result and core state.
  With the thread gone, the future still runs and the caller waits for ever.
\<close>

theorem wait_for_on_bridge:
  assumes "br_batch b = []" and "br_queue b = []"
  shows "wait_exec env q t fut b s =
    (if br_open b then (case wait_for env fut s of (r, u) \<Rightarrow> (Some r, u))
     else if env_queue_new env = None \<and> env_pop env = None then (None, snd (fut s))
     else (case wait_for env fut s of (r, u) \<Rightarrow> (Some r, u)))"
proof -
  obtain v u where fut: "fut s = (v, u)" by (cases "fut s")
  let ?w = "b\<lparr>br_queues := (br_queues b)(q := []), br_waits := (br_waits b)(q := Fut_running t)\<rparr>"
  have "serve (future_done q v ?w) =
      (execute (Complete_fn q t v) (future_done q v ?w))\<lparr>br_queue := []\<rparr>" if "br_open b"
    using that assms thread_serves [of "future_done q v ?w"]
    by (simp add: serve_def future_done_def send_def)
  then have upp: "map_option fst (wait_pop q (serve (future_done q v ?w))) = Some (Inr v)" if "br_open b"
    using that by (simp add: wait_pop_def future_done_def send_def unpack_result_def dyn_take_def
        Let_def)
  have shut: "wait_pop q (serve (future_done q v ?w)) = None" if "\<not> br_open b"
    using that by (simp add: wait_pop_def serve_def future_done_def send_def)
  show ?thesis
    using upp shut fut
    by (cases "br_open b"; cases "env_queue_new env"; cases "env_pop env")
       (simp_all add: wait_exec_def wait_for_def wait_start_def)
qed

theorem wait_for_on_bridge_witness:
  "wait_exec sample_env 0 1 (\<lambda>s. (s + 1, s * 2)) (bridge_new 7 :: (nat, nat, nat) bridge) 4 =
     (Some (Inr 5), 8)"
  using wait_for_on_bridge [of "bridge_new 7 :: (nat, nat, nat) bridge" sample_env 0 1
      "\<lambda>s. (s + 1, s * 2)" 4]
  by (simp add: bridge_new_def wait_for_def sample_env_def)

end
