(* ===== verification/Timers.thy ===== *)
theory Timers
  imports Awaiting
begin

text \<open>
  The timer operations of \<open>Prosody::Context\<close> (handler/context/mod.rs): the conversion of
  Ruby times to the core's whole-second \<open>CompactDateTime\<close> (a \<open>u32\<close>), and the five methods
  that call the core's timer service, which is a parameter.
\<close>

subsection \<open>Times\<close>

definition NANOSECOND_ROUNDING_THRESHOLD :: u32 where
  "NANOSECOND_ROUNDING_THRESHOLD = 500000000"

text \<open>A Ruby object as a time: what \<open>to_i\<close> and \<open>nsec\<close> return or raise.\<close>

record ruby_time =
  tm_to_i :: "rb_error + int"
  tm_nsec :: "rb_error + int"

text \<open>The conversions of a Ruby Integer that \<open>funcall\<close> makes for its result type, which raise
  \<open>RangeError\<close> (the wording of Ruby's message is not modelled).\<close>

definition i64_convert :: "int \<Rightarrow> rb_error + i64" where
  "i64_convert n =
     (if - (2 ^ 63) \<le> n \<and> n < 2 ^ 63 then Inr (word_of_int n)
      else Inl (Rb_error range_error_class ''integer out of range for i64''))"

definition u32_convert :: "int \<Rightarrow> rb_error + u32" where
  "u32_convert n =
     (case u32_try_from n of
        Some w \<Rightarrow> Inr w
      | None \<Rightarrow> Inl (Rb_error range_error_class ''integer out of range for u32''))"

definition time_to_compact_datetime :: "ruby_time \<Rightarrow> rb_error + u32" where
  "time_to_compact_datetime t =
     res_bind (res_bind (tm_to_i t) i64_convert) (\<lambda>epoch_seconds.
     res_bind (res_bind (tm_nsec t) u32_convert) (\<lambda>nanos.
       (case u32_try_from (sint epoch_seconds) of
          None \<Rightarrow> Inl (argument_error (''Time '' @ show_int (sint epoch_seconds) @
                    '' is outside CompactDateTime range (1970-2106)''))
        | Some seconds_u32 \<Rightarrow>
            if NANOSECOND_ROUNDING_THRESHOLD \<le> nanos then
              (case checked_add_u32 seconds_u32 1 of
                 None \<Rightarrow> Inl (argument_error ''Time overflow during rounding to nearest second'')
               | Some final_seconds \<Rightarrow> Inr final_seconds)
            else Inr seconds_u32)))"

text \<open>\<open>Time.at\<close> on the widened seconds.\<close>

definition compact_datetime_to_time :: "u32 \<Rightarrow> ruby_time" where
  "compact_datetime_to_time c = \<lparr>tm_to_i = Inr (sint (ucast c :: i64)), tm_nsec = Inr 0\<rparr>"

text \<open>A genuine Ruby \<open>Time\<close>: so many nanoseconds after the epoch.\<close>

definition time_at :: "int \<Rightarrow> ruby_time" where
  "time_at n = \<lparr>tm_to_i = Inr (n div 10 ^ 9), tm_nsec = Inr (n mod 10 ^ 9)\<rparr>"

definition time_in_range :: "int \<Rightarrow> bool" where
  "time_in_range n \<longleftrightarrow> 0 \<le> n \<and> n < (2 ^ 32 - 1) * 10 ^ 9 + 500000000"

definition round_seconds :: "int \<Rightarrow> int" where
  "round_seconds n = (n + 500000000) div 10 ^ 9"

lemma zdiv_less_iff: "0 < k \<Longrightarrow> n div k < m \<longleftrightarrow> n < m * k" for n k m :: int
proof
  assume k: "0 < k" and "n div k < m"
  then have "(n div k + 1) * k \<le> m * k" by (intro mult_right_mono) auto
  moreover have "n < (n div k + 1) * k"
    using k by (simp add: distrib_right minus_mod_eq_div_mult [symmetric])
  ultimately show "n < m * k" by linarith
next
  assume k: "0 < k" and "n < m * k"
  show "n div k < m"
  proof (rule ccontr)
    assume "\<not> n div k < m"
    then have "m * k \<le> n div k * k" using k by (intro mult_right_mono) auto
    also have "\<dots> \<le> n" using k by (simp add: minus_mod_eq_div_mult [symmetric])
    finally show False using \<open>n < m * k\<close> by simp
  qed
qed

lemma sint_i64_of: "- (2 ^ 63) \<le> n \<Longrightarrow> n < 2 ^ 63 \<Longrightarrow> sint (word_of_int n :: i64) = n"
  by (subst sint_sbintrunc', rule signed_take_bit_int_eq_self) simp_all

lemma i64_convert_Inr: "- (2 ^ 63) \<le> n \<Longrightarrow> n < 2 ^ 63 \<Longrightarrow> i64_convert n = Inr (word_of_int n)"
  by (simp add: i64_convert_def)

lemma u32_convert_nsec: "u32_convert (n mod 10 ^ 9) = Inr (word_of_int (n mod 10 ^ 9))"
proof -
  have "0 \<le> n mod 1000000000" "n mod 1000000000 < 4294967296"
    using pos_mod_bound [of 1000000000 n] by simp_all
  then show ?thesis by (simp add: u32_convert_def u32_try_from_def)
qed

lemma threshold_iff:
  "NANOSECOND_ROUNDING_THRESHOLD \<le> word_of_int (n mod 10 ^ 9) \<longleftrightarrow> 500000000 \<le> n mod 10 ^ 9"
proof -
  have "0 \<le> n mod 1000000000" "n mod 1000000000 < 4294967296"
    using pos_mod_bound [of 1000000000 n] by simp_all
  then show ?thesis
    by (simp add: NANOSECOND_ROUNDING_THRESHOLD_def word_le_def uint_word_of_int take_bit_int_eq_self)
qed

lemma round_seconds_split:
  "round_seconds n = n div 10 ^ 9 + (if 500000000 \<le> n mod 10 ^ 9 then 1 else 0)"
proof -
  have n: "n = 1000000000 * (n div 1000000000) + n mod 1000000000" by simp
  have r: "0 \<le> n mod 1000000000" "n mod 1000000000 < 1000000000" by simp_all
  show ?thesis
  proof (cases "500000000 \<le> n mod 1000000000")
    case True
    have "(n + 500000000) div 1000000000 = n div 1000000000 + 1"
      by (rule int_div_pos_eq [where r = "n mod 1000000000 - 500000000"]) (use n r True in auto)
    with True show ?thesis by (simp add: round_seconds_def)
  next
    case False
    have "(n + 500000000) div 1000000000 = n div 1000000000"
      by (rule int_div_pos_eq [where r = "n mod 1000000000 + 500000000"]) (use n r False in auto)
    with False show ?thesis by (simp add: round_seconds_def)
  qed
qed

text \<open>On a genuine time within the signed 64-bit range, the conversion by its three outcomes.\<close>

lemma time_to_compact_datetime_at:
  assumes "- (2 ^ 63) \<le> n div 10 ^ 9" and "n div 10 ^ 9 < 2 ^ 63"
  shows "time_to_compact_datetime (time_at n) =
    (if n div 10 ^ 9 < 0 \<or> 2 ^ 32 \<le> n div 10 ^ 9 then
       Inl (argument_error (''Time '' @ show_int (n div 10 ^ 9) @
         '' is outside CompactDateTime range (1970-2106)''))
     else if 2 ^ 32 \<le> round_seconds n then
       Inl (argument_error ''Time overflow during rounding to nearest second'')
     else Inr (word_of_int (round_seconds n)))"
proof -
  let ?s = "n div 10 ^ 9"
  have conv: "time_to_compact_datetime (time_at n) =
    (case u32_try_from ?s of
       None \<Rightarrow> Inl (argument_error (''Time '' @ show_int ?s @
         '' is outside CompactDateTime range (1970-2106)''))
     | Some w \<Rightarrow>
         if 500000000 \<le> n mod 10 ^ 9 then
           (case checked_add_u32 w 1 of
              None \<Rightarrow> Inl (argument_error ''Time overflow during rounding to nearest second'')
            | Some r \<Rightarrow> Inr r)
         else Inr w)"
    by (simp only: time_to_compact_datetime_def time_at_def ruby_time.select_convs res_bind_simps
        i64_convert_Inr [OF assms] u32_convert_nsec sint_i64_of [OF assms] threshold_iff)
  show ?thesis
  proof (cases "0 \<le> ?s \<and> ?s < 2 ^ 32")
    case False
    then have "u32_try_from ?s = None" unfolding u32_try_from_def by (simp only: if_False)
    with conv False show ?thesis by auto
  next
    case True
    then have try_from: "u32_try_from ?s = Some (word_of_int ?s)"
      unfolding u32_try_from_def by (simp only: simp_thms if_True)
    have un: "unat (word_of_int ?s :: u32) = nat ?s"
      using True by (simp add: unat_eq_nat_uint uint_word_of_int take_bit_int_eq_self)
    have add: "checked_add_u32 (word_of_int ?s) 1 =
        (if ?s + 1 < 2 ^ 32 then Some (word_of_int (?s + 1)) else None)"
      using True unfolding checked_add_u32_def un by auto
    show ?thesis
      using True conv try_from add round_seconds_split [of n] by auto
  qed
qed

lemma time_in_range_iff:
  "(\<exists>c. time_to_compact_datetime (time_at n) = Inr c) \<longleftrightarrow> time_in_range n"
proof (cases "- (2 ^ 63) \<le> n div 10 ^ 9 \<and> n div 10 ^ 9 < 2 ^ 63")
  case True
  have "round_seconds n < 2 ^ 32 \<longleftrightarrow> n < (2 ^ 32 - 1) * 10 ^ 9 + 500000000"
    unfolding round_seconds_def by (simp add: zdiv_less_iff)
  moreover have "n div 10 ^ 9 < 0 \<longleftrightarrow> n < 0"
    by (simp add: div_neg_pos_less0 pos_imp_zdiv_neg_iff)
  moreover have "2 ^ 32 \<le> n div 10 ^ 9 \<Longrightarrow> 2 ^ 32 \<le> round_seconds n"
    by (simp add: round_seconds_split)
  ultimately show ?thesis
    using time_to_compact_datetime_at [of n] True by (auto simp: time_in_range_def)
next
  case False
  then have "time_to_compact_datetime (time_at n) = Inl (Rb_error range_error_class ''integer out of range for i64'')"
    by (auto simp: time_to_compact_datetime_def time_at_def i64_convert_def)
  moreover have "\<not> time_in_range n"
  proof
    assume "time_in_range n"
    then have "0 \<le> n div 10 ^ 9" "n div 10 ^ 9 < 2 ^ 63"
      by (auto simp: time_in_range_def pos_imp_zdiv_nonneg_iff zdiv_less_iff)
    with False show False by simp
  qed
  ultimately show ?thesis by simp
qed

lemma time_accepted_value:
  assumes "time_to_compact_datetime (time_at n) = Inr c"
  shows "uint c = round_seconds n"
proof -
  have r: "time_in_range n" using assms time_in_range_iff by blast
  then have b: "0 \<le> n div 10 ^ 9" "n div 10 ^ 9 < 2 ^ 63" "0 \<le> round_seconds n" "round_seconds n < 2 ^ 32"
    by (auto simp: time_in_range_def pos_imp_zdiv_nonneg_iff zdiv_less_iff round_seconds_def)
  then have "c = word_of_int (round_seconds n)"
    using assms time_to_compact_datetime_at [of n] by (simp split: if_splits)
  with b show ?thesis by (simp add: uint_word_of_int take_bit_int_eq_self)
qed

subsection \<open>The context's operations\<close>

text \<open>The core's timer types: the application's own, and those of its middleware.\<close>

datatype timer_type = Application | Internal nat

text \<open>The event context of the core, as far as timers and cancellation go.\<close>

record ('s, 'e) event_core =
  core_schedule :: "u32 \<Rightarrow> timer_type \<Rightarrow> ('s, 'e, unit) op"
  core_clear_and_schedule :: "u32 \<Rightarrow> timer_type \<Rightarrow> ('s, 'e, unit) op"
  core_unschedule :: "u32 \<Rightarrow> timer_type \<Rightarrow> ('s, 'e, unit) op"
  core_clear_scheduled :: "timer_type \<Rightarrow> ('s, 'e, unit) op"
  core_scheduled :: "timer_type \<Rightarrow> ('s, 'e, u32 list) op"
  core_should_cancel :: "'s \<Rightarrow> bool"
  core_on_cancel :: "'s \<Rightarrow> unit \<times> 's"
  core_show :: "'e \<Rightarrow> string" \<comment> \<open>the error's \<open>{:#}\<close> form\<close>

datatype demand_type = Normal | Failure u32

text \<open>\<open>Context::demand\<close>: the members of the \<open>Prosody::Demand\<close> it builds.\<close>

fun context_demand :: "demand_type \<Rightarrow> string \<times> u32" where
  "context_demand Normal = (''normal'', 0)"
| "context_demand (Failure retries) = (''failure'', retries)"

definition should_cancel :: "('s, 'e) event_core \<Rightarrow> 's \<Rightarrow> bool" where
  "should_cancel C s = core_should_cancel C s"

definition on_cancel :: "('s, 'e) event_core \<Rightarrow> 'ctx rb_env \<Rightarrow> ('s, rb_error, unit) op" where
  "on_cancel C env = wait_for env (core_on_cancel C)"

definition context_schedule ::
  "('s, 'e) event_core \<Rightarrow> 'ctx rb_env \<Rightarrow> ruby_time \<Rightarrow> ('s, rb_error, unit) op"
where
  "context_schedule C env t =
     op_bind (op_lift (time_to_compact_datetime t)) (\<lambda>compact_time.
       traced_call env (\<lambda>e. runtime_error (''Failed to schedule timer: '' @ core_show C e))
         (core_schedule C compact_time Application))"

definition context_clear_and_schedule ::
  "('s, 'e) event_core \<Rightarrow> 'ctx rb_env \<Rightarrow> ruby_time \<Rightarrow> ('s, rb_error, unit) op"
where
  "context_clear_and_schedule C env t =
     op_bind (op_lift (time_to_compact_datetime t)) (\<lambda>compact_time.
       traced_call env (\<lambda>e. runtime_error (''Failed to clear and schedule timer: '' @ core_show C e))
         (core_clear_and_schedule C compact_time Application))"

definition context_unschedule ::
  "('s, 'e) event_core \<Rightarrow> 'ctx rb_env \<Rightarrow> ruby_time \<Rightarrow> ('s, rb_error, unit) op"
where
  "context_unschedule C env t =
     op_bind (op_lift (time_to_compact_datetime t)) (\<lambda>compact_time.
       traced_call env (\<lambda>e. runtime_error (''Failed to unschedule timer: '' @ core_show C e))
         (core_unschedule C compact_time Application))"

definition context_clear_scheduled ::
  "('s, 'e) event_core \<Rightarrow> 'ctx rb_env \<Rightarrow> ('s, rb_error, unit) op"
where
  "context_clear_scheduled C env =
     traced_call env (\<lambda>e. runtime_error (''Failed to clear scheduled timers: '' @ core_show C e))
       (core_clear_scheduled C Application)"

definition context_scheduled ::
  "('s, 'e) event_core \<Rightarrow> 'ctx rb_env \<Rightarrow> ('s, rb_error, ruby_time list) op"
where
  "context_scheduled C env =
     op_bind (traced_call env (\<lambda>e. runtime_error (''Failed to get scheduled times: '' @ core_show C e))
         (core_scheduled C Application))
       (\<lambda>times. op_lift (traverse (\<lambda>c. Inr (compact_datetime_to_time c)) times))"

lemma traverse_times [simp]:
  "traverse (\<lambda>c. Inr (compact_datetime_to_time c)) cs = Inr (map compact_datetime_to_time cs)"
  by (rule traverse_total) simp

text \<open>The contract the three operations on a time share.\<close>

locale timer_update =
  fixes update :: "'ctx rb_env \<Rightarrow> ruby_time \<Rightarrow> ('s, rb_error, unit) op"
    and effect :: "u32 \<Rightarrow> ('s, 'e, unit) op"
  assumes update_bad_time: "time_to_compact_datetime t = Inl e \<Longrightarrow> update env t s = (Inl e, s)"
    and update_Inr_iff: "update env t s = (Inr (), s') \<longleftrightarrow>
      traced env \<and> (\<exists>c. time_to_compact_datetime t = Inr c \<and> effect c s = (Inr (), s'))"
    and update_state: "time_to_compact_datetime t = Inr c \<Longrightarrow>
      snd (update env t s) \<in> {s, snd (effect c s)}"
begin

lemma bad_time_untouched: "time_to_compact_datetime t = Inl e \<Longrightarrow> untouched (update env t) s"
  by (simp add: untouched_def update_bad_time)

text \<open>The service sees nothing but the effect for the converted time.\<close>

lemma update_sees:
  "snd (update env t s) \<noteq> s \<Longrightarrow>
     \<exists>c. time_to_compact_datetime t = Inr c \<and> snd (update env t s) = snd (effect c s)"
  using update_state [of t _ env s] update_bad_time [of t _ env s]
  by (cases "time_to_compact_datetime t") auto

lemma update_success:
  "update env t s = (Inr (), s') \<Longrightarrow>
     \<exists>c. time_to_compact_datetime t = Inr c \<and> effect c s = (Inr (), s')"
  by (simp add: update_Inr_iff)

end

lemma timer_updateI:
  assumes "\<And>env t. update env t =
      op_bind (op_lift (time_to_compact_datetime t)) (\<lambda>c. traced_call env describe (effect c))"
  shows "timer_update update effect"
proof
  fix t e env s
  assume "time_to_compact_datetime t = Inl e"
  then show "update env t s = (Inl e, s)" by (simp add: assms)
next
  fix env t s s'
  show "update env t s = (Inr (), s') \<longleftrightarrow>
      traced env \<and> (\<exists>c. time_to_compact_datetime t = Inr c \<and> effect c s = (Inr (), s'))"
    by (auto simp: assms op_bind_eq_Inr_iff traced_call_Inr_iff)
next
  fix t c env s
  assume "time_to_compact_datetime t = Inr c"
  then have "update env t s = traced_call env describe (effect c) s" by (simp add: assms)
  then show "snd (update env t s) \<in> {s, snd (effect c s)}" by (simp only: traced_call_state)
qed

interpretation schedule_op: timer_update "context_schedule C" "\<lambda>c. core_schedule C c Application"
  for C :: "('s, 'e) event_core"
  by (rule timer_updateI) (rule context_schedule_def)

interpretation clear_and_schedule_op:
  timer_update "context_clear_and_schedule C" "\<lambda>c. core_clear_and_schedule C c Application"
  for C :: "('s, 'e) event_core"
  by (rule timer_updateI) (rule context_clear_and_schedule_def)

interpretation unschedule_op: timer_update "context_unschedule C" "\<lambda>c. core_unschedule C c Application"
  for C :: "('s, 'e) event_core"
  by (rule timer_updateI) (rule context_unschedule_def)

subsection \<open>The timers of an event as a set\<close>

text \<open>
  What the core documents of its timer service: the application's timers of an event are a
  set of whole seconds, and each successful call does to it what its name says.
\<close>

definition timer_laws :: "('s, 'e) event_core \<Rightarrow> ('s \<Rightarrow> u32 set) \<Rightarrow> bool" where
  "timer_laws C timers \<longleftrightarrow>
     (\<forall>c s t. core_schedule C c Application s = (Inr (), t) \<longrightarrow> timers t = insert c (timers s)) \<and>
     (\<forall>c s t. core_clear_and_schedule C c Application s = (Inr (), t) \<longrightarrow> timers t = {c}) \<and>
     (\<forall>c s t. core_unschedule C c Application s = (Inr (), t) \<longrightarrow> timers t = timers s - {c}) \<and>
     (\<forall>s t. core_clear_scheduled C Application s = (Inr (), t) \<longrightarrow> timers t = {}) \<and>
     (\<forall>cs s t. core_scheduled C Application s = (Inr cs, t) \<longrightarrow> set cs = timers s \<and> t = s)"

datatype timer_call =
    Schedule ruby_time
  | Clear_and_schedule ruby_time
  | Unschedule ruby_time
  | Clear_scheduled

fun run_call :: "('s, 'e) event_core \<Rightarrow> 'ctx rb_env \<Rightarrow> timer_call \<Rightarrow> ('s, rb_error, unit) op" where
  "run_call C env (Schedule t) = context_schedule C env t"
| "run_call C env (Clear_and_schedule t) = context_clear_and_schedule C env t"
| "run_call C env (Unschedule t) = context_unschedule C env t"
| "run_call C env Clear_scheduled = context_clear_scheduled C env"

text \<open>A handler that makes these calls one after the other and stops at the first exception.\<close>

fun run_calls ::
  "('s, 'e) event_core \<Rightarrow> 'ctx rb_env \<Rightarrow> timer_call list \<Rightarrow> ('s, rb_error, unit) op"
where
  "run_calls C env [] = op_ok ()"
| "run_calls C env (c # cs) = op_bind (run_call C env c) (\<lambda>_. run_calls C env cs)"

text \<open>The same calls on a set of seconds; a time counts as the second it is rounded to.\<close>

definition rounded :: "ruby_time \<Rightarrow> u32" where
  "rounded t = (case time_to_compact_datetime t of Inr c \<Rightarrow> c | Inl _ \<Rightarrow> 0)"

fun spec_call :: "timer_call \<Rightarrow> u32 set \<Rightarrow> u32 set" where
  "spec_call (Schedule t) T = insert (rounded t) T"
| "spec_call (Clear_and_schedule t) T = {rounded t}"
| "spec_call (Unschedule t) T = T - {rounded t}"
| "spec_call Clear_scheduled T = {}"

lemma run_call_spec:
  assumes "timer_laws C timers" and "run_call C env c s = (Inr (), s')"
  shows "timers s' = spec_call c (timers s)"
  using assms
  by (cases c)
     (auto simp: timer_laws_def rounded_def context_clear_scheduled_def traced_call_Inr_iff
       dest!: schedule_op.update_success clear_and_schedule_op.update_success
         unschedule_op.update_success)

lemma run_calls_spec:
  "timer_laws C timers \<Longrightarrow> run_calls C env cs s = (Inr (), s') \<Longrightarrow>
     timers s' = fold spec_call cs (timers s)"
proof (induction cs arbitrary: s)
  case Nil
  then show ?case by simp
next
  case (Cons c cs)
  then obtain u t where "run_call C env c s = (Inr u, t)" "run_calls C env cs t = (Inr (), s')"
    by (auto simp: op_bind_eq_Inr_iff)
  with Cons run_call_spec [OF Cons.prems(1), of env c s t] show ?case by simp
qed

text \<open>A core that keeps its timers in a list, for the witnesses.\<close>

definition list_core :: "(u32 list, string) event_core" where
  "list_core = \<lparr>core_schedule = (\<lambda>c _ s. (Inr (), List.insert c s)),
     core_clear_and_schedule = (\<lambda>c _ s. (Inr (), [c])),
     core_unschedule = (\<lambda>c _ s. (Inr (), removeAll c s)),
     core_clear_scheduled = (\<lambda>_ s. (Inr (), [])),
     core_scheduled = (\<lambda>_ s. (Inr s, s)),
     core_should_cancel = (\<lambda>_. False), core_on_cancel = (\<lambda>s. ((), s)), core_show = id\<rparr>"

lemma list_core_laws: "timer_laws list_core set"
  by (auto simp: timer_laws_def list_core_def)

subsection \<open>Properties\<close>


text \<open>
  An accepted time becomes the nearest whole second, half a second rounding up, so it is
  off by at most half a second; and the conversion keeps the order of times.
\<close>

theorem time_rounds_to_nearest:
  assumes "time_to_compact_datetime (time_at m) = Inr c"
    and "time_to_compact_datetime (time_at n) = Inr d"
  shows "\<bar>uint c * 10 ^ 9 - m\<bar> \<le> 500000000 \<and> uint c = (m + 500000000) div 10 ^ 9 \<and>
    (m \<le> n \<longrightarrow> c \<le> d)"
proof -
  have c: "uint c = (m + 500000000) div 10 ^ 9" and d: "uint d = (n + 500000000) div 10 ^ 9"
    using time_accepted_value [OF assms(1)] time_accepted_value [OF assms(2)]
    by (simp_all add: round_seconds_def)
  have "m + 500000000 = 10 ^ 9 * uint c + (m + 500000000) mod 10 ^ 9" by (simp add: c)
  moreover have "0 \<le> (m + 500000000) mod 10 ^ 9" "(m + 500000000) mod 10 ^ 9 < 10 ^ 9" by simp_all
  ultimately have "\<bar>uint c * 10 ^ 9 - m\<bar> \<le> 500000000" by simp
  moreover have "c \<le> d" if "m \<le> n"
    using that by (simp add: word_le_def c d zdiv_mono1)
  ultimately show ?thesis using c by simp
qed

theorem time_rounds_to_nearest_witness:
  "uint (2 :: u32) = (1500000000 + 500000000) div 10 ^ 9 \<and> (2 :: u32) \<le> 4"
proof -
  have "time_to_compact_datetime (time_at 1500000000) = Inr 2"
    using time_to_compact_datetime_at [of 1500000000] by (simp add: round_seconds_def)
  moreover have "time_to_compact_datetime (time_at 4499999999) = Inr 4"
    using time_to_compact_datetime_at [of 4499999999] by (simp add: round_seconds_def)
  ultimately show ?thesis
    using time_rounds_to_nearest [of 1500000000 2 4499999999 4] by simp
qed

text \<open>
  C33: Round trip: a timer's time read back as a Ruby Time converts to the same timer time.
\<close>

theorem time_round_trip:
  "time_to_compact_datetime (compact_datetime_to_time c) = Inr c"
proof -
  have u: "uint c < 2 ^ 32" using uint_lt2p [of c] by simp
  have lower: "- 9223372036854775808 \<le> uint c"
    using uint_nonnegative [of c] by linarith
  have "sint (ucast c :: i64) = uint c"
    by (subst ucast_eq, rule sint_i64_of) (use u in \<open>auto intro: order_trans [of _ 0]\<close>)
  then have "compact_datetime_to_time c = time_at (uint c * 10 ^ 9)"
    by (simp add: compact_datetime_to_time_def time_at_def)
  moreover have "time_to_compact_datetime (time_at (uint c * 10 ^ 9)) = Inr c"
    using time_to_compact_datetime_at [of "uint c * 10 ^ 9"] u lower
    by (simp add: round_seconds_split)
  ultimately show ?thesis by simp
qed

text \<open>
  A time outside the range raises from \<open>schedule\<close>, \<open>clear_and_schedule\<close> and \<open>unschedule\<close>
  before the timer service is called: it, and with it every timer already set, stays as it
  was.
\<close>

theorem bad_time_leaves_timers:
  assumes "time_to_compact_datetime t = Inl e"
  shows "context_schedule C env t s = (Inl e, s) \<and>
    context_clear_and_schedule C env t s = (Inl e, s) \<and>
    context_unschedule C env t s = (Inl e, s)"
  using assms
  by (simp add: schedule_op.update_bad_time clear_and_schedule_op.update_bad_time
      unschedule_op.update_bad_time)

theorem bad_time_leaves_timers_witness:
  "context_clear_and_schedule list_core sample_env (time_at (- 1)) [5] =
     (Inl (argument_error ''Time -1 is outside CompactDateTime range (1970-2106)''), [5])"
proof -
  have show_minus_1: "show_int (- 1) = ''-1''" by code_simp
  have "time_to_compact_datetime (time_at (- 1)) =
      Inl (argument_error ''Time -1 is outside CompactDateTime range (1970-2106)'')"
    using time_to_compact_datetime_at [of "- 1"] show_minus_1 by simp
  from bad_time_leaves_timers [OF this, of list_core sample_env "[5]"] show ?thesis by simp
qed

text \<open>
  C25: Refinement: over a timer service that keeps its documented promises, a handler's timer
  calls act on the event's timers as a set of rounded seconds, and \<open>scheduled\<close> then returns
  exactly the Ruby times of that set.
\<close>

theorem timers_refine_set:
  assumes "timer_laws C timers"
    and "run_calls C env cs s = (Inr (), s')"
    and "context_scheduled C env s' = (Inr ts, u)"
  shows "set ts = compact_datetime_to_time ` fold spec_call cs (timers s) \<and> u = s'"
proof -
  have "timers s' = fold spec_call cs (timers s)" by (rule run_calls_spec) (fact assms)+
  moreover obtain l where "core_scheduled C Application s' = (Inr l, u)"
      "ts = map compact_datetime_to_time l"
    using assms(3) by (auto simp: context_scheduled_def op_bind_eq_Inr_iff traced_call_Inr_iff)
  moreover from this have "set l = timers s' \<and> u = s'"
    using assms(1) by (simp add: timer_laws_def)
  ultimately show ?thesis by simp
qed

theorem timers_refine_set_witness:
  "set [compact_datetime_to_time 2] =
     compact_datetime_to_time ` fold spec_call [Clear_scheduled, Schedule (time_at 1500000000)] {7} \<and>
   [2 :: u32] = [2]"
proof -
  have t: "time_to_compact_datetime (time_at 1500000000) = Inr 2"
    using time_to_compact_datetime_at [of 1500000000] by (simp add: round_seconds_def)
  have env: "traced sample_env" by (simp add: traced_def calm_def sample_env_def)
  have run: "run_calls list_core sample_env [Clear_scheduled, Schedule (time_at 1500000000)] [7] =
      (Inr (), [2])"
    by (simp add: context_clear_scheduled_def context_schedule_def t env list_core_def op_bind_def)
  have "context_scheduled list_core sample_env [2] = (Inr [compact_datetime_to_time 2], [2])"
    by (simp add: context_scheduled_def env list_core_def op_bind_def)
  from timers_refine_set [OF list_core_laws run this] show ?thesis by simp
qed

end
