(* ===== verification/Handler.thy ===== *)
theory Handler
  imports Scheduler Timers
begin

text \<open>
  The event handler: handler/mod.rs (the tasks built for messages, excisions and timers, the
  race of a task's result with its cancellation, and the classification of errors) and the
  Ruby wrappers of messages and timers (message.rs, trigger.rs).
\<close>

subsection \<open>Messages and timers as Ruby sees them\<close>

record 'p consumer_message =
  cm_topic :: string
  cm_partition :: i32
  cm_offset :: i64
  cm_key :: string
  cm_timestamp :: i64 \<comment> \<open>microseconds since the epoch\<close>
  cm_payload :: 'p
  cm_source_system :: "string option"
  cm_response_requested :: bool

record trigger =
  tr_key :: string
  tr_time :: u32
  tr_type :: timer_type

definition message_topic :: "'p consumer_message \<Rightarrow> string" where
  "message_topic m = cm_topic m"

definition message_partition :: "'p consumer_message \<Rightarrow> i32" where
  "message_partition m = cm_partition m"

definition message_offset :: "'p consumer_message \<Rightarrow> i64" where
  "message_offset m = cm_offset m"

definition message_key :: "'p consumer_message \<Rightarrow> string" where
  "message_key m = cm_key m"

definition message_timestamp :: "'p consumer_message \<Rightarrow> ruby_time" where
  "message_timestamp m = time_at (sint (cm_timestamp m) * 1000)"

definition message_payload :: "('p \<Rightarrow> rb_error + rvalue) \<Rightarrow> 'p consumer_message \<Rightarrow> rb_error + rvalue" where
  "message_payload serialize m = serialize (cm_payload m)"

definition message_source_system :: "'p consumer_message \<Rightarrow> string option" where
  "message_source_system m = cm_source_system m"

definition message_response_requested :: "'p consumer_message \<Rightarrow> bool" where
  "message_response_requested m = cm_response_requested m"

definition timer_key :: "trigger \<Rightarrow> string" where
  "timer_key t = tr_key t"

definition timer_time :: "trigger \<Rightarrow> ruby_time" where
  "timer_time t = time_at (sint (ucast (tr_time t) :: i64) * 10 ^ 9)"

subsection \<open>Tasks\<close>

text \<open>What a handler method is called with: the demand of its context, and the event.\<close>

datatype 'p handler_arg =
    Message_arg "'p consumer_message"
  | Excise_arg "unit consumer_message"
  | Timer_arg trigger

text \<open>The user's handler: a method of the handler object, on the Ruby heap.\<close>

type_synonym ('p, 'w) user_handler =
  "string \<Rightarrow> demand_type \<Rightarrow> 'p handler_arg \<Rightarrow> 'w \<Rightarrow> (rb_error + rvalue) \<times> 'w"

type_synonym 'w ruby_code = "'w \<Rightarrow> (rb_error + rvalue) \<times> 'w"

definition record_task_id :: "'p consumer_message \<Rightarrow> string" where
  "record_task_id m = cm_topic m @ ''/'' @ show_int (sint (cm_partition m)) @ '':'' @
     show_int (sint (cm_offset m))"

definition record_event_context :: "string \<Rightarrow> 'p consumer_message \<Rightarrow> (string \<times> string) list" where
  "record_event_context event_type m =
     [(''event_type'', event_type), (''topic'', cm_topic m),
      (''partition'', show_int (sint (cm_partition m))), (''key'', cm_key m),
      (''offset'', show_int (sint (cm_offset m)))]"

text \<open>\<open>handle_record\<close> up to the call of \<open>schedule\<close>.\<close>

definition handle_record ::
  "('p, 'w) user_handler \<Rightarrow> (string \<times> string) list \<Rightarrow> ('q consumer_message \<Rightarrow> 'p handler_arg) \<Rightarrow>
    demand_type \<Rightarrow> string \<Rightarrow> string \<Rightarrow> 'q consumer_message \<Rightarrow> 'w ruby_code task"
where
  "handle_record handler carrier wrap demand method event_type m =
     (let response_requested = cm_response_requested m in
      \<lparr>task_name = record_task_id m, task_carrier = carrier,
       task_event = record_event_context event_type m,
       task_function = (\<lambda>w. case handler method demand (wrap m) w of
          (Inl e, w) \<Rightarrow> (Inl e, w)
        | (Inr result, w) \<Rightarrow> (Inr (if response_requested then result else RNil), w))\<rparr>)"

definition on_message ::
  "('p, 'w) user_handler \<Rightarrow> (string \<times> string) list \<Rightarrow> 'p consumer_message \<Rightarrow> demand_type \<Rightarrow>
    'w ruby_code task"
where
  "on_message handler carrier m demand =
     handle_record handler carrier Message_arg demand ''on_message'' ''message'' m"

definition on_excise ::
  "('p, 'w) user_handler \<Rightarrow> (string \<times> string) list \<Rightarrow> unit consumer_message \<Rightarrow> demand_type \<Rightarrow>
    'w ruby_code task"
where
  "on_excise handler carrier m demand =
     handle_record handler carrier Excise_arg demand ''on_excise'' ''excise'' m"

text \<open>
  \<open>on_timer\<close>: a middleware's timer is answered with JSON null at once; \<open>show_time\<close> is the
  core's display of a timer's time.
\<close>

datatype 'f dispatch = Answer_null | Dispatch "'f task"

definition on_timer ::
  "(u32 \<Rightarrow> string) \<Rightarrow> ('p, 'w) user_handler \<Rightarrow> (string \<times> string) list \<Rightarrow> trigger \<Rightarrow> demand_type \<Rightarrow>
    'w ruby_code dispatch"
where
  "on_timer show_time handler carrier t demand =
     (if tr_type t \<noteq> Application then Answer_null
      else Dispatch \<lparr>task_name = ''timer/'' @ tr_key t @ ''/'' @ show_time (tr_time t),
        task_carrier = carrier,
        task_event = [(''event_type'', ''timer''), (''key'', tr_key t), (''time'', show_time (tr_time t))],
        task_function = (\<lambda>w. case handler ''on_timer'' demand (Timer_arg t) w of
           (Inl e, w) \<Rightarrow> (Inl e, w)
         | (Inr _, w) \<Rightarrow> (Inr RNil, w))\<rparr>)"

subsection \<open>Errors\<close>

datatype handler_error =
    Scheduler_failed scheduler_error
  | Bridge_failed bridge_error
  | Processing_failed processing_error

fun classify_error :: "handler_error \<Rightarrow> error_category" where
  "classify_error (Scheduler_failed _) = Category_transient"
| "classify_error (Bridge_failed _) = Category_transient"
| "classify_error (Processing_failed e) = classify_processing e"

subsection \<open>Waiting for the result or for cancellation\<close>

text \<open>
  The rest of \<open>handle_record\<close> and \<open>on_timer\<close> once the task is scheduled: \<open>select!\<close> takes
  whichever of the result and the cancellation is ready; a cancellation is passed on to the
  Ruby task, whose own result is then awaited.
\<close>

datatype 'j phase =
    Racing
  | Cancelling
  | Awaiting_result
  | Finished "handler_error + 'j"

record 'j handling =
  hd_phase :: "'j phase"
  hd_channel :: "'j result_channel"
  hd_cancelled :: bool \<comment> \<open>the core signalled cancellation\<close>
  hd_signals :: nat \<comment> \<open>cancel signals sent to the Ruby task\<close>

definition handling_start :: "'j handling" where
  "handling_start = \<lparr>hd_phase = Racing, hd_channel = result_channel_new, hd_cancelled = False,
     hd_signals = 0\<rparr>"

definition see_result :: "(processing_error + 'j) \<Rightarrow> 'j handling \<Rightarrow> 'j handling" where
  "see_result r h = h\<lparr>hd_phase := Finished (map_err Processing_failed r)\<rparr>"

definition cancel_returned :: "scheduler_error + unit \<Rightarrow> 'j handling \<Rightarrow> 'j handling" where
  "cancel_returned r h =
     (case r of
        Inr _ \<Rightarrow> h\<lparr>hd_phase := Awaiting_result, hd_signals := Suc (hd_signals h)\<rparr>
      | Inl e \<Rightarrow> h\<lparr>hd_phase := Finished (Inl (Scheduler_failed e)),
                   hd_channel := receiver_dropped (hd_channel h)\<rparr>)"

inductive handling_step :: "'j callee \<Rightarrow> 'j handling \<Rightarrow> 'j handling \<Rightarrow> bool" for m where
  reported: "e \<noteq> Receiver_dropped \<Longrightarrow>
     handling_step m h (h\<lparr>hd_channel := snd (channel_step m e (hd_channel h))\<rparr>)"
| cancellation: "handling_step m h (h\<lparr>hd_cancelled := True\<rparr>)"
| result_ready: "hd_phase h = Racing \<Longrightarrow> receive (hd_channel h) = Some r \<Longrightarrow>
     handling_step m h (see_result r h)"
| cancel_ready: "hd_phase h = Racing \<Longrightarrow> hd_cancelled h \<Longrightarrow>
     handling_step m h (h\<lparr>hd_phase := Cancelling\<rparr>)"
| cancel_done: "hd_phase h = Cancelling \<Longrightarrow> handling_step m h (cancel_returned r h)"
| late_result: "hd_phase h = Awaiting_result \<Longrightarrow> receive (hd_channel h) = Some r \<Longrightarrow>
     handling_step m h (see_result r h)"

inductive handling_run :: "'j callee \<Rightarrow> 'j handling \<Rightarrow> bool" for m where
  begun: "handling_run m handling_start"
| more: "handling_run m h \<Longrightarrow> handling_step m h h' \<Longrightarrow> handling_run m h'"

text \<open>A channel that was not used still waits for its callback, or lost its receiver.\<close>

definition channel_ok :: "'j result_channel \<Rightarrow> bool" where
  "channel_ok ch \<longleftrightarrow> ch_taken ch \<or> ch_slot ch = Pending \<or> ch_slot ch = Rx_gone"

lemma channel_ok_receive: "channel_ok ch \<Longrightarrow> receive ch = Some r \<Longrightarrow> ch_taken ch"
  by (auto simp: channel_ok_def receive_def)

lemma callback_call_taken:
  "snd (callback_call m args ch) = ch \<or> ch_taken (snd (callback_call m args ch))"
  by (cases "(m, args, ch)" rule: callback_call.cases; cases "ch_taken ch")
     (simp_all add: result_send_fresh)

lemma channel_ok_step: "channel_ok ch \<Longrightarrow> channel_ok (snd (channel_step m e ch))"
  using callback_call_taken [of m _ ch]
  by (cases e) (auto simp: channel_ok_def callback_freed_def receiver_dropped_def split: prod.splits,
      (metis snd_conv)+)

text \<open>Once the channel answers, it answers the same until its receiver is dropped.\<close>

lemma receive_stable:
  assumes "channel_ok ch" and "e \<noteq> Receiver_dropped" and "receive ch = Some r"
  shows "receive (snd (channel_step m e ch)) = Some r"
  using assms(2,3) channel_taken_step [of ch m e] channel_ok_receive [OF assms(1,3)]
  by (cases "channel_step m e ch") auto

definition handling_inv :: "'j handling \<Rightarrow> bool" where
  "handling_inv h \<longleftrightarrow>
     channel_ok (hd_channel h) \<and>
     (case hd_phase h of
        Racing \<Rightarrow> hd_signals h = 0
      | Cancelling \<Rightarrow> hd_cancelled h \<and> hd_signals h = 0
      | Awaiting_result \<Rightarrow> hd_cancelled h \<and> hd_signals h = 1
      | Finished (Inr j) \<Rightarrow> receive (hd_channel h) = Some (Inr j) \<and>
          (hd_signals h = 0 \<or> hd_signals h = 1 \<and> hd_cancelled h)
      | Finished (Inl (Processing_failed p)) \<Rightarrow> receive (hd_channel h) = Some (Inl p) \<and>
          (hd_signals h = 0 \<or> hd_signals h = 1 \<and> hd_cancelled h)
      | Finished (Inl (Scheduler_failed e)) \<Rightarrow> hd_cancelled h \<and> hd_signals h = 0
      | Finished (Inl (Bridge_failed e)) \<Rightarrow> False)"

lemma handling_inv_step:
  assumes "handling_inv h" and "handling_step m h h'"
  shows "handling_inv h'"
  using assms(2,1)
proof cases
  case (reported e)
  have "channel_ok (hd_channel h)" using assms(1) by (simp add: handling_inv_def)
  note stable = receive_stable [OF this reported(2)] and ok = channel_ok_step [OF this]
  show ?thesis
    using assms(1) ok stable unfolding reported(1) handling_inv_def
    by (auto split: phase.splits sum.splits handler_error.splits)
next
  case cancellation
  with assms(1) show ?thesis
    by (auto simp: handling_inv_def split: phase.splits sum.splits handler_error.splits)
next
  case (result_ready r)
  with assms(1) show ?thesis
    by (cases r) (auto simp: handling_inv_def see_result_def)
next
  case cancel_ready
  with assms(1) show ?thesis by (auto simp: handling_inv_def)
next
  case (cancel_done r)
  with assms(1) show ?thesis
    by (cases r) (auto simp: handling_inv_def cancel_returned_def channel_ok_def receiver_dropped_def)
next
  case (late_result r)
  with assms(1) show ?thesis
    by (cases r) (auto simp: handling_inv_def see_result_def)
qed

lemma handling_inv_run: "handling_run m h \<Longrightarrow> handling_inv h"
proof (induction rule: handling_run.induct)
  case begun
  show ?case by (simp add: handling_inv_def handling_start_def channel_ok_def result_channel_new_def)
next
  case (more h h')
  then show ?case using handling_inv_step by blast
qed

text \<open>
  What the worker of a task reports to its callback: the value of the block, or the exception
  it raised as an object (\<open>exn\<close>).
\<close>

definition worker_report :: "(rb_error \<Rightarrow> rvalue) \<Rightarrow> 'w ruby_code \<Rightarrow> 'w \<Rightarrow> rvalue list" where
  "worker_report exn f w =
     (case fst (f w) of Inr v \<Rightarrow> [RBool True, v] | Inl e \<Rightarrow> [RBool False, exn e])"

lemma worker_report_received:
  "receive (snd (callback_call c (worker_report exn f w) result_channel_new)) =
     Some (case fst (f w) of
       Inr v \<Rightarrow> map_err Transient (call_deserialize c v)
     | Inl e \<Rightarrow> Inl ((if is_permanent c (exn e) then Permanent else Transient) (error_string c (exn e))))"
  by (simp add: worker_report_def result_send_fresh result_channel_new_def receive_def
      task_outcome_def split: sum.splits)

subsection \<open>A sample handling\<close>

definition sample_message :: "int consumer_message" where
  "sample_message = \<lparr>cm_topic = ''orders'', cm_partition = 3, cm_offset = 42, cm_key = ''k'',
     cm_timestamp = 1, cm_payload = 9, cm_source_system = None, cm_response_requested = True\<rparr>"

definition sample_handling :: "int handling" where
  "sample_handling = see_result (Inr 3) (cancel_returned (Inr ())
     (handling_start\<lparr>hd_channel := snd (channel_step sample_callee
        (Callback [RBool True, RInteger 3]) result_channel_new),
      hd_cancelled := True\<rparr>))"

lemma sample_handling_run: "handling_run sample_callee sample_handling"
proof -
  let ?e = "Callback [RBool True, RInteger 3]"
  define h1 where "h1 = handling_start\<lparr>hd_channel := snd (channel_step sample_callee ?e result_channel_new)\<rparr>"
  define h2 where "h2 = h1\<lparr>hd_cancelled := True\<rparr>"
  define h3 where "h3 = h2\<lparr>hd_phase := Cancelling\<rparr>"
  define h4 where "h4 = cancel_returned (Inr ()) h3"
  note defs = h1_def h2_def h3_def h4_def handling_start_def cancel_returned_def
  have 0: "handling_run sample_callee handling_start" by (rule begun)
  have 1: "handling_step sample_callee handling_start h1"
    using reported [of ?e sample_callee handling_start] by (simp add: h1_def handling_start_def)
  have 2: "handling_step sample_callee h1 h2" unfolding h2_def by (rule cancellation)
  have 3: "handling_step sample_callee h2 h3"
    unfolding h3_def by (rule cancel_ready) (simp_all add: defs)
  have 4: "handling_step sample_callee h3 h4"
    unfolding h4_def by (rule cancel_done) (simp add: h3_def)
  have "receive (hd_channel h4) = Some (Inr 3)"
    by (simp add: defs result_send_fresh result_channel_new_def receive_def task_outcome_def
        sample_callee_def)
  then have 5: "handling_step sample_callee h4 (see_result (Inr 3) h4)"
    by (intro late_result) (simp_all add: defs)
  have "see_result (Inr 3) h4 = sample_handling"
    by (simp add: sample_handling_def defs see_result_def)
  with more [OF more [OF more [OF more [OF more [OF 0 1] 2] 3] 4] 5] show ?thesis by simp
qed

subsection \<open>Properties\<close>

text \<open>
  Task identifiers tell records apart: two records have the same one exactly when they
  have the same topic, partition and offset, whatever characters the topics contain.
\<close>

theorem record_task_id_unique:
  "record_task_id m = record_task_id n \<longleftrightarrow>
     cm_topic m = cm_topic n \<and> cm_partition m = cm_partition n \<and> cm_offset m = cm_offset n"
proof
  assume eq: "record_task_id m = record_task_id n"
  let ?p = "\<lambda>m. show_int (sint (cm_partition m))" and ?o = "\<lambda>m. show_int (sint (cm_offset m))"
  have "cm_topic m @ CHR ''/'' # (?p m @ CHR '':'' # ?o m) =
      cm_topic n @ CHR ''/'' # (?p n @ CHR '':'' # ?o n)"
    using eq by (simp add: record_task_id_def)
  from last_sep_unique [OF this] show_int_no_sep
  have topic: "cm_topic m = cm_topic n" and rest: "?p m @ CHR '':'' # ?o m = ?p n @ CHR '':'' # ?o n"
    by auto
  from first_sep_unique [OF rest show_int_no_sep(2) show_int_no_sep(2)]
  have "sint (cm_partition m) = sint (cm_partition n)" "sint (cm_offset m) = sint (cm_offset n)"
    by simp_all
  then have "cm_partition m = cm_partition n" "cm_offset m = cm_offset n"
    by (auto intro: signed_word_eqI)
  with topic show "cm_topic m = cm_topic n \<and> cm_partition m = cm_partition n \<and> cm_offset m = cm_offset n"
    by simp
qed (simp add: record_task_id_def)

text \<open>
  Cancellation is cooperative. However the callback, the core's cancellation and the two
  futures interleave, a finished handling returns exactly what the task's channel holds,
  except when the cancel call itself failed after a cancellation; without a cancellation the
  Ruby task is never signalled, with one it is signalled at most once.
\<close>

theorem handling_outcome:
  assumes "handling_run m h" and "hd_phase h = Finished r"
  shows "((\<exists>q. receive (hd_channel h) = Some q \<and> r = map_err Processing_failed q) \<or>
      hd_cancelled h \<and> (\<exists>e. r = Inl (Scheduler_failed e))) \<and>
    hd_signals h \<le> (if hd_cancelled h then 1 else 0)"
  using handling_inv_run [OF assms(1)] assms(2)
  by (auto simp: handling_inv_def split: sum.splits handler_error.splits)

theorem handling_outcome_witness:
  "\<exists>q. receive (hd_channel sample_handling) = Some q \<and> (Inr 3 :: handler_error + int) = map_err Processing_failed q"
  using handling_outcome [OF sample_handling_run, of "Inr 3"]
  by (simp add: sample_handling_def see_result_def cancel_returned_def)

text \<open>
  What the core receives for a message or an excision: the handler's value as JSON when
  the producer asked for a response and JSON of \<open>nil\<close> otherwise; for an exception the error
  with its permanence. The task calls the handler method of the event's own kind, once, with
  the event and its demand.
\<close>

theorem record_outcome:
  "receive (snd (callback_call c
      (worker_report exn (task_function (on_message handler carrier m d)) w) result_channel_new)) =
     Some (case fst (handler ''on_message'' d (Message_arg m) w) of
        Inr v \<Rightarrow> map_err Transient (call_deserialize c (if cm_response_requested m then v else RNil))
      | Inl e \<Rightarrow> Inl ((if is_permanent c (exn e) then Permanent else Transient) (error_string c (exn e)))) \<and>
   receive (snd (callback_call c
      (worker_report exn (task_function (on_excise handler carrier x d)) w) result_channel_new)) =
     Some (case fst (handler ''on_excise'' d (Excise_arg x) w) of
        Inr v \<Rightarrow> map_err Transient (call_deserialize c (if cm_response_requested x then v else RNil))
      | Inl e \<Rightarrow> Inl ((if is_permanent c (exn e) then Permanent else Transient) (error_string c (exn e))))"
  by (simp add: worker_report_received on_message_def on_excise_def handle_record_def Let_def
      split: prod.splits sum.splits)

text \<open>
  Timers of the middleware never reach Ruby: they are answered with null without a task.
  An application's timer becomes a task that calls \<open>on_timer\<close> and reports \<open>nil\<close> whatever the
  handler returned.
\<close>

theorem timer_outcome:
  "(case on_timer show_time handler carrier t d of
      Answer_null \<Rightarrow> tr_type t \<noteq> Application
    | Dispatch task \<Rightarrow>
        tr_type t = Application \<and>
        receive (snd (callback_call c (worker_report exn (task_function task) w) result_channel_new)) =
          Some (case fst (handler ''on_timer'' d (Timer_arg t) w) of
             Inr v \<Rightarrow> map_err Transient (call_deserialize c RNil)
           | Inl e \<Rightarrow> Inl ((if is_permanent c (exn e) then Permanent else Transient) (error_string c (exn e)))))"
  by (simp add: worker_report_received on_timer_def split: prod.splits sum.splits)

end
