(* ===== verification/Workers.thy ===== *)
theory Workers
  imports Handler
begin

text \<open>
  What happens to a task once the processor has started it: the worker and the cancellation
  watcher of \<open>run_with_cancellation\<close> (lib/prosody/processor.rb), and, running beside them on
  the Rust side, the handling of the record (\<open>handle_record\<close> and \<open>on_timer\<close>). They share the
  result channel and the task's cancellation token.
\<close>

subsection \<open>The worker\<close>

text \<open>
  How the task's block ends. \<open>Escaped\<close> is what the worker's rescue clauses do not report: an
  exception outside \<open>StandardError\<close> other than \<open>Async::Stop\<close>, or an exception raised while
  the failure is passed to Sentry. Worker_Body derives it from the worker's code.
\<close>

datatype block_end = Returned rvalue | Raised rb_error | Stopped | Escaped

datatype worker_phase =
    In_block
  | Reported block_end \<comment> \<open>after the callback, logging\<close>
  | Left block_end \<comment> \<open>the \<open>ensure\<close> has signalled the token\<close>
  | Gone block_end \<comment> \<open>the barrier has stopped the watcher\<close>

record worker =
  wk_phase :: worker_phase
  wk_token :: nat \<comment> \<open>signals in the token's queue\<close>
  wk_watching :: bool \<comment> \<open>the watcher has not got a signal yet\<close>
  wk_stop :: bool \<comment> \<open>an \<open>Async::Stop\<close> is on its way to the worker\<close>
  wk_torn :: bool \<comment> \<open>the processor's reactor itself is being stopped\<close>
  wk_collected :: bool \<comment> \<open>Ruby has collected the callback\<close>

definition worker_start :: worker where
  "worker_start = \<lparr>wk_phase = In_block, wk_token = 0, wk_watching = True, wk_stop = False,
     wk_torn = False, wk_collected = False\<rparr>"

text \<open>What the worker reports for each end of its block.\<close>

fun end_reports :: "(rb_error \<Rightarrow> rvalue) \<Rightarrow> block_end \<Rightarrow> channel_event list" where
  "end_reports exn (Returned v) = [Callback [RBool True, v]]"
| "end_reports exn (Raised e) = [Callback [RBool False, exn e]]"
| "end_reports exn Stopped = [Callback [RBool False, exn (runtime_error ''Task cancelled'')]]"
| "end_reports exn Escaped = []"

text \<open>
  The steps, with what they do to the result channel. The watcher stops the worker when it
  gets a signal; the reactor stops every task it still has when it is torn down. A block that is told to stop may rescue
  \<open>Async::Stop\<close> and go on; an exception raised while a success is logged is reported like
  one of the block, to a channel that has been used.
\<close>

inductive worker_step :: "(rb_error \<Rightarrow> rvalue) \<Rightarrow> worker \<Rightarrow> channel_event list \<Rightarrow> worker \<Rightarrow> bool" for exn
where
  block_ends: "wk_phase w = In_block \<Longrightarrow> e = Stopped \<longrightarrow> wk_stop w \<Longrightarrow>
     worker_step exn w (end_reports exn e) (w\<lparr>wk_phase := Reported e, wk_stop := False\<rparr>)"
| stop_rescued: "wk_phase w = In_block \<Longrightarrow> wk_stop w \<Longrightarrow> worker_step exn w [] (w\<lparr>wk_stop := False\<rparr>)"
| logging_raises: "wk_phase w = Reported (Returned v) \<Longrightarrow>
     worker_step exn w [Callback [RBool False, exn d]] w"
| ensured: "wk_phase w = Reported e \<Longrightarrow>
     worker_step exn w [] (w\<lparr>wk_phase := Left e, wk_token := Suc (wk_token w)\<rparr>)"
| watcher_wakes: "wk_watching w \<Longrightarrow> wk_token w = Suc n \<Longrightarrow> (\<forall>e. wk_phase w \<noteq> Gone e) \<Longrightarrow>
     worker_step exn w [] (w\<lparr>wk_watching := False, wk_token := n,
       wk_stop := (wk_phase w = In_block)\<rparr>)"
| torn_down: "wk_phase w = In_block \<Longrightarrow>
     worker_step exn w [] (w\<lparr>wk_stop := True, wk_torn := True\<rparr>)"
| barrier_stopped: "wk_phase w = Left e \<Longrightarrow>
     worker_step exn w [] (w\<lparr>wk_phase := Gone e, wk_watching := False\<rparr>)"
| collected: "wk_phase w = Gone e \<Longrightarrow>
     worker_step exn w [Callback_freed] (w\<lparr>wk_collected := True\<rparr>)"

subsection \<open>Worker and handling together\<close>

text \<open>
  A cancel signal that \<open>CancellationToken::cancel\<close> delivers is one more entry of the token's
  queue; every other step of the handling leaves the worker alone.
\<close>

inductive task_step ::
  "'j callee \<Rightarrow> (rb_error \<Rightarrow> rvalue) \<Rightarrow> worker \<times> 'j handling \<Rightarrow> worker \<times> 'j handling \<Rightarrow> bool" for c exn
where
  working: "worker_step exn w evs w' \<Longrightarrow>
     task_step c exn (w, h) (w', h\<lparr>hd_channel := snd (channel_run c evs (hd_channel h))\<rparr>)"
| cancelling: "task_step c exn (w, h) (w, h\<lparr>hd_cancelled := True\<rparr>)"
| racing_result: "hd_phase h = Racing \<Longrightarrow> receive (hd_channel h) = Some r \<Longrightarrow>
     task_step c exn (w, h) (w, see_result r h)"
| racing_cancel: "hd_phase h = Racing \<Longrightarrow> hd_cancelled h \<Longrightarrow>
     task_step c exn (w, h) (w, h\<lparr>hd_phase := Cancelling\<rparr>)"
| signalled: "hd_phase h = Cancelling \<Longrightarrow>
     task_step c exn (w, h) (w\<lparr>wk_token := Suc (wk_token w)\<rparr>, cancel_returned (Inr ()) h)"
| signal_failed: "hd_phase h = Cancelling \<Longrightarrow> task_step c exn (w, h) (w, cancel_returned (Inl e) h)"
| awaited_result: "hd_phase h = Awaiting_result \<Longrightarrow> receive (hd_channel h) = Some r \<Longrightarrow>
     task_step c exn (w, h) (w, see_result r h)"

inductive task_run :: "'j callee \<Rightarrow> (rb_error \<Rightarrow> rvalue) \<Rightarrow> worker \<times> 'j handling \<Rightarrow> bool" for c exn
where
  task_begun: "task_run c exn (worker_start, handling_start)"
| task_more: "task_run c exn s \<Longrightarrow> task_step c exn s s' \<Longrightarrow> task_run c exn s'"

inductive_cases worker_stepE: "worker_step exn w evs w'"

text \<open>The handling's own steps are those of \<open>handling_step\<close>.\<close>

lemma handling_reports:
  "Receiver_dropped \<notin> set evs \<Longrightarrow> handling_run c h \<Longrightarrow>
     handling_run c (h\<lparr>hd_channel := snd (channel_run c evs (hd_channel h))\<rparr>)"
proof (induction evs arbitrary: h)
  case (Cons e evs)
  let ?h = "h\<lparr>hd_channel := snd (channel_step c e (hd_channel h))\<rparr>"
  have "handling_run c ?h"
    using Cons.prems by (intro more [OF Cons.prems(2)] reported) auto
  from Cons.IH [OF _ this] Cons.prems(1) show ?case
    by (simp add: case_prod_beta)
qed simp

lemma end_reports_kept [simp]: "Receiver_dropped \<notin> set (end_reports exn e)"
  by (cases e) simp_all

lemma worker_events: "worker_step exn w evs w' \<Longrightarrow> Receiver_dropped \<notin> set evs"
  by (cases rule: worker_step.cases) auto

lemma task_run_handling: "task_run c exn (w, h) \<Longrightarrow> handling_run c h"
proof (induction "(w, h)" arbitrary: w h rule: task_run.induct)
  case task_begun
  show ?case by (rule begun)
next
  case (task_more s)
  obtain w0 h0 where s: "s = (w0, h0)" by (cases s)
  with task_more have run: "handling_run c h0" by blast
  from task_more(3) [unfolded s] show ?case
  proof cases
    case (working evs)
    then show ?thesis using handling_reports [OF worker_events run] by blast
  qed (use run in \<open>blast intro: more handling_step.intros\<close>)+
qed

subsection \<open>The invariant\<close>

text \<open>The outcome that the channel holds once the block has ended.\<close>

fun end_outcome :: "'j callee \<Rightarrow> (rb_error \<Rightarrow> rvalue) \<Rightarrow> block_end \<Rightarrow> processing_error + 'j" where
  "end_outcome c exn (Returned v) = task_outcome c True v"
| "end_outcome c exn (Raised e) = task_outcome c False (exn e)"
| "end_outcome c exn Stopped = task_outcome c False (exn (runtime_error ''Task cancelled''))"
| "end_outcome c exn Escaped = Inl Closed"

fun phase_end :: "worker_phase \<Rightarrow> block_end option" where
  "phase_end In_block = None"
| "phase_end (Reported e) = Some e"
| "phase_end (Left e) = Some e"
| "phase_end (Gone e) = Some e"

text \<open>
  The channel by the worker: fresh while the block runs and after an escape, then filled with
  the end's outcome; closed if the callback was collected unused. In each case the receiver
  may have been dropped.
\<close>

definition channel_matches :: "'j callee \<Rightarrow> (rb_error \<Rightarrow> rvalue) \<Rightarrow> worker \<Rightarrow> 'j result_channel \<Rightarrow> bool" where
  "channel_matches c exn w ch \<longleftrightarrow>
     (case phase_end (wk_phase w) of
        None \<Rightarrow> \<not> ch_taken ch \<and> (ch_slot ch = Pending \<or> ch_slot ch = Rx_gone)
      | Some e \<Rightarrow>
          if e = Escaped then
            ch_taken ch = wk_collected w \<and>
            (ch_slot ch = (if wk_collected w then Tx_gone else Pending) \<or> ch_slot ch = Rx_gone)
          else ch_taken ch \<and> (ch_slot ch = Filled (end_outcome c exn e) \<or> ch_slot ch = Rx_gone))"

definition task_inv :: "'j callee \<Rightarrow> (rb_error \<Rightarrow> rvalue) \<Rightarrow> worker \<times> 'j handling \<Rightarrow> bool" where
  "task_inv c exn = (\<lambda>(w, h).
     channel_matches c exn w (hd_channel h) \<and>
     (wk_collected w \<longrightarrow> (\<exists>e. wk_phase w = Gone e)) \<and>
     (wk_stop w \<longrightarrow> wk_phase w = In_block \<and> (hd_cancelled h \<or> wk_torn w)) \<and>
     (phase_end (wk_phase w) = Some Stopped \<longrightarrow> hd_cancelled h \<or> wk_torn w) \<and>
     (wk_phase w = In_block \<longrightarrow> 0 < wk_token w \<longrightarrow> hd_cancelled h) \<and>
     (hd_phase h \<noteq> Racing \<longrightarrow> hd_cancelled h \<or> (\<exists>r. hd_phase h = Finished r)))"

lemma channel_matches_idle:
  "channel_matches c exn w ch \<Longrightarrow> phase_end (wk_phase w') = phase_end (wk_phase w) \<Longrightarrow>
     wk_collected w' = wk_collected w \<Longrightarrow> channel_matches c exn w' ch"
  by (simp only: channel_matches_def)

lemma channel_matches_dropped:
  "channel_matches c exn w ch \<Longrightarrow> channel_matches c exn w (receiver_dropped ch)"
  by (auto simp: channel_matches_def receiver_dropped_def split: option.splits if_splits)

lemma channel_matches_reports:
  assumes "channel_matches c exn w ch" and "wk_phase w = In_block" and "\<not> wk_collected w"
  shows "channel_matches c exn (w\<lparr>wk_phase := Reported e, wk_stop := False\<rparr>)
    (snd (channel_run c (end_reports exn e) ch))"
  using assms
  by (cases e) (auto simp: channel_matches_def result_send_fresh)

lemma channel_matches_again:
  assumes "channel_matches c exn w ch" and "phase_end (wk_phase w) = Some e" and "e \<noteq> Escaped"
  shows "snd (callback_call c (s # v # rest) ch) = ch"
  using assms by (simp add: channel_matches_def)

lemma channel_matches_freed:
  assumes "channel_matches c exn w ch" and "wk_phase w = Gone e"
  shows "channel_matches c exn (w\<lparr>wk_collected := True\<rparr>) (callback_freed ch)"
  using assms by (auto simp: channel_matches_def callback_freed_def split: if_splits)

lemma task_inv_worker:
  assumes "worker_step exn w evs w'" and "task_inv c exn (w, h)"
  shows "task_inv c exn (w', h\<lparr>hd_channel := snd (channel_run c evs (hd_channel h))\<rparr>)"
  using assms(1)
proof cases
  case (block_ends e)
  then show ?thesis
    using assms(2) channel_matches_reports [of c exn w "hd_channel h" e]
    by (auto simp: task_inv_def)
next
  case (logging_raises v d)
  have "snd (callback_call c [RBool False, exn d] (hd_channel h)) = hd_channel h"
    by (rule channel_matches_again [of c exn w _ "Returned v"])
      (use assms(2) logging_raises in \<open>simp_all add: task_inv_def\<close>)
  with logging_raises show ?thesis
    using assms(2) by (simp add: case_prod_beta del: callback_call.simps)
next
  case (collected e)
  then show ?thesis
    using assms(2) channel_matches_freed [of c exn w "hd_channel h" e]
    by (auto simp: task_inv_def)
qed (use assms(2) in \<open>auto simp: task_inv_def elim!: channel_matches_idle\<close>)

lemma task_inv_step:
  assumes "task_inv c exn s" and "task_step c exn s s'"
  shows "task_inv c exn s'"
  using assms(2,1)
proof cases
  case (working w evs w' h)
  then show ?thesis using task_inv_worker assms(1) by blast
qed (auto simp: task_inv_def see_result_def cancel_returned_def channel_matches_dropped
    elim: channel_matches_idle)

lemma task_inv_run: "task_run c exn s \<Longrightarrow> task_inv c exn s"
proof (induction rule: task_run.induct)
  case task_begun
  show ?case
    by (simp add: task_inv_def channel_matches_def worker_start_def handling_start_def
        result_channel_new_def)
next
  case (task_more s s')
  then show ?case using task_inv_step by blast
qed

text \<open>What a receiver can see of a matching channel.\<close>

lemma channel_matches_receive:
  assumes "channel_matches c exn w ch" and "receive ch = Some r"
  obtains e where "phase_end (wk_phase w) = Some e" and "r = end_outcome c exn e"
    and "e = Escaped \<Longrightarrow> wk_collected w"
  using assms by (auto simp: channel_matches_def receive_def split: option.splits if_splits)

lemma task_finished:
  assumes "task_run c exn (w, h)" and "hd_phase h = Finished r"
  obtains q where "receive (hd_channel h) = Some q" and "r = map_err Processing_failed q"
    | e where "hd_cancelled h" and "r = Inl (Scheduler_failed e)"
  using handling_inv_run [OF task_run_handling [OF assms(1)]] assms(2)
  by (auto simp: handling_inv_def split: sum.splits handler_error.splits)

subsection \<open>Cancel signals\<close>

text \<open>
  While the block runs, every cancel signal sent is in the token's queue or was the one that
  woke the watcher.
\<close>

definition signals_inv :: "worker \<times> 'j handling \<Rightarrow> bool" where
  "signals_inv = (\<lambda>(w, h). wk_phase w = In_block \<longrightarrow>
     wk_token w + (if wk_watching w then 0 else 1) = hd_signals h)"

lemma signals_inv_worker:
  "worker_step exn w evs w' \<Longrightarrow> signals_inv (w, h) \<Longrightarrow> signals_inv (w', h\<lparr>hd_channel := ch\<rparr>)"
  by (cases rule: worker_step.cases) (auto simp: signals_inv_def)

lemma signals_inv_step:
  assumes "signals_inv s" and "task_step c exn s s'"
  shows "signals_inv s'"
  using assms(2,1)
proof cases
  case (working w evs w' h)
  then show ?thesis using signals_inv_worker assms(1) by blast
qed (auto simp: signals_inv_def see_result_def cancel_returned_def)

lemma signals_inv_run: "task_run c exn s \<Longrightarrow> signals_inv s"
proof (induction rule: task_run.induct)
  case task_begun
  show ?case by (simp add: signals_inv_def worker_start_def handling_start_def)
next
  case (task_more s s')
  then show ?case using signals_inv_step by blast
qed

subsection \<open>Progress\<close>

text \<open>The receiver goes away only with a handling that ended by a failed cancel call.\<close>

lemma callback_call_rx:
  "ch_slot (snd (callback_call c args ch)) = Rx_gone \<longleftrightarrow> ch_slot ch = Rx_gone"
  by (cases "(c, args, ch)" rule: callback_call.cases; cases "ch_taken ch")
     (simp_all add: result_send_fresh split: oneshot.split)

lemma channel_step_rx:
  "e \<noteq> Receiver_dropped \<Longrightarrow> ch_slot (snd (channel_step c e ch)) = Rx_gone \<longleftrightarrow> ch_slot ch = Rx_gone"
  using callback_call_rx [of c _ ch]
  by (cases e) (auto simp: callback_freed_def case_prod_beta split: oneshot.splits)

definition receiver_inv :: "'j handling \<Rightarrow> bool" where
  "receiver_inv h \<longleftrightarrow>
     (ch_slot (hd_channel h) = Rx_gone \<longrightarrow> (\<exists>e. hd_phase h = Finished (Inl (Scheduler_failed e))))"

lemma receiver_inv_step: "handling_step c h h' \<Longrightarrow> receiver_inv h \<Longrightarrow> receiver_inv h'"
proof (induction rule: handling_step.induct)
  case (result_ready h r)
  then show ?case by (simp add: receiver_inv_def see_result_def)
next
  case (late_result h r)
  then show ?case by (simp add: receiver_inv_def see_result_def)
next
  case (cancel_done h r)
  then show ?case
    by (cases r) (simp_all add: receiver_inv_def cancel_returned_def receiver_dropped_def)
qed (simp_all add: receiver_inv_def channel_step_rx)

lemma receiver_inv_run: "handling_run c h \<Longrightarrow> receiver_inv h"
proof (induction rule: handling_run.induct)
  case begun
  show ?case by (simp add: receiver_inv_def handling_start_def result_channel_new_def)
next
  case (more h h')
  then show ?case using receiver_inv_step by blast
qed

lemma ended_block_received:
  assumes "task_run c exn (w, h)" and "phase_end (wk_phase w) = Some e" and "e = Escaped \<longrightarrow> wk_collected w"
    and "\<forall>r. hd_phase h \<noteq> Finished r"
  shows "receive (hd_channel h) = Some (end_outcome c exn e)"
proof -
  have "ch_slot (hd_channel h) \<noteq> Rx_gone"
    using receiver_inv_run [OF task_run_handling [OF assms(1)]] assms(4) by (auto simp: receiver_inv_def)
  with task_inv_run [OF assms(1)] assms(2,3) show ?thesis
    by (auto simp: task_inv_def channel_matches_def receive_def split: if_splits)
qed

subsection \<open>Sample runs\<close>

text \<open>A block that answers a cancellation with \<open>Async::Stop\<close>, and one that escapes.\<close>

lemma task_more_worker:
  "task_run c exn (w, h) \<Longrightarrow> worker_step exn w evs w' \<Longrightarrow>
     h' = h\<lparr>hd_channel := snd (channel_run c evs (hd_channel h))\<rparr> \<Longrightarrow> task_run c exn (w', h')"
  using task_more working by blast

definition stopping_worker :: worker where
  "stopping_worker = worker_start\<lparr>wk_watching := False, wk_stop := True\<rparr>"

definition signalled_handling :: "'j handling" where
  "signalled_handling = handling_start\<lparr>hd_cancelled := True, hd_phase := Awaiting_result, hd_signals := 1\<rparr>"

lemma signalled_run: "task_run c exn (worker_start\<lparr>wk_token := 1\<rparr>, signalled_handling)"
proof -
  have "task_run c exn (worker_start, handling_start\<lparr>hd_cancelled := True\<rparr>)"
    by (rule task_more [OF task_begun cancelling])
  from task_more [OF this racing_cancel]
  have "task_run c exn (worker_start, handling_start\<lparr>hd_cancelled := True, hd_phase := Cancelling\<rparr>)"
    by (simp add: handling_start_def)
  from task_more [OF this signalled] show ?thesis
    by (simp add: handling_start_def signalled_handling_def worker_start_def cancel_returned_def)
qed

lemma stopping_run: "task_run c exn (stopping_worker, signalled_handling)"
  by (rule task_more_worker [OF signalled_run])
     (use watcher_wakes [of "worker_start\<lparr>wk_token := 1\<rparr>" 0 exn] in
       \<open>auto simp: stopping_worker_def worker_start_def\<close>)

definition stopped_channel :: "'j callee \<Rightarrow> (rb_error \<Rightarrow> rvalue) \<Rightarrow> 'j result_channel" where
  "stopped_channel c exn = snd (channel_run c (end_reports exn Stopped) result_channel_new)"

lemma stopped_run:
  "task_run c exn (stopping_worker\<lparr>wk_phase := Reported Stopped, wk_stop := False\<rparr>,
     signalled_handling\<lparr>hd_channel := stopped_channel c exn\<rparr>)"
  by (rule task_more_worker [OF stopping_run])
     (use block_ends [of stopping_worker Stopped exn] in
       \<open>auto simp: stopping_worker_def worker_start_def signalled_handling_def handling_start_def
         stopped_channel_def\<close>)

lemma stopped_seen:
  "task_run c exn (stopping_worker\<lparr>wk_phase := Reported Stopped, wk_stop := False\<rparr>,
     see_result (end_outcome c exn Stopped) (signalled_handling\<lparr>hd_channel := stopped_channel c exn\<rparr>))"
  by (rule task_more [OF stopped_run awaited_result])
     (simp_all add: signalled_handling_def stopped_channel_def receive_def result_channel_new_def
       result_send_fresh)

definition escaped_worker :: worker where
  "escaped_worker = worker_start\<lparr>wk_phase := Gone Escaped, wk_token := 1, wk_watching := False,
     wk_collected := True\<rparr>"

lemma escaped_run:
  "task_run c exn (escaped_worker, handling_start\<lparr>hd_channel := callback_freed result_channel_new\<rparr>)"
proof -
  let ?r = "worker_start\<lparr>wk_phase := Reported Escaped\<rparr>"
  have "task_run c exn (?r, handling_start)"
    by (rule task_more_worker [OF task_begun])
       (use block_ends [of worker_start Escaped exn] in \<open>auto simp: worker_start_def\<close>)
  then have "task_run c exn (?r\<lparr>wk_phase := Left Escaped, wk_token := 1\<rparr>, handling_start)"
    by (rule task_more_worker) (use ensured [of ?r Escaped exn] in \<open>auto simp: worker_start_def\<close>)
  then have "task_run c exn (?r\<lparr>wk_phase := Gone Escaped, wk_token := 1, wk_watching := False\<rparr>, handling_start)"
    by (rule task_more_worker)
       (use barrier_stopped [of "?r\<lparr>wk_phase := Left Escaped, wk_token := 1\<rparr>" Escaped exn] in
         \<open>auto simp: worker_start_def\<close>)
  then show ?thesis
    by (rule task_more_worker)
       (use collected [of "?r\<lparr>wk_phase := Gone Escaped, wk_token := 1, wk_watching := False\<rparr>" Escaped exn] in
         \<open>auto simp: worker_start_def escaped_worker_def handling_start_def\<close>)
qed

lemma escaped_seen:
  "task_run c exn (escaped_worker,
     see_result (Inl Closed) (handling_start\<lparr>hd_channel := callback_freed result_channel_new\<rparr>))"
  by (rule task_more [OF escaped_run racing_result])
     (simp_all add: handling_start_def callback_freed_def result_channel_new_def receive_def)

subsection \<open>Properties\<close>

text \<open>
  C5: A task's outcome is its block's own. However the worker, its watcher, the core's
  cancellation, the garbage collector and the handling interleave, a handling that ends
  returns what the block ended with, even when it was cancelled first; the block is reported
  as cancelled only if the core cancelled the task or the processor was torn down; only the
  failure of the cancel call itself replaces the block's outcome.
\<close>

theorem task_outcome_faithful:
  assumes "task_run c exn (w, h)" and "hd_phase h = Finished r"
  shows "(\<exists>e. phase_end (wk_phase w) = Some e \<and> r = map_err Processing_failed (end_outcome c exn e) \<and>
        (e = Stopped \<longrightarrow> hd_cancelled h \<or> wk_torn w) \<and> (e = Escaped \<longrightarrow> wk_collected w)) \<or>
    hd_cancelled h \<and> (\<exists>e. r = Inl (Scheduler_failed e))"
proof -
  from task_inv_run [OF assms(1)]
  have inv: "channel_matches c exn w (hd_channel h)"
    "phase_end (wk_phase w) = Some Stopped \<longrightarrow> hd_cancelled h \<or> wk_torn w"
    by (simp_all add: task_inv_def)
  from assms show ?thesis
  proof (cases rule: task_finished)
    case 1
    from channel_matches_receive [OF inv(1) this(1)] inv(2) 1(2) show ?thesis by metis
  qed blast
qed

theorem task_outcome_faithful_witness:
  "Inl (Processing_failed (Transient ''inspected'')) = map_err Processing_failed (end_outcome sample_callee (\<lambda>_. RObject 0) Stopped)"
  using task_outcome_faithful [OF stopped_seen [of sample_callee "\<lambda>_. RObject 0"]]
  by (simp add: see_result_def stopping_worker_def signalled_handling_def handling_start_def
      worker_start_def task_outcome_def sample_callee_def is_permanent_def error_string_def)





text \<open>
  C34: What escapes the worker's rescue clauses is never reported: until Ruby collects the
  callback the handling can only end by a failed cancel call, and afterwards it ends with the
  closed channel, a transient error, so the record is handled again.
\<close>

theorem escaped_task_unreported:
  assumes "task_run c exn (w, h)" and "phase_end (wk_phase w) = Some Escaped"
    and "hd_phase h = Finished r"
  shows "(\<exists>e. r = Inl e \<and> classify_error e = Category_transient) \<and>
    (wk_collected w \<and> r = Inl (Processing_failed Closed) \<or> hd_cancelled h \<and> (\<exists>e. r = Inl (Scheduler_failed e)))"
proof -
  from task_inv_run [OF assms(1)] assms(2)
  have ch: "ch_slot (hd_channel h) = (if wk_collected w then Tx_gone else Pending) \<or> ch_slot (hd_channel h) = Rx_gone"
    by (simp add: task_inv_def channel_matches_def)
  from assms(1,3) show ?thesis
    by (cases rule: task_finished) (use ch in \<open>auto simp: receive_def split: if_splits\<close>)
qed

theorem escaped_task_unreported_witness:
  "\<exists>w h. task_run sample_callee (\<lambda>_. RNil) (w, h) \<and> wk_collected w \<and>
     hd_phase h = Finished (Inl (Processing_failed Closed))"
proof -
  let ?h = "see_result (Inl Closed) (handling_start\<lparr>hd_channel := callback_freed result_channel_new\<rparr>) :: int handling"
  have "phase_end (wk_phase escaped_worker) = Some Escaped" "hd_phase ?h = Finished (Inl (Processing_failed Closed))"
    "\<not> hd_cancelled ?h"
    by (simp_all add: escaped_worker_def see_result_def handling_start_def)
  with escaped_task_unreported [OF escaped_seen [of sample_callee "\<lambda>_. RNil"]] escaped_seen
  show ?thesis by metis
qed

end
