(* ===== verification/Handler_Classes.thy ===== *)
theory Handler_Classes
  imports Workers
begin

text \<open>
  lib/prosody/handler.rb: handler objects by the modules their method lookup visits, the
  validation of a handler at subscription, the \<open>permanent\<close> and \<open>transient\<close> decorators, and
  the error classes. An object's methods are found as Ruby finds them: the first module that
  defines the name answers, and a decorator's wrapper calls the next one with \<open>super\<close>.
\<close>

subsection \<open>Modules and methods\<close>

datatype param_kind =
    Param_req | Param_opt | Param_rest | Param_keyreq | Param_key | Param_keyrest | Param_block

text \<open>A method body gets its two arguments as one value and may do anything to the Ruby heap.\<close>

record ('a, 'w) method_def =
  md_params :: "param_kind list"
  md_private :: bool
  md_body :: "'a \<Rightarrow> 'w \<Rightarrow> (rb_error + rvalue) \<times> 'w"

datatype ('a, 'w) rb_module =
    Plain_module string "string \<Rightarrow> ('a, 'w) method_def option"
  | Error_wrapper string "rb_class list" rb_class \<comment> \<open>method, rescued classes, raised class\<close>

fun is_wrapper :: "('a, 'w) rb_module \<Rightarrow> bool" where
  "is_wrapper (Plain_module _ _) = False"
| "is_wrapper (Error_wrapper _ _ _) = True"

fun is_event_handler :: "('a, 'w) rb_module \<Rightarrow> bool" where
  "is_event_handler (Plain_module n _) = (n = ''Prosody::EventHandler'')"
| "is_event_handler (Error_wrapper _ _ _) = False"

fun has_method :: "string \<Rightarrow> ('a, 'w) rb_module \<Rightarrow> bool" where
  "has_method name (Plain_module _ ms) = (ms name \<noteq> None)"
| "has_method name (Error_wrapper n _ _) = (n = name)"

fun module_params :: "string \<Rightarrow> ('a, 'w) rb_module \<Rightarrow> param_kind list" where
  "module_params name (Plain_module _ ms) = (case ms name of None \<Rightarrow> [] | Some md \<Rightarrow> md_params md)"
| "module_params name (Error_wrapper _ _ _) = [Param_rest, Param_block]"

fun module_private :: "string \<Rightarrow> ('a, 'w) rb_module \<Rightarrow> bool" where
  "module_private name (Plain_module _ ms) = (case ms name of None \<Rightarrow> False | Some md \<Rightarrow> md_private md)"
| "module_private name (Error_wrapper _ _ _) = False"

text \<open>
  A handler object: the modules of its singleton class and the ancestors of its class, each
  list in lookup order.
\<close>

record ('a, 'w) handler_object =
  ho_singleton :: "('a, 'w) rb_module list"
  ho_ancestors :: "('a, 'w) rb_module list"

definition method_chain :: "('a, 'w) handler_object \<Rightarrow> string \<Rightarrow> ('a, 'w) rb_module list" where
  "method_chain h name = filter (has_method name) (ho_singleton h @ ho_ancestors h)"

subsection \<open>Calling a method\<close>

text \<open>Ruby's check of a call with \<open>n\<close> positional arguments.\<close>

definition arity_ok :: "nat \<Rightarrow> param_kind list \<Rightarrow> bool" where
  "arity_ok n ps \<longleftrightarrow>
     Param_keyreq \<notin> set ps \<and> count_list ps Param_req \<le> n \<and>
     (Param_rest \<in> set ps \<or> n \<le> count_list ps Param_req + count_list ps Param_opt)"

definition rewrap :: "(rb_class \<Rightarrow> rb_class \<Rightarrow> bool) \<Rightarrow> rb_class list \<Rightarrow> rb_class \<Rightarrow> rb_error \<Rightarrow> rb_error" where
  "rewrap is_a cs k e = (if \<exists>c\<in>set cs. is_a (err_class e) c then Rb_error k (err_msg e) else e)"

fun call_chain ::
  "(rb_class \<Rightarrow> rb_class \<Rightarrow> bool) \<Rightarrow> ('a, 'w) rb_module list \<Rightarrow> string \<Rightarrow> 'a \<Rightarrow> 'w \<Rightarrow>
    (rb_error + rvalue) \<times> 'w"
where
  "call_chain is_a [] name a w = (Inl (Rb_error (Core_class ''NoMethodError'') name), w)"
| "call_chain is_a (Plain_module _ ms # rest) name a w =
     (case ms name of
        None \<Rightarrow> call_chain is_a rest name a w
      | Some md \<Rightarrow>
          if arity_ok 2 (md_params md) then md_body md a w
          else (Inl (argument_error ''wrong number of arguments''), w))"
| "call_chain is_a (Error_wrapper n cs k # rest) name a w =
     (if n \<noteq> name then call_chain is_a rest name a w
      else case call_chain is_a rest name a w of
          (Inl e, w) \<Rightarrow> (Inl (rewrap is_a cs k e), w)
        | (Inr v, w) \<Rightarrow> (Inr v, w))"

definition handler_methods ::
  "(rb_class \<Rightarrow> rb_class \<Rightarrow> bool) \<Rightarrow> (demand_type \<times> 'p handler_arg, 'w) handler_object \<Rightarrow>
    ('p, 'w) user_handler"
where
  "handler_methods is_a h name d arg w =
     call_chain is_a (ho_singleton h @ ho_ancestors h) name (d, arg) w"

subsection \<open>Validation\<close>

definition HANDLER_METHODS :: "string list" where
  "HANDLER_METHODS = [''on_message'', ''on_excise'', ''on_timer'']"

definition accepts_two_parameters :: "param_kind list \<Rightarrow> bool" where
  "accepts_two_parameters parameters =
     (let required = length (filter (\<lambda>kind. kind = Param_req) parameters);
          positional = length (filter (\<lambda>kind. kind = Param_req \<or> kind = Param_opt) parameters);
          has_rest = list_ex (\<lambda>kind. kind = Param_rest) parameters;
          has_required_keyword = list_ex (\<lambda>kind. kind = Param_keyreq) parameters
      in \<not> has_required_keyword \<and> required \<le> 2 \<and> (has_rest \<or> positional \<ge> 2))"

definition must_implement :: "string \<Rightarrow> rb_error" where
  "must_implement name = argument_error (''handler must implement #'' @ name)"

definition validate_method ::
  "('a, 'w) handler_object \<Rightarrow> ('a, 'w) rb_module list \<Rightarrow> string \<Rightarrow> rb_error + unit"
where
  "validate_method h owners name =
     (if \<not> list_ex (\<lambda>owner. \<not> is_wrapper owner \<and> has_method name owner) owners
      then Inl (must_implement name)
      else case dropWhile is_wrapper (method_chain h name) of
          [] \<Rightarrow> Inl (must_implement name)
        | owner # _ \<Rightarrow>
            if accepts_two_parameters (module_params name owner) then Inr ()
            else Inl (argument_error (''handler #'' @ name @ '' must accept two parameters'')))"

fun validate_methods ::
  "('a, 'w) handler_object \<Rightarrow> ('a, 'w) rb_module list \<Rightarrow> string list \<Rightarrow> rb_error + unit"
where
  "validate_methods h owners [] = Inr ()"
| "validate_methods h owners (name # names) =
     res_bind (validate_method h owners name) (\<lambda>_. validate_methods h owners names)"

definition handler_owners :: "('a, 'w) handler_object \<Rightarrow> ('a, 'w) rb_module list" where
  "handler_owners h = takeWhile (\<lambda>owner. \<not> is_event_handler owner) (ho_ancestors h)"

definition validate_handler_class :: "('a, 'w) handler_object \<Rightarrow> rb_error + unit" where
  "validate_handler_class h = validate_methods h (handler_owners h) HANDLER_METHODS"

subsection \<open>The base class and the decorators\<close>

definition event_handler :: "('a, 'w) rb_module" where
  "event_handler = Plain_module ''Prosody::EventHandler'' (\<lambda>name.
     if name \<in> set HANDLER_METHODS then
       Some \<lparr>md_params = [Param_req, Param_req], md_private = False,
         md_body = (\<lambda>_ w. (Inl (Rb_error (Core_class ''NotImplementedError'')
           (''Subclasses must implement #'' @ name)), w))\<rparr>
     else None)"

text \<open>\<open>method_defined?\<close> on a class by its ancestors: public and protected methods only.\<close>

definition method_defined :: "('a, 'w) rb_module list \<Rightarrow> string \<Rightarrow> bool" where
  "method_defined ancestors name =
     (case filter (has_method name) ancestors of
        [] \<Rightarrow> False
      | m # _ \<Rightarrow> \<not> module_private name m)"

definition wrap_errors ::
  "string \<Rightarrow> rb_class list \<Rightarrow> rb_class \<Rightarrow> ('a, 'w) rb_module list \<Rightarrow> rb_error + ('a, 'w) rb_module list"
where
  "wrap_errors method_name exception_classes error_class ancestors =
     (if exception_classes = [] then
        Inl (argument_error ''At least one exception class must be provided'')
      else if \<not> method_defined ancestors method_name then
        Inl (Rb_error (Core_class ''NameError'') (''Method `'' @ method_name @ ''` is not defined''))
      else Inr (Error_wrapper method_name exception_classes error_class # ancestors))"

abbreviation permanent_error_class :: rb_class where
  "permanent_error_class \<equiv> Prosody_class ''PermanentError''"

abbreviation transient_error_class :: rb_class where
  "transient_error_class \<equiv> Prosody_class ''TransientError''"

datatype decorator = Decorate_permanent | Decorate_transient

fun decorate ::
  "decorator \<Rightarrow> string \<Rightarrow> rb_class list \<Rightarrow> ('a, 'w) rb_module list \<Rightarrow> rb_error + ('a, 'w) rb_module list"
where
  "decorate Decorate_permanent method_name classes = wrap_errors method_name classes permanent_error_class"
| "decorate Decorate_transient method_name classes = wrap_errors method_name classes transient_error_class"

text \<open>The decorators of a class body for one method, in the order of their declarations.\<close>

fun decorate_all ::
  "(decorator \<times> rb_class list) list \<Rightarrow> string \<Rightarrow> ('a, 'w) rb_module list \<Rightarrow> rb_error + ('a, 'w) rb_module list"
where
  "decorate_all [] name ancestors = Inr ancestors"
| "decorate_all ((k, classes) # ds) name ancestors =
     res_bind (decorate k name classes ancestors) (decorate_all ds name)"

text \<open>
  \<open>permanent?\<close> on an exception object, for the classes of lib/prosody: the object's class
  answers, and an object whose class does not define the method raises.
\<close>

definition asks_class :: "'j callee \<Rightarrow> (rb_error \<Rightarrow> rvalue) \<Rightarrow> bool" where
  "asks_class c exn \<longleftrightarrow>
     (\<forall>e. case class_permanent (err_class e) of
            Some b \<Rightarrow> call_permanent c (exn e) = Inr (RBool b)
          | None \<Rightarrow> (\<exists>d. call_permanent c (exn e) = Inl d))"

lemma is_permanent_class:
  "asks_class c exn \<Longrightarrow> is_permanent c (exn e) \<longleftrightarrow> class_permanent (err_class e) = Some True"
  unfolding asks_class_def is_permanent_def
  by (drule spec [of _ e]) (auto split: option.splits)

definition sample_exn :: "rb_error \<Rightarrow> rvalue" where
  "sample_exn e = (case class_permanent (err_class e) of
     None \<Rightarrow> RObject 0 | Some b \<Rightarrow> RObject (if b then 1 else 2))"

definition class_callee :: "int callee" where
  "class_callee = sample_callee\<lparr>call_permanent := (\<lambda>v. if v = RObject 1 then Inr (RBool True)
     else if v = RObject 2 then Inr (RBool False) else Inl (runtime_error ''undefined method''))\<rparr>"

lemma class_callee_asks: "asks_class class_callee sample_exn"
  by (auto simp: asks_class_def class_callee_def sample_exn_def split: option.splits)

subsection \<open>Lookup\<close>

text \<open>The parameter check of the validation is Ruby's own for two arguments.\<close>

lemma count_list_filter: "count_list xs x = length (filter (\<lambda>y. y = x) xs)"
  by (induction xs) auto

lemma filter_either:
  "a \<noteq> b \<Longrightarrow> length (filter (\<lambda>x. x = a \<or> x = b) xs) = count_list xs a + count_list xs b"
  by (induction xs) auto

lemma accepts_two_arity [simp]: "accepts_two_parameters ps = arity_ok 2 ps"
  by (simp add: accepts_two_parameters_def arity_ok_def Let_def filter_either list_ex_iff
      flip: count_list_filter)

lemma call_chain_filter:
  "call_chain is_a ms name a w = call_chain is_a (filter (has_method name) ms) name a w"
  by (induction is_a ms name a w rule: call_chain.induct) (auto split: option.splits)

lemma handler_methods_chain:
  "handler_methods is_a h name d arg w = call_chain is_a (method_chain h name) name (d, arg) w"
  unfolding handler_methods_def method_chain_def by (rule call_chain_filter)

text \<open>What the wrappers of a chain make of an error, the innermost first.\<close>

fun rewrap_all :: "(rb_class \<Rightarrow> rb_class \<Rightarrow> bool) \<Rightarrow> ('a, 'w) rb_module list \<Rightarrow> rb_error \<Rightarrow> rb_error" where
  "rewrap_all is_a [] e = e"
| "rewrap_all is_a (Plain_module _ _ # ws) e = rewrap_all is_a ws e"
| "rewrap_all is_a (Error_wrapper _ cs k # ws) e = rewrap is_a cs k (rewrap_all is_a ws e)"

lemma call_chain_wrapped:
  assumes "\<forall>m\<in>set ws. is_wrapper m \<and> has_method name m"
  shows "call_chain is_a (ws @ ms) name a w =
    map_prod (map_err (rewrap_all is_a ws)) id (call_chain is_a ms name a w)"
  using assms
proof (induction ws)
  case Nil
  show ?case by (cases "call_chain is_a ms name a w") (simp add: map_err_def split: sum.split)
next
  case (Cons m ws)
  then obtain cs k where "m = Error_wrapper name cs k" by (cases m) auto
  with Cons show ?case
    by (cases "call_chain is_a ms name a w") (auto simp: map_err_def split: sum.splits)
qed

text \<open>The implementation a validated method resolves to.\<close>

lemma dropWhile_split:
  "dropWhile P xs = y # ys \<Longrightarrow> xs = takeWhile P xs @ y # ys \<and> \<not> P y \<and> (\<forall>x\<in>set (takeWhile P xs). P x)"
  by (metis dropWhile_eq_Cons_conv set_takeWhileD takeWhile_dropWhile_id)

lemma chain_has_method: "m \<in> set (method_chain h name) \<Longrightarrow> has_method name m"
  by (auto simp: method_chain_def)

lemma chain_resolved:
  assumes "dropWhile is_wrapper (method_chain h name) = owner # rest"
  obtains ws i ms md where "method_chain h name = ws @ Plain_module i ms # rest"
    and "owner = Plain_module i ms" and "ms name = Some md"
    and "\<forall>m\<in>set ws. is_wrapper m \<and> has_method name m"
proof -
  note split = dropWhile_split [OF assms]
  then have "owner \<in> set (method_chain h name)" by (metis in_set_conv_decomp)
  then have "has_method name owner" by (rule chain_has_method)
  with split obtain i ms md where "owner = Plain_module i ms" "ms name = Some md"
    by (cases owner) auto
  moreover have "\<forall>m\<in>set (takeWhile is_wrapper (method_chain h name)). is_wrapper m \<and> has_method name m"
    using split chain_has_method by (metis Un_iff set_append)
  ultimately show thesis using that split by metis
qed

text \<open>
  The singleton class of an object is not \<open>EventHandler\<close>, so an implementation found by the
  validation precedes the base class in every lookup.
\<close>

definition handler_object_ok :: "('a, 'w) handler_object \<Rightarrow> bool" where
  "handler_object_ok h \<longleftrightarrow> (\<forall>m\<in>set (ho_singleton h). \<not> is_event_handler m)"

definition implements :: "('a, 'w) handler_object \<Rightarrow> string \<Rightarrow> bool" where
  "implements h name \<longleftrightarrow> (\<exists>m\<in>set (handler_owners h). \<not> is_wrapper m \<and> has_method name m)"

lemma chain_by_owners:
  "method_chain h name = filter (has_method name) (ho_singleton h @ handler_owners h) @
     filter (has_method name) (dropWhile (\<lambda>m. \<not> is_event_handler m) (ho_ancestors h))"
  unfolding method_chain_def handler_owners_def
  by (metis append.assoc filter_append takeWhile_dropWhile_id)

lemma chain_implemented:
  assumes "implements h name"
  shows "\<exists>owner rest. dropWhile is_wrapper (method_chain h name) = owner # rest \<and>
    owner \<in> set (ho_singleton h @ handler_owners h)"
proof -
  let ?own = "filter (has_method name) (ho_singleton h @ handler_owners h)"
  from assms obtain m where "m \<in> set ?own" "\<not> is_wrapper m" by (auto simp: implements_def)
  then have *: "dropWhile is_wrapper (method_chain h name) = dropWhile is_wrapper ?own @
      filter (has_method name) (dropWhile (\<lambda>m. \<not> is_event_handler m) (ho_ancestors h))"
    unfolding chain_by_owners by (rule dropWhile_append1)
  from \<open>m \<in> set ?own\<close> \<open>\<not> is_wrapper m\<close> have "dropWhile is_wrapper ?own \<noteq> []"
    unfolding dropWhile_eq_Nil_conv by blast
  then obtain owner rest where d: "dropWhile is_wrapper ?own = owner # rest" by (cases "dropWhile is_wrapper ?own") auto
  then have "owner \<in> set ?own" by (metis list.set_intros(1) set_dropWhileD)
  with * d show ?thesis by auto
qed

lemma owners_not_base: "m \<in> set (handler_owners h) \<Longrightarrow> \<not> is_event_handler m"
  by (auto simp: handler_owners_def dest: set_takeWhileD)

lemma implemented_resolves:
  assumes "implements h name" and "handler_object_ok h"
  obtains ws i ms md rest where "method_chain h name = ws @ Plain_module i ms # rest"
    and "dropWhile is_wrapper (method_chain h name) = Plain_module i ms # rest"
    and "\<forall>m\<in>set ws. is_wrapper m \<and> has_method name m"
    and "ms name = Some md" and "i \<noteq> ''Prosody::EventHandler''"
proof -
  from chain_implemented [OF assms(1)] obtain owner rest
    where d: "dropWhile is_wrapper (method_chain h name) = owner # rest"
      and own: "owner \<in> set (ho_singleton h @ handler_owners h)" by blast
  have "\<not> is_event_handler owner"
    using own assms(2) owners_not_base by (auto simp: handler_object_ok_def)
  with chain_resolved [OF d] that d show thesis by (metis is_event_handler.simps(1))
qed

lemma validate_method_iff:
  "validate_method h (handler_owners h) name = Inr () \<longleftrightarrow>
     implements h name \<and>
     (\<exists>owner rest. dropWhile is_wrapper (method_chain h name) = owner # rest \<and>
        arity_ok 2 (module_params name owner))"
  using chain_implemented [of h name]
  by (cases "dropWhile is_wrapper (method_chain h name)")
     (auto simp: validate_method_def implements_def list_ex_iff simp del: dropWhile_eq_Nil_conv)

lemma validate_methods_iff:
  "validate_methods h owners names = Inr () \<longleftrightarrow> (\<forall>name\<in>set names. validate_method h owners name = Inr ())"
  by (induction names) (auto simp: res_bind_eq_Inr_iff)

text \<open>
  An object serves an event if the call goes through error wrappers only, to a method defined
  by another class than \<open>EventHandler\<close>, which accepts the two arguments: the wrappers change
  nothing but the class of an exception.
\<close>

definition serves :: "(demand_type \<times> 'p handler_arg, 'w) handler_object \<Rightarrow> string \<Rightarrow> bool" where
  "serves h name \<longleftrightarrow> (\<exists>ws i ms md rest.
     method_chain h name = ws @ Plain_module i ms # rest \<and> (\<forall>m\<in>set ws. is_wrapper m) \<and>
     i \<noteq> ''Prosody::EventHandler'' \<and> ms name = Some md \<and>
     (\<forall>is_a d arg w. handler_methods is_a h name d arg w =
        map_prod (map_err (rewrap_all is_a ws)) id (md_body md (d, arg) w)))"

lemma validated_serves:
  assumes "validate_handler_class h = Inr ()" and "handler_object_ok h" and "name \<in> set HANDLER_METHODS"
  shows "serves h name"
proof -
  from assms(1,3) have valid: "validate_method h (handler_owners h) name = Inr ()"
    by (simp add: validate_handler_class_def validate_methods_iff)
  then have "implements h name" by (simp add: validate_method_iff)
  then obtain ws i ms md rest where split: "method_chain h name = ws @ Plain_module i ms # rest"
      "dropWhile is_wrapper (method_chain h name) = Plain_module i ms # rest"
      "\<forall>m\<in>set ws. is_wrapper m \<and> has_method name m" "ms name = Some md" "i \<noteq> ''Prosody::EventHandler''"
    by (rule implemented_resolves [OF _ assms(2)])
  with valid have arity: "arity_ok 2 (md_params md)" by (simp add: validate_method_iff)
  have "\<forall>is_a d arg w. handler_methods is_a h name d arg w =
      map_prod (map_err (rewrap_all is_a ws)) id (md_body md (d, arg) w)"
    using split(4) arity by (simp add: handler_methods_chain split(1) call_chain_wrapped [OF split(3)])
  with split show ?thesis unfolding serves_def by blast
qed

text \<open>A rejected one that inherits from \<open>EventHandler\<close>: some method cannot run.\<close>

lemma base_call:
  "name \<in> set HANDLER_METHODS \<Longrightarrow> call_chain is_a (event_handler # rest) name a w =
     (Inl (Rb_error (Core_class ''NotImplementedError'') (''Subclasses must implement #'' @ name)), w)"
  by (simp add: event_handler_def arity_ok_def)

lemma base_next:
  assumes "event_handler \<in> set (ho_ancestors h)"
    and "\<forall>m\<in>set (ho_ancestors h). is_event_handler m \<longrightarrow> m = event_handler"
  shows "\<exists>rest. dropWhile (\<lambda>m. \<not> is_event_handler m) (ho_ancestors h) = event_handler # rest"
proof -
  have "is_event_handler (event_handler :: ('a, 'b) rb_module)" by (simp add: event_handler_def)
  with assms(1) have "dropWhile (\<lambda>m. \<not> is_event_handler m) (ho_ancestors h) \<noteq> []"
    unfolding dropWhile_eq_Nil_conv by blast
  then obtain m rest where d: "dropWhile (\<lambda>m. \<not> is_event_handler m) (ho_ancestors h) = m # rest"
    by (meson neq_Nil_conv)
  with dropWhile_split [OF d] assms(2) show ?thesis
    by (metis in_set_conv_decomp)
qed

lemma unimplemented_call:
  assumes "\<not> implements h name" and "ho_singleton h = []" and "name \<in> set HANDLER_METHODS"
    and "event_handler \<in> set (ho_ancestors h)"
    and "\<forall>m\<in>set (ho_ancestors h). is_event_handler m \<longrightarrow> m = event_handler"
  shows "\<exists>ws. (\<forall>m\<in>set ws. is_wrapper m \<and> m \<in> set (method_chain h name)) \<and>
    (\<forall>is_a d arg w. handler_methods is_a h name d arg w = (Inl (rewrap_all is_a ws
       (Rb_error (Core_class ''NotImplementedError'') (''Subclasses must implement #'' @ name))), w))"
proof (intro exI conjI allI)
  let ?ws = "filter (has_method name) (handler_owners h)"
  show wrappers: "\<forall>m\<in>set ?ws. is_wrapper m \<and> m \<in> set (method_chain h name)"
    using assms(1) by (auto simp: implements_def chain_by_owners)
  have base: "has_method name event_handler" using assms(3) by (simp add: event_handler_def)
  fix is_a d arg w
  from base_next [OF assms(4,5)] obtain rest where
    "dropWhile (\<lambda>m. \<not> is_event_handler m) (ho_ancestors h) = event_handler # rest" by blast
  then have "method_chain h name = ?ws @ event_handler # filter (has_method name) rest"
    using assms(2) base by (simp add: chain_by_owners)
  with wrappers show "handler_methods is_a h name d arg w = (Inl (rewrap_all is_a ?ws
      (Rb_error (Core_class ''NotImplementedError'') (''Subclasses must implement #'' @ name))), w)"
    by (simp add: handler_methods_chain call_chain_wrapped base_call [OF assms(3)])
qed

lemma wrong_arity_call:
  assumes "dropWhile is_wrapper (method_chain h name) = owner # rest"
    and "\<not> arity_ok 2 (module_params name owner)"
  shows "\<exists>ws. (\<forall>m\<in>set ws. is_wrapper m \<and> m \<in> set (method_chain h name)) \<and>
    (\<forall>is_a d arg w. handler_methods is_a h name d arg w =
       (Inl (rewrap_all is_a ws (argument_error ''wrong number of arguments'')), w))"
proof -
  obtain ws i ms md where split: "method_chain h name = ws @ Plain_module i ms # rest"
    "owner = Plain_module i ms" "ms name = Some md" "\<forall>m\<in>set ws. is_wrapper m \<and> has_method name m"
    by (rule chain_resolved [OF assms(1)])
  with assms(2) show ?thesis
    by (intro exI [of _ ws]) (simp add: handler_methods_chain call_chain_wrapped)
qed

subsection \<open>What decorators make of an error\<close>

fun decorator_class :: "decorator \<Rightarrow> rb_class" where
  "decorator_class Decorate_permanent = permanent_error_class"
| "decorator_class Decorate_transient = transient_error_class"

fun decorator_module :: "string \<Rightarrow> decorator \<times> rb_class list \<Rightarrow> ('a, 'w) rb_module" where
  "decorator_module name (k, classes) = Error_wrapper name classes (decorator_class k)"

lemma decorate_Inr:
  "decorate k name classes ancestors = Inr new \<Longrightarrow> new = decorator_module name (k, classes) # ancestors"
  by (cases k) (auto simp: wrap_errors_def split: if_splits)

lemma decorate_all_Inr:
  "decorate_all ds name ancestors = Inr new \<Longrightarrow> new = rev (map (decorator_module name) ds) @ ancestors"
  by (induction ds name ancestors rule: decorate_all.induct)
     (auto simp: res_bind_eq_Inr_iff dest!: decorate_Inr)

definition rescues :: "(rb_class \<Rightarrow> rb_class \<Rightarrow> bool) \<Rightarrow> rb_class \<Rightarrow> decorator \<times> rb_class list \<Rightarrow> bool" where
  "rescues is_a cl d \<longleftrightarrow> (\<exists>c\<in>set (snd d). is_a cl c)"

lemma decorator_class_permanent [simp]:
  "class_permanent (decorator_class k) = Some (k = Decorate_permanent)"
  by (cases k) simp_all

lemma rewrap_decorator:
  "rewrap is_a classes (decorator_class k) e =
     (if rescues is_a (err_class e) (k, classes) then Rb_error (decorator_class k) (err_msg e) else e)"
  by (simp add: rewrap_def rescues_def)

lemma rewrap_decorators:
  assumes "\<forall>d\<in>set ds. \<not> rescues is_a permanent_error_class d \<and> \<not> rescues is_a transient_error_class d"
  shows "rewrap_all is_a (rev (map (decorator_module name) ds) :: ('a, 'w) rb_module list) e =
    (case List.find (rescues is_a (err_class e)) ds of
       None \<Rightarrow> e
     | Some d \<Rightarrow> Rb_error (decorator_class (fst d)) (err_msg e))"
  using assms
proof (induction ds rule: rev_induct)
  case (snoc d ds)
  obtain k classes where d: "d = (k, classes)" by (cases d)
  have found: "List.find P (ds @ [y]) = (case List.find P ds of None \<Rightarrow> if P y then Some y else None | Some x \<Rightarrow> Some x)" for P y
    by (induction ds) auto
  have kinds: "decorator_class k' = permanent_error_class \<or> decorator_class k' = transient_error_class" for k'
    by (cases k') simp_all
  have IH: "rewrap_all is_a (rev (map (decorator_module name) ds) :: ('a, 'w) rb_module list) e =
      (case List.find (rescues is_a (err_class e)) ds of
         None \<Rightarrow> e | Some d \<Rightarrow> Rb_error (decorator_class (fst d)) (err_msg e))"
    and kept: "\<not> rescues is_a permanent_error_class d" "\<not> rescues is_a transient_error_class d"
    using snoc by simp_all
  show ?case
  proof (cases "List.find (rescues is_a (err_class e)) ds")
    case None
    with IH d show ?thesis by (simp add: found rewrap_decorator)
  next
    case (Some x)
    with kept kinds [of "fst x"] have "\<not> rescues is_a (decorator_class (fst x)) d" by auto
    with IH d Some show ?thesis by (simp add: found rewrap_decorator)
  qed
qed simp

subsection \<open>A sample handler\<close>

text \<open>
  A class with a decorated \<open>on_message\<close> whose body raises \<open>TypeError\<close>, and an exception
  hierarchy in which each class is a kind of itself and of \<open>StandardError\<close> only.
\<close>

definition sample_is_a :: "rb_class \<Rightarrow> rb_class \<Rightarrow> bool" where
  "sample_is_a a b \<longleftrightarrow> a = b \<or> b = Core_class ''StandardError''"

definition sample_decorators :: "(decorator \<times> rb_class list) list" where
  "sample_decorators = [(Decorate_permanent, [type_error_class]), (Decorate_transient, [runtime_error_class])]"

definition sample_method :: "('a, 'w) method_def" where
  "sample_method = \<lparr>md_params = [Param_req, Param_opt], md_private = False,
     md_body = (\<lambda>_ w. (Inl (Rb_error type_error_class ''bad''), w))\<rparr>"

definition sample_methods :: "string \<Rightarrow> ('a, 'w) method_def option" where
  "sample_methods name = (if name \<in> set HANDLER_METHODS then Some sample_method else None)"

definition sample_handler :: "('a, 'w) handler_object" where
  "sample_handler = \<lparr>ho_singleton = [],
     ho_ancestors = rev (map (decorator_module ''on_message'') sample_decorators) @
       [Plain_module ''Sample'' sample_methods, event_handler]\<rparr>"

lemma sample_handler_valid: "validate_handler_class sample_handler = Inr ()"
  by (simp add: validate_handler_class_def HANDLER_METHODS_def validate_method_def handler_owners_def
      sample_handler_def sample_decorators_def sample_methods_def sample_method_def method_chain_def
      event_handler_def arity_ok_def)

lemma sample_handler_ok: "handler_object_ok sample_handler"
  by (simp add: handler_object_ok_def sample_handler_def)

subsection \<open>Properties\<close>

text \<open>
  Validation rejects only handlers that could not serve. If an object without singleton
  methods whose class inherits from \<open>EventHandler\<close> is rejected, then for one of the three
  events every call fails before any user code runs, with the abstract method's
  \<open>NotImplementedError\<close> or with Ruby's arity error, as the object's error wrappers pass it on.
\<close>

theorem rejected_handler_cannot_serve:
  assumes "validate_handler_class h = Inl e" and "ho_singleton h = []"
    and "event_handler \<in> set (ho_ancestors h)"
    and "\<forall>m\<in>set (ho_ancestors h). is_event_handler m \<longrightarrow> m = event_handler"
  shows "\<exists>name\<in>set HANDLER_METHODS. \<exists>ws e0.
    (\<forall>m\<in>set ws. is_wrapper m \<and> m \<in> set (method_chain h name)) \<and>
    err_class e0 \<in> {Core_class ''NotImplementedError'', argument_error_class} \<and>
    (\<forall>is_a d arg w. handler_methods is_a h name d arg w = (Inl (rewrap_all is_a ws e0), w))"
proof -
  from assms(1) have "validate_handler_class h \<noteq> Inr ()" by simp
  then obtain name where name: "name \<in> set HANDLER_METHODS"
    and invalid: "\<not> (implements h name \<and>
     (\<exists>owner rest. dropWhile is_wrapper (method_chain h name) = owner # rest \<and>
        arity_ok 2 (module_params name owner)))"
    unfolding validate_handler_class_def validate_methods_iff validate_method_iff by blast
  have "\<exists>e0. err_class e0 \<in> {Core_class ''NotImplementedError'', argument_error_class} \<and>
    (\<exists>ws. (\<forall>m\<in>set ws. is_wrapper m \<and> m \<in> set (method_chain h name)) \<and>
      (\<forall>is_a d arg w. handler_methods is_a h name d arg w = (Inl (rewrap_all is_a ws e0), w)))"
  proof (cases "implements h name")
    case False
    from unimplemented_call [OF this assms(2) name assms(3,4)] show ?thesis
      by (intro exI [of _ "Rb_error (Core_class ''NotImplementedError'') (''Subclasses must implement #'' @ name)"]) simp
  next
    case True
    from chain_implemented [OF True] obtain owner rest
      where d: "dropWhile is_wrapper (method_chain h name) = owner # rest" by blast
    with invalid True have "\<not> arity_ok 2 (module_params name owner)" by blast
    from wrong_arity_call [OF d this] show ?thesis
      by (intro exI [of _ "argument_error ''wrong number of arguments''"]) (simp add: argument_error_def)
  qed
  with name show ?thesis by blast
qed

theorem rejected_handler_cannot_serve_witness:
  "\<exists>name\<in>set HANDLER_METHODS. \<exists>e0. \<forall>is_a d arg w.
     handler_methods is_a \<lparr>ho_singleton = [], ho_ancestors = [event_handler]\<rparr> name d
       (arg :: int handler_arg) (w :: unit) = (Inl e0, w)"
proof -
  let ?h = "\<lparr>ho_singleton = [], ho_ancestors = [event_handler]\<rparr> :: (demand_type \<times> int handler_arg, unit) handler_object"
  have "validate_handler_class ?h = Inl (must_implement ''on_message'')"
    by (simp add: validate_handler_class_def HANDLER_METHODS_def validate_method_def
        handler_owners_def event_handler_def)
  from rejected_handler_cannot_serve [OF this] obtain name ws e0 where name: "name \<in> set HANDLER_METHODS"
    and ws: "\<forall>m\<in>set ws. is_wrapper m \<and> m \<in> set (method_chain ?h name)"
    and call: "\<forall>is_a d arg w. handler_methods is_a ?h name d arg w = (Inl (rewrap_all is_a ws e0), w)"
    by auto
  have "ws = []" using ws by (cases ws) (auto simp: method_chain_def event_handler_def split: if_splits)
  with name call show ?thesis by (intro bexI [of _ name]) auto
qed



end
