(* ===== verification/Lifetimes.thy ===== *)
theory Lifetimes
  imports Workers
begin

text \<open>
  What is made for a subscription and for a task, and what its end leaves behind: the handler
  and its scheduler (\<open>RubyHandler::new\<close>, \<open>Scheduler::new\<close>), and a handling whose future the core
  drops before it has ended. Dropping it drops its \<open>TaskHandle\<close> (scheduler/handle.rs): the
  receiver of the result and the cancellation token go, neither of which tells Ruby anything.
\<close>

subsection \<open>The handler\<close>

record 'f scheduler =
  sch_processor :: "'f processor"

record ('h, 'f) ruby_handler =
  rh_instance :: 'h \<comment> \<open>the user's handler object\<close>
  rh_scheduler :: "'f scheduler"

definition scheduler_new :: "rb_error + 'f processor \<Rightarrow> rb_error + 'f scheduler" where
  "scheduler_new processor = res_map (\<lambda>p. \<lparr>sch_processor = p\<rparr>) processor"

definition ruby_handler_new :: "'h \<Rightarrow> rb_error + 'f processor \<Rightarrow> rb_error + ('h, 'f) ruby_handler" where
  "ruby_handler_new instance processor =
     res_map (\<lambda>s. \<lparr>rh_instance = instance, rh_scheduler = s\<rparr>) (scheduler_new processor)"

subsection \<open>Dropping a handling\<close>

record 'j task_handle =
  th_result :: "'j result_channel"
  th_signalling :: bool \<comment> \<open>the token has been given to a closure that the bridge has not run yet\<close>

text \<open>The handle's end: its receiver is dropped; a closure on the bridge is there to stay.\<close>

definition task_handle_drop :: "'j handling \<Rightarrow> 'j task_handle" where
  "task_handle_drop h =
     \<lparr>th_result = receiver_dropped (hd_channel h), th_signalling = (hd_phase h = Cancelling)\<rparr>"

text \<open>
  The task without its handling: the worker's own steps go on, and a cancel closure that was
  already sent is run, or discarded with the bridge.
\<close>

inductive abandoned_run ::
  "'j callee \<Rightarrow> (rb_error \<Rightarrow> rvalue) \<Rightarrow> bool \<Rightarrow> worker \<Rightarrow> 'j task_handle \<Rightarrow> bool" for c exn
where
  dropped: "task_run c exn (w, h) \<Longrightarrow> \<forall>r. hd_phase h \<noteq> Finished r \<Longrightarrow>
     abandoned_run c exn (hd_cancelled h) w (task_handle_drop h)"
| working_on: "abandoned_run c exn cancelled w t \<Longrightarrow> worker_step exn w evs w' \<Longrightarrow>
     abandoned_run c exn cancelled w' (t\<lparr>th_result := snd (channel_run c evs (th_result t))\<rparr>)"
| late_signal: "abandoned_run c exn cancelled w t \<Longrightarrow> th_signalling t \<Longrightarrow>
     abandoned_run c exn cancelled (w\<lparr>wk_token := Suc (wk_token w)\<rparr>) (t\<lparr>th_signalling := False\<rparr>)"
| lost_signal: "abandoned_run c exn cancelled w t \<Longrightarrow> th_signalling t \<Longrightarrow>
     abandoned_run c exn cancelled w (t\<lparr>th_signalling := False\<rparr>)"

lemma channel_run_rx:
  "Receiver_dropped \<notin> set evs \<Longrightarrow> ch_slot ch = Rx_gone \<Longrightarrow> ch_slot (snd (channel_run c evs ch)) = Rx_gone"
proof (induction evs arbitrary: ch)
  case (Cons e evs)
  have "ch_slot (snd (channel_step c e ch)) = Rx_gone" using Cons.prems by (subst channel_step_rx) auto
  with Cons show ?case by (simp add: case_prod_beta)
qed simp

text \<open>Nobody signals a task that was not cancelled.\<close>

definition unsignalled :: "worker \<Rightarrow> 'j task_handle \<Rightarrow> bool" where
  "unsignalled w t \<longleftrightarrow> \<not> th_signalling t \<and> (wk_phase w = In_block \<longrightarrow> wk_token w = 0) \<and>
     (wk_stop w \<longrightarrow> wk_torn w) \<and> (phase_end (wk_phase w) = Some Stopped \<longrightarrow> wk_torn w)"

lemma abandoned_inv:
  "abandoned_run c exn cancelled w t \<Longrightarrow>
     ch_slot (th_result t) = Rx_gone \<and> (\<not> cancelled \<longrightarrow> unsignalled w t)"
proof (induction rule: abandoned_run.induct)
  case (dropped w h)
  have "task_inv c exn (w, h)" by (rule task_inv_run) (rule dropped)
  then show ?case using dropped(2)
    by (auto simp: task_inv_def unsignalled_def task_handle_drop_def receiver_dropped_def)
next
  case (working_on cancelled w t evs w')
  from worker_events [OF working_on(2)] working_on.IH
  have "ch_slot (snd (channel_run c evs (th_result t))) = Rx_gone" by (simp add: channel_run_rx)
  moreover have "unsignalled w t \<Longrightarrow> unsignalled w' (t\<lparr>th_result := snd (channel_run c evs (th_result t))\<rparr>)"
    using working_on(2) by (cases rule: worker_step.cases) (auto simp: unsignalled_def)
  ultimately show ?case using working_on.IH by simp
qed (simp_all add: unsignalled_def)

text \<open>The block can end as it likes, and its worker then goes.\<close>

lemma abandoned_ends:
  assumes run: "abandoned_run c exn cancelled w t" and block: "wk_phase w = In_block"
    and stop: "e = Stopped \<longrightarrow> wk_stop w"
  shows "\<exists>w' t'. abandoned_run c exn cancelled w' t' \<and> wk_phase w' = Gone e"
proof -
  let ?w1 = "w\<lparr>wk_phase := Reported e, wk_stop := False\<rparr>"
  let ?w2 = "?w1\<lparr>wk_phase := Left e, wk_token := Suc (wk_token ?w1)\<rparr>"
  have 1: "worker_step exn w (end_reports exn e) ?w1" by (rule block_ends [OF block stop])
  have 2: "worker_step exn ?w1 [] ?w2" by (rule ensured) simp
  have 3: "worker_step exn ?w2 [] (?w2\<lparr>wk_phase := Gone e, wk_watching := False\<rparr>)"
    by (rule barrier_stopped) simp
  from working_on [OF working_on [OF working_on [OF run 1] 2] 3] show ?thesis by fastforce
qed

text \<open>
  C10: A handling that the core drops leaves its task running. The result goes nowhere: no
  receiver will see one, whatever the task does. A task that the core had not cancelled is not
  cancelled by the drop either: nothing signals it, and only a teardown of its processor
  stops it. While the block runs it can still end in each way it could have, and its worker
  then finishes.
\<close>

theorem dropped_handling_leaves_task:
  assumes "abandoned_run c exn cancelled w t"
  shows "receive (th_result t) = None \<and>
    (\<not> cancelled \<longrightarrow> \<not> th_signalling t \<and> (wk_stop w \<longrightarrow> wk_torn w) \<and>
       (phase_end (wk_phase w) = Some Stopped \<longrightarrow> wk_torn w)) \<and>
    (wk_phase w = In_block \<longrightarrow> (\<forall>e. (e = Stopped \<longrightarrow> wk_stop w) \<longrightarrow>
       (\<exists>w' t'. abandoned_run c exn cancelled w' t' \<and> wk_phase w' = Gone e)))"
  using abandoned_inv [OF assms] abandoned_ends [OF assms]
  by (auto simp: receive_def unsignalled_def)

theorem dropped_handling_leaves_task_witness:
  "\<exists>w' t'. abandoned_run sample_callee (\<lambda>_. RNil) False w' t' \<and> wk_phase w' = Gone (Returned RNil)"
proof -
  let ?h = "handling_start :: int handling"
  have "abandoned_run sample_callee (\<lambda>_. RNil) (hd_cancelled ?h) worker_start (task_handle_drop ?h)"
    by (rule dropped [OF task_begun]) (simp add: handling_start_def)
  from dropped_handling_leaves_task [OF this] show ?thesis
    by (simp add: worker_start_def handling_start_def)
qed

end
