(* ===== verification/Registration.thy ===== *)
theory Registration
  imports Ruby_Model "HOL-Library.AList"
begin

text \<open>
  What Ruby can call: the classes and methods that loading the extension defines
  (\<open>entry::init\<close> in lib.rs and the \<open>init\<close> and \<open>register\<close> functions of every module), against
  the calls the Ruby wrappers under lib/prosody make on the native objects.
\<close>

datatype rb_method =
    Instance string
  | Singleton string

text \<open>
  The \<open>Prosody\<close> module while the extension loads: its classes with their methods and arities
  (\<open>-1\<close> is any number of arguments), its module functions, and the number of \<open>at_exit\<close>
  blocks. A definition that raises is a function of the VM.
\<close>

record rb_module =
  md_classes :: "(string \<times> (rb_method \<times> int) list) list"
  md_functions :: "(string \<times> int) list"
  md_at_exit :: nat

record rb_vm =
  vm_class :: "string \<Rightarrow> rb_error option"
  vm_method :: "string \<Rightarrow> rb_method \<Rightarrow> rb_error option"
  vm_function :: "string \<Rightarrow> rb_error option"
  vm_at_exit :: "rb_error option"

definition quiet_vm :: rb_vm where
  "quiet_vm = \<lparr>vm_class = (\<lambda>_. None), vm_method = (\<lambda>_ _. None), vm_function = (\<lambda>_. None), vm_at_exit = None\<rparr>"

definition empty_module :: rb_module where
  "empty_module = \<lparr>md_classes = [], md_functions = [], md_at_exit = 0\<rparr>"

text \<open>Ruby calls: an existing class is reopened, an existing method replaced.\<close>

definition rb_try :: "rb_error option \<Rightarrow> ('m \<Rightarrow> 'm) \<Rightarrow> ('m, rb_error, unit) op" where
  "rb_try raised f = (\<lambda>m. case raised of Some e \<Rightarrow> (Inl e, m) | None \<Rightarrow> (Inr (), f m))"

definition define_class :: "rb_vm \<Rightarrow> string \<Rightarrow> (rb_module, rb_error, unit) op" where
  "define_class vm c = rb_try (vm_class vm c)
     (\<lambda>m. if c \<in> set (map fst (md_classes m)) then m
          else m\<lparr>md_classes := md_classes m @ [(c, [])]\<rparr>)"

definition define_method :: "rb_vm \<Rightarrow> string \<Rightarrow> rb_method \<times> int \<Rightarrow> (rb_module, rb_error, unit) op" where
  "define_method vm c d = rb_try (vm_method vm c (fst d))
     (\<lambda>m. m\<lparr>md_classes := AList.map_entry c (AList.update (fst d) (snd d)) (md_classes m)\<rparr>)"

definition define_function :: "rb_vm \<Rightarrow> string \<times> int \<Rightarrow> (rb_module, rb_error, unit) op" where
  "define_function vm d = rb_try (vm_function vm (fst d))
     (\<lambda>m. m\<lparr>md_functions := AList.update (fst d) (snd d) (md_functions m)\<rparr>)"

fun op_seq :: "('s, 'e, unit) op list \<Rightarrow> ('s, 'e, unit) op" where
  "op_seq [] = op_ok ()"
| "op_seq (m # ms) = op_bind m (\<lambda>_. op_seq ms)"

definition define_all :: "rb_vm \<Rightarrow> string \<Rightarrow> (rb_method \<times> int) list \<Rightarrow> (rb_module, rb_error, unit) op" where
  "define_all vm c ds = op_seq (define_class vm c # map (define_method vm c) ds)"

subsection \<open>The method tables\<close>

definition client_methods :: "(rb_method \<times> int) list" where
  "client_methods =
    [(Singleton ''new'', 1), (Instance ''consumer_state'', 0),
     (Instance ''send_message'', 3), (Instance ''excise'', 2),
     (Instance ''native_request'', 1), (Instance ''native_request_excise'', 1),
     (Instance ''subscribe'', 1), (Instance ''assigned_partition_count'', 0),
     (Instance ''stalled?'', 0), (Instance ''unsubscribe'', 0), (Instance ''shutdown'', 0),
     (Instance ''source_system'', 0), (Instance ''published_value'', 3),
     (Instance ''published_map'', 3), (Instance ''published_set'', 3),
     (Instance ''published_deque'', 3)]"

definition context_methods :: "(rb_method \<times> int) list" where
  "context_methods =
    [(Instance ''should_cancel?'', 0), (Instance ''on_cancel'', 0),
     (Instance ''demand'', 0), (Instance ''schedule'', 1),
     (Instance ''clear_and_schedule'', 1), (Instance ''unschedule'', 1),
     (Instance ''clear_scheduled'', 0), (Instance ''scheduled'', 0)]"

definition vending_methods :: "(rb_method \<times> int) list" where
  "vending_methods =
    [(Instance ''value_state'', 1), (Instance ''map_state'', 1),
     (Instance ''set_state'', 1), (Instance ''deque_state'', 1),
     (Instance ''message_value_state'', 1), (Instance ''message_map_state'', 1),
     (Instance ''message_deque_state'', 1)]"

definition message_methods :: "(rb_method \<times> int) list" where
  "message_methods =
    [(Instance ''topic'', 0), (Instance ''partition'', 0), (Instance ''offset'', 0),
     (Instance ''key'', 0), (Instance ''timestamp'', 0), (Instance ''payload'', 0),
     (Instance ''source_system'', 0), (Instance ''response_requested?'', 0)]"

definition excise_message_methods :: "(rb_method \<times> int) list" where
  "excise_message_methods =
    [(Instance ''topic'', 0), (Instance ''partition'', 0), (Instance ''offset'', 0),
     (Instance ''key'', 0), (Instance ''timestamp'', 0), (Instance ''source_system'', 0),
     (Instance ''response_requested?'', 0)]"

definition timer_methods :: "(rb_method \<times> int) list" where
  "timer_methods =
    [(Instance ''key'', 0), (Instance ''time'', 0)]"

definition admin_methods :: "(rb_method \<times> int) list" where
  "admin_methods =
    [(Singleton ''new'', 1), (Instance ''create_topic'', - 1),
     (Instance ''delete_topic'', 1)]"

definition value_methods :: "(rb_method \<times> int) list" where
  "value_methods =
    [(Instance ''get'', 0), (Instance ''set'', 1), (Instance ''clear'', 0),
     (Instance ''commit'', 0), (Instance ''rollback'', 0)]"

definition map_methods :: "(rb_method \<times> int) list" where
  "map_methods =
    [(Instance ''get'', 1), (Instance ''contains_key'', 1), (Instance ''is_empty'', 0),
     (Instance ''get_many'', 1), (Instance ''contains_many'', 1), (Instance ''set'', 2),
     (Instance ''remove'', 1), (Instance ''clear'', 0), (Instance ''scan'', 2),
     (Instance ''keys'', 2), (Instance ''commit'', 0), (Instance ''rollback'', 0)]"

definition set_methods :: "(rb_method \<times> int) list" where
  "set_methods =
    [(Instance ''contains'', 1), (Instance ''contains_many'', 1),
     (Instance ''is_empty'', 0), (Instance ''insert'', 1), (Instance ''remove'', 1),
     (Instance ''clear'', 0), (Instance ''keys'', 2), (Instance ''commit'', 0),
     (Instance ''rollback'', 0)]"

definition deque_methods :: "(rb_method \<times> int) list" where
  "deque_methods =
    [(Instance ''len'', 0), (Instance ''is_empty'', 0), (Instance ''get'', 1),
     (Instance ''peek_front'', 0), (Instance ''peek_back'', 0), (Instance ''push_back'', 1),
     (Instance ''push_front'', 1), (Instance ''pop_front'', 0), (Instance ''pop_back'', 0),
     (Instance ''clear'', 0), (Instance ''scan'', 2), (Instance ''commit'', 0),
     (Instance ''rollback'', 0)]"

definition scan_methods :: "(rb_method \<times> int) list" where
  "scan_methods =
    [(Instance ''next_chunk'', 0), (Instance ''close'', 0)]"

definition published_value_methods :: "(rb_method \<times> int) list" where
  "published_value_methods =
    [(Instance ''get'', 1)]"

definition published_map_methods :: "(rb_method \<times> int) list" where
  "published_map_methods =
    [(Instance ''get'', 2), (Instance ''get_many'', 2), (Instance ''contains_key'', 2),
     (Instance ''contains_many'', 2), (Instance ''is_empty'', 1), (Instance ''scan'', 3),
     (Instance ''keys'', 3)]"

definition published_set_methods :: "(rb_method \<times> int) list" where
  "published_set_methods =
    [(Instance ''contains'', 2), (Instance ''contains_many'', 2),
     (Instance ''is_empty'', 1), (Instance ''keys'', 3)]"

definition published_deque_methods :: "(rb_method \<times> int) list" where
  "published_deque_methods =
    [(Instance ''get'', 2), (Instance ''length'', 1), (Instance ''is_empty'', 1),
     (Instance ''peek_front'', 1), (Instance ''peek_back'', 1), (Instance ''scan'', 3)]"

subsection \<open>The init functions\<close>

text \<open>\<open>wrapped_class\<close>: the class that a \<open>magnus::wrap\<close> path names.\<close>

lemma drop_prefix_shorter: "take 9 path = ''Prosody::'' \<Longrightarrow> length path - 9 < length path"
  by (cases path) auto

function trim_prosody :: "string \<Rightarrow> string" where
  "trim_prosody path =
     (if take 9 path = ''Prosody::'' then trim_prosody (drop 9 path) else path)"
  by pat_completeness auto

termination
  by (relation "measure length") (auto simp: drop_prefix_shorter)

declare trim_prosody.simps [simp del]

definition wrapped_name :: "string \<Rightarrow> string" where
  "wrapped_name path = trim_prosody path"

definition register_class :: "rb_vm \<Rightarrow> (rb_method \<times> int) list \<Rightarrow> string \<Rightarrow> (rb_module, rb_error, unit) op" where
  "register_class vm ds path = define_all vm (wrapped_name path) ds"

definition state_register :: "rb_vm \<Rightarrow> (rb_module, rb_error, unit) op" where
  "state_register vm = op_seq
     [register_class vm value_methods ''Prosody::NativeJsonValueState'',
      register_class vm value_methods ''Prosody::NativeMessageValueState'',
      register_class vm map_methods ''Prosody::NativeJsonMapState'',
      register_class vm map_methods ''Prosody::NativeMessageMapState'',
      register_class vm set_methods ''Prosody::NativeSetState'',
      register_class vm deque_methods ''Prosody::NativeJsonDequeState'',
      register_class vm deque_methods ''Prosody::NativeMessageDequeState'',
      register_class vm scan_methods ''Prosody::NativeJsonDequeScan'',
      register_class vm scan_methods ''Prosody::NativeJsonMapScan'',
      register_class vm scan_methods ''Prosody::NativeMessageDequeScan'',
      register_class vm scan_methods ''Prosody::NativeMessageMapScan'',
      register_class vm scan_methods ''Prosody::NativeMapKeyScan'']"

definition context_init :: "rb_vm \<Rightarrow> (rb_module, rb_error, unit) op" where
  "context_init vm = op_bind (define_all vm ''Context'' context_methods)
     (\<lambda>_. op_seq (map (define_method vm ''Context'') vending_methods))"

definition message_init :: "rb_vm \<Rightarrow> (rb_module, rb_error, unit) op" where
  "message_init vm = op_seq [define_all vm ''Message'' message_methods,
     define_all vm ''ExciseMessage'' excise_message_methods]"

definition trigger_init :: "rb_vm \<Rightarrow> (rb_module, rb_error, unit) op" where
  "trigger_init vm = define_all vm ''Timer'' timer_methods"

definition handler_init :: "rb_vm \<Rightarrow> (rb_module, rb_error, unit) op" where
  "handler_init vm = op_seq [context_init vm, message_init vm, state_register vm, trigger_init vm]"

definition admin_init :: "rb_vm \<Rightarrow> (rb_module, rb_error, unit) op" where
  "admin_init vm = define_all vm ''AdminClient'' admin_methods"

definition bridge_init :: "rb_vm \<Rightarrow> (rb_module, rb_error, unit) op" where
  "bridge_init vm = define_class vm ''DynamicResult''"

definition published_init :: "rb_vm \<Rightarrow> (rb_module, rb_error, unit) op" where
  "published_init vm = op_seq [define_all vm ''NativePublishedValue'' published_value_methods,
     define_all vm ''NativePublishedMap'' published_map_methods,
     define_all vm ''NativePublishedSet'' published_set_methods,
     define_all vm ''NativePublishedDeque'' published_deque_methods]"

definition client_init :: "rb_vm \<Rightarrow> (rb_module, rb_error, unit) op" where
  "client_init vm = define_all vm ''Client'' client_methods"

definition register_shutdown_at_exit :: "rb_vm \<Rightarrow> (rb_module, rb_error, unit) op" where
  "register_shutdown_at_exit vm = rb_try (vm_at_exit vm) (\<lambda>m. m\<lparr>md_at_exit := Suc (md_at_exit m)\<rparr>)"

definition util_init :: "rb_vm \<Rightarrow> (rb_module, rb_error, unit) op" where
  "util_init vm = op_seq [define_function vm (''flush_telemetry'', 0),
     define_function vm (''shutdown_telemetry'', 0), register_shutdown_at_exit vm]"

definition entry_init :: "rb_vm \<Rightarrow> (rb_module, rb_error, unit) op" where
  "entry_init vm = op_seq [admin_init vm, bridge_init vm, handler_init vm, published_init vm,
     client_init vm, util_init vm]"

subsection \<open>Calls\<close>

definition answers :: "(rb_method \<times> int) list \<Rightarrow> string \<times> nat \<Rightarrow> bool" where
  "answers ms call =
     (case map_of ms (Instance (fst call)) of
        None \<Rightarrow> False
      | Some arity \<Rightarrow> arity = - 1 \<or> arity = int (snd call))"

definition responds :: "rb_module \<Rightarrow> string \<Rightarrow> string \<times> nat \<Rightarrow> bool" where
  "responds m c call =
     (case map_of (md_classes m) c of None \<Rightarrow> False | Some ms \<Rightarrow> answers ms call)"

text \<open>
  The calls that lib/prosody makes on native objects, with their numbers of arguments: the
  vending methods, the readers and requests of a client, the handles of \<open>ValueState\<close>,
  \<open>MapState\<close>, \<open>SetState\<close>, \<open>DequeState\<close> and \<open>Handle\<close>, the cursors of \<open>Scanning#traverse\<close>, and
  the \<open>Published\<close> readers.
\<close>

definition context_calls :: "(string \<times> nat) list" where
  "context_calls =
    [(''value_state'', 1), (''map_state'', 1), (''set_state'', 1), (''deque_state'', 1),
     (''message_value_state'', 1), (''message_map_state'', 1), (''message_deque_state'', 1)]"

definition client_calls :: "(string \<times> nat) list" where
  "client_calls =
    [(''published_value'', 3), (''published_map'', 3), (''published_set'', 3),
     (''published_deque'', 3), (''native_request'', 1), (''native_request_excise'', 1),
     (''shutdown'', 0)]"

definition value_calls :: "(string \<times> nat) list" where
  "value_calls =
    [(''get'', 0), (''set'', 1), (''clear'', 0), (''commit'', 0), (''rollback'', 0)]"

definition map_calls :: "(string \<times> nat) list" where
  "map_calls =
    [(''get'', 1), (''get_many'', 1), (''contains_many'', 1), (''is_empty'', 0),
     (''set'', 2), (''remove'', 1), (''clear'', 0), (''contains_key'', 1), (''scan'', 2),
     (''keys'', 2), (''commit'', 0), (''rollback'', 0)]"

definition set_calls :: "(string \<times> nat) list" where
  "set_calls =
    [(''insert'', 1), (''remove'', 1), (''contains'', 1), (''contains_many'', 1),
     (''is_empty'', 0), (''clear'', 0), (''keys'', 2), (''commit'', 0), (''rollback'', 0)]"

definition deque_calls :: "(string \<times> nat) list" where
  "deque_calls =
    [(''push_back'', 1), (''push_front'', 1), (''pop_back'', 0), (''pop_front'', 0),
     (''len'', 0), (''is_empty'', 0), (''clear'', 0), (''get'', 1), (''peek_front'', 0),
     (''peek_back'', 0), (''scan'', 2), (''commit'', 0), (''rollback'', 0)]"

definition scan_calls :: "(string \<times> nat) list" where
  "scan_calls =
    [(''next_chunk'', 0), (''close'', 0)]"

definition published_value_calls :: "(string \<times> nat) list" where
  "published_value_calls =
    [(''get'', 1)]"

definition published_map_calls :: "(string \<times> nat) list" where
  "published_map_calls =
    [(''get'', 2), (''get_many'', 2), (''contains_key'', 2), (''contains_many'', 2),
     (''is_empty'', 1), (''scan'', 3), (''keys'', 3)]"

definition published_set_calls :: "(string \<times> nat) list" where
  "published_set_calls =
    [(''contains'', 2), (''contains_many'', 2), (''is_empty'', 1), (''keys'', 3)]"

definition published_deque_calls :: "(string \<times> nat) list" where
  "published_deque_calls =
    [(''get'', 2), (''length'', 1), (''is_empty'', 1), (''peek_front'', 1),
     (''peek_back'', 1), (''scan'', 3)]"

definition wrapper_calls :: "(string list \<times> (string \<times> nat) list) list" where
  "wrapper_calls =
    [([''Context''], context_calls),
     ([''Client''], client_calls),
     ([''NativeJsonValueState'', ''NativeMessageValueState''], value_calls),
     ([''NativeJsonMapState'', ''NativeMessageMapState''], map_calls),
     ([''NativeSetState''], set_calls),
     ([''NativeJsonDequeState'', ''NativeMessageDequeState''], deque_calls),
     ([''NativeJsonDequeScan'', ''NativeJsonMapScan'', ''NativeMessageDequeScan'',
      ''NativeMessageMapScan'', ''NativeMapKeyScan''], scan_calls),
     ([''NativePublishedValue''], published_value_calls),
     ([''NativePublishedMap''], published_map_calls),
     ([''NativePublishedSet''], published_set_calls),
     ([''NativePublishedDeque''], published_deque_calls)]"

definition loaded :: rb_module where
  "loaded = snd (entry_init quiet_vm empty_module)"

text \<open>Names that change a collection; a reader of another group's state must have none.\<close>

definition mutators :: "string list" where
  "mutators = [''set'', ''remove'', ''insert'', ''clear'', ''push_back'', ''push_front'', ''pop_back'',
     ''pop_front'', ''commit'', ''rollback'']"

definition published_classes :: "string list" where
  "published_classes = [''NativePublishedValue'', ''NativePublishedMap'', ''NativePublishedSet'',
     ''NativePublishedDeque'']"

subsection \<open>Loading\<close>

lemma update_new: "k \<notin> fst ` set al \<Longrightarrow> AList.update k v al = al @ [(k, v)]"
  by (induction al) auto

lemma map_entry_new:
  "c \<notin> fst ` set cs \<Longrightarrow> AList.map_entry c f (cs @ [(c, ms)]) = cs @ [(c, f ms)]"
  by (induction cs) auto

lemma define_method_quiet:
  assumes "c \<notin> fst ` set cs" and "fst d \<notin> fst ` set ms"
  shows "define_method quiet_vm c d (m\<lparr>md_classes := cs @ [(c, ms)]\<rparr>) =
    (Inr (), m\<lparr>md_classes := cs @ [(c, ms @ [d])]\<rparr>)"
  using assms
  by (simp add: define_method_def rb_try_def quiet_vm_def map_entry_new update_new)

lemma define_methods_quiet:
  "c \<notin> fst ` set cs \<Longrightarrow> distinct (map fst (ms @ ds)) \<Longrightarrow>
     op_seq (map (define_method quiet_vm c) ds) (m\<lparr>md_classes := cs @ [(c, ms)]\<rparr>) =
       (Inr (), m\<lparr>md_classes := cs @ [(c, ms @ ds)]\<rparr>)"
proof (induction ds arbitrary: ms)
  case (Cons d ds)
  then have "define_method quiet_vm c d (m\<lparr>md_classes := cs @ [(c, ms)]\<rparr>) =
      (Inr (), m\<lparr>md_classes := cs @ [(c, ms @ [d])]\<rparr>)"
    by (intro define_method_quiet) auto
  with Cons show ?case by (simp add: op_bind_def)
qed simp

text \<open>A new class with distinct method names gets exactly its table.\<close>

lemma define_all_quiet:
  assumes "c \<notin> fst ` set (md_classes m)" and "distinct (map fst ds)"
  shows "define_all quiet_vm c ds m = (Inr (), m\<lparr>md_classes := md_classes m @ [(c, ds)]\<rparr>)"
proof -
  have "define_class quiet_vm c m = (Inr (), m\<lparr>md_classes := md_classes m @ [(c, [])]\<rparr>)"
    using assms(1) by (simp add: define_class_def rb_try_def quiet_vm_def)
  then show ?thesis
    using define_methods_quiet [of c "md_classes m" "[]" ds m] assms
    by (simp add: define_all_def op_bind_def)
qed

lemmas method_tables = client_methods_def context_methods_def vending_methods_def
  message_methods_def excise_message_methods_def timer_methods_def admin_methods_def
  value_methods_def map_methods_def set_methods_def deque_methods_def scan_methods_def
  published_value_methods_def published_map_methods_def published_set_methods_def
  published_deque_methods_def

lemma tables_distinct:
  "distinct (map fst client_methods)" "distinct (map fst (context_methods @ vending_methods))"
  "distinct (map fst message_methods)" "distinct (map fst excise_message_methods)"
  "distinct (map fst timer_methods)" "distinct (map fst admin_methods)"
  "distinct (map fst value_methods)" "distinct (map fst map_methods)"
  "distinct (map fst set_methods)" "distinct (map fst deque_methods)"
  "distinct (map fst scan_methods)" "distinct (map fst published_value_methods)"
  "distinct (map fst published_map_methods)" "distinct (map fst published_set_methods)"
  "distinct (map fst published_deque_methods)"
  by (simp_all add: method_tables)

lemma context_init_quiet:
  assumes "''Context'' \<notin> fst ` set (md_classes m)"
  shows "context_init quiet_vm m =
    (Inr (), m\<lparr>md_classes := md_classes m @ [(''Context'', context_methods @ vending_methods)]\<rparr>)"
proof -
  have "distinct (map fst context_methods)" using tables_distinct(2) by simp
  from define_all_quiet [OF assms this] show ?thesis
    using define_methods_quiet [OF assms tables_distinct(2), of m] by (simp add: context_init_def)
qed

definition loaded_classes :: "(string \<times> (rb_method \<times> int) list) list" where
  "loaded_classes =
    [(''AdminClient'', admin_methods), (''DynamicResult'', []),
     (''Context'', context_methods @ vending_methods), (''Message'', message_methods),
     (''ExciseMessage'', excise_message_methods),
     (''NativeJsonValueState'', value_methods), (''NativeMessageValueState'', value_methods),
     (''NativeJsonMapState'', map_methods), (''NativeMessageMapState'', map_methods),
     (''NativeSetState'', set_methods), (''NativeJsonDequeState'', deque_methods),
     (''NativeMessageDequeState'', deque_methods), (''NativeJsonDequeScan'', scan_methods),
     (''NativeJsonMapScan'', scan_methods), (''NativeMessageDequeScan'', scan_methods),
     (''NativeMessageMapScan'', scan_methods), (''NativeMapKeyScan'', scan_methods),
     (''Timer'', timer_methods), (''NativePublishedValue'', published_value_methods),
     (''NativePublishedMap'', published_map_methods),
     (''NativePublishedSet'', published_set_methods),
     (''NativePublishedDeque'', published_deque_methods), (''Client'', client_methods)]"

lemma wrapped_name_native:
  "wrapped_name (CHR ''P'' # CHR ''r'' # CHR ''o'' # CHR ''s'' # CHR ''o'' # CHR ''d'' # CHR ''y'' #
     CHR '':'' # CHR '':'' # CHR ''N'' # c) = CHR ''N'' # c"
  by (simp add: wrapped_name_def trim_prosody.simps)

lemma quiet_vm_simps:
  "vm_class quiet_vm c = None" "vm_method quiet_vm c d = None" "vm_function quiet_vm f = None"
  "vm_at_exit quiet_vm = None"
  by (simp_all add: quiet_vm_def)

lemma loaded_tables:
  "map_of loaded_classes ''Context'' = Some (context_methods @ vending_methods)"
  "map_of loaded_classes ''NativeJsonValueState'' = Some value_methods"
  "map_of loaded_classes ''NativeMessageValueState'' = Some value_methods"
  "map_of loaded_classes ''NativeJsonMapState'' = Some map_methods"
  "map_of loaded_classes ''NativeMessageMapState'' = Some map_methods"
  "map_of loaded_classes ''NativeSetState'' = Some set_methods"
  "map_of loaded_classes ''NativeJsonDequeState'' = Some deque_methods"
  "map_of loaded_classes ''NativeMessageDequeState'' = Some deque_methods"
  "map_of loaded_classes ''NativeJsonDequeScan'' = Some scan_methods"
  "map_of loaded_classes ''NativeJsonMapScan'' = Some scan_methods"
  "map_of loaded_classes ''NativeMessageDequeScan'' = Some scan_methods"
  "map_of loaded_classes ''NativeMessageMapScan'' = Some scan_methods"
  "map_of loaded_classes ''NativeMapKeyScan'' = Some scan_methods"
  "map_of loaded_classes ''NativePublishedValue'' = Some published_value_methods"
  "map_of loaded_classes ''NativePublishedMap'' = Some published_map_methods"
  "map_of loaded_classes ''NativePublishedSet'' = Some published_set_methods"
  "map_of loaded_classes ''NativePublishedDeque'' = Some published_deque_methods"
  "map_of loaded_classes ''Client'' = Some client_methods"
  by (simp_all add: loaded_classes_def)

lemma tables_answer:
  "list_all (answers (context_methods @ vending_methods)) context_calls"
  "list_all (answers client_methods) client_calls"
  "list_all (answers value_methods) value_calls"
  "list_all (answers map_methods) map_calls"
  "list_all (answers set_methods) set_calls"
  "list_all (answers deque_methods) deque_calls"
  "list_all (answers scan_methods) scan_calls"
  "list_all (answers published_value_methods) published_value_calls"
  "list_all (answers published_map_methods) published_map_calls"
  "list_all (answers published_set_methods) published_set_calls"
  "list_all (answers published_deque_methods) published_deque_calls"
  by (simp_all add: method_tables answers_def context_calls_def client_calls_def value_calls_def
      map_calls_def set_calls_def deque_calls_def scan_calls_def published_value_calls_def
      published_map_calls_def published_set_calls_def published_deque_calls_def)

lemma entry_init_loaded:
  "entry_init quiet_vm empty_module =
     (Inr (), \<lparr>md_classes = loaded_classes, 
        md_functions = [(''flush_telemetry'', 0), (''shutdown_telemetry'', 0)], md_at_exit = 1\<rparr>)"
  by (simp add: entry_init_def admin_init_def bridge_init_def handler_init_def published_init_def
      client_init_def util_init_def message_init_def trigger_init_def state_register_def
      register_class_def context_init_quiet define_all_quiet tables_distinct op_bind_def
      define_class_def define_function_def register_shutdown_at_exit_def rb_try_def quiet_vm_simps
      wrapped_name_native empty_module_def loaded_classes_def)

lemma responds_eq:
  "map_of (md_classes m) c = Some ms \<Longrightarrow> responds m c = answers ms"
  by (simp add: responds_def fun_eq_iff)

subsection \<open>Properties\<close>


text \<open>
  Published readers are read-only: no class of a reader answers a call, with any number of
  arguments, that writes, removes, commits or rolls back.
\<close>

theorem published_read_only:
  "\<not> (\<exists>c name n. c \<in> set published_classes \<and> name \<in> set mutators \<and> responds loaded c (name, n))"
  by (auto simp: published_classes_def mutators_def responds_def loaded_def entry_init_loaded
      loaded_tables answers_def method_tables)

end
