(* ===== verification/Events.thy ===== *)
theory Events
  imports Handler Registration
begin

text \<open>
  The objects a handler method is given: messages, excise messages and timers with the methods
  they answer (handler/message.rs, handler/trigger.rs), and the demand of a call
  (lib/prosody/demand.rb).
\<close>

datatype event_value =
    Text string
  | Text_option "string option"
  | Number int
  | Flag bool
  | Moment ruby_time
  | Ruby_value "rb_error + rvalue"

fun message_call ::
  "('p \<Rightarrow> rb_error + rvalue) \<Rightarrow> 'p consumer_message \<Rightarrow> rb_method \<Rightarrow> event_value option"
where
  "message_call serialize m (Instance name) =
     (if name = ''topic'' then Some (Text (message_topic m))
      else if name = ''partition'' then Some (Number (sint (message_partition m)))
      else if name = ''offset'' then Some (Number (sint (message_offset m)))
      else if name = ''key'' then Some (Text (message_key m))
      else if name = ''timestamp'' then Some (Moment (message_timestamp m))
      else if name = ''payload'' then Some (Ruby_value (message_payload serialize m))
      else if name = ''source_system'' then Some (Text_option (message_source_system m))
      else if name = ''response_requested?'' then Some (Flag (message_response_requested m))
      else None)"
| "message_call serialize m _ = None"

text \<open>An excise message has readers of its own, and no payload.\<close>

fun excise_call :: "unit consumer_message \<Rightarrow> rb_method \<Rightarrow> event_value option" where
  "excise_call m (Instance name) =
     (if name = ''topic'' then Some (Text (cm_topic m))
      else if name = ''partition'' then Some (Number (sint (cm_partition m)))
      else if name = ''offset'' then Some (Number (sint (cm_offset m)))
      else if name = ''key'' then Some (Text (cm_key m))
      else if name = ''timestamp'' then Some (Moment (time_at (sint (cm_timestamp m) * 1000)))
      else if name = ''source_system'' then Some (Text_option (cm_source_system m))
      else if name = ''response_requested?'' then Some (Flag (cm_response_requested m))
      else None)"
| "excise_call m _ = None"

fun timer_call :: "trigger \<Rightarrow> rb_method \<Rightarrow> event_value option" where
  "timer_call t (Instance name) =
     (if name = ''key'' then Some (Text (timer_key t))
      else if name = ''time'' then Some (Moment (timer_time t))
      else None)"
| "timer_call t _ = None"

text \<open>\<open>Demand#normal?\<close> and \<open>Demand#failure?\<close>, on the members \<open>kind\<close> and \<open>retries\<close>.\<close>

definition demand_normal :: "string \<times> u32 \<Rightarrow> bool" where
  "demand_normal d \<longleftrightarrow> fst d = ''normal''"

definition demand_failure :: "string \<times> u32 \<Rightarrow> bool" where
  "demand_failure d \<longleftrightarrow> fst d = ''failure''"

text \<open>
  An event answers exactly the methods that loading the extension defines for its class, and
  an excise message answers each as the message of the same record does.
\<close>

theorem events_answer_their_methods:
  "(message_call serialize m meth \<noteq> None \<longleftrightarrow> (meth, 0) \<in> set message_methods) \<and>
   (excise_call x meth \<noteq> None \<longleftrightarrow> (meth, 0) \<in> set excise_message_methods) \<and>
   (timer_call t meth \<noteq> None \<longleftrightarrow> (meth, 0) \<in> set timer_methods) \<and>
   (excise_call x meth = None \<or> excise_call x meth = message_call (\<lambda>_. Inr RNil) x meth)"
  by (cases meth)
     (auto simp: message_methods_def excise_message_methods_def timer_methods_def message_topic_def
       message_partition_def message_offset_def message_key_def message_timestamp_def
       message_source_system_def message_response_requested_def)

text \<open>A demand is of one of the two kinds, and tells a retry from a first delivery.\<close>

theorem demand_tells_retries:
  "(demand_normal (context_demand d) \<longleftrightarrow> d = Normal) \<and>
   (demand_failure (context_demand d) \<longleftrightarrow> d \<noteq> Normal) \<and>
   (d = Normal \<or> d = Failure (snd (context_demand d)))"
  by (cases d) (simp_all add: demand_normal_def demand_failure_def)

end
