(* ===== verification/Query.thy ===== *)
theory Query
  imports Ruby_Model
begin

text \<open>
  handler/state/query.rs: the translation of Ruby's query keywords into calls of the core's
  query builders. The builders are the core's; a query is the list of builder calls that
  produces it. Ruby's \<open>inspect\<close>, which error messages quote, is a parameter.
\<close>

subsection \<open>Data\<close>

datatype direction = Forward | Backward

datatype 'a bound = Included 'a | Excluded 'a | Unbounded

datatype 'a builder_call =
    Q_direction direction
  | Q_from 'a
  | Q_after 'a
  | Q_to 'a
  | Q_before 'a
  | Q_range "'a bound" "'a bound"
  | Q_prefix string
  | Q_limit usize

record query_keywords =
  kw_from :: "rvalue option"
  kw_after :: "rvalue option"
  kw_to :: "rvalue option"
  kw_before :: "rvalue option"
  kw_range :: "rvalue option"
  kw_prefix :: "rvalue option"
  kw_limit :: "rvalue option"

record 'a bounds =
  bd_start :: "'a bound"
  bd_end :: "'a bound"
  bd_range :: "('a bound \<times> 'a bound) option"
  bd_limit :: "usize option"

definition no_keywords :: query_keywords where
  "no_keywords = \<lparr>kw_from = None, kw_after = None, kw_to = None, kw_before = None,
     kw_range = None, kw_prefix = None, kw_limit = None\<rparr>"

subsection \<open>Parsing\<close>

definition unknown_keyword :: "string \<Rightarrow> rb_error" where
  "unknown_keyword other = argument_error (''unknown keyword: :'' @ other)"

text \<open>\<open>Keywords::collect\<close>: the slot of a keyword, then the walk over the options.\<close>

definition put_keyword :: "bool \<Rightarrow> string \<Rightarrow> rvalue option \<Rightarrow> query_keywords \<Rightarrow> query_keywords option" where
  "put_keyword prefix_allowed name v kw =
     (if name = ''from'' then Some (kw\<lparr>kw_from := v\<rparr>)
      else if name = ''after'' then Some (kw\<lparr>kw_after := v\<rparr>)
      else if name = ''to'' then Some (kw\<lparr>kw_to := v\<rparr>)
      else if name = ''before'' then Some (kw\<lparr>kw_before := v\<rparr>)
      else if name = ''range'' then Some (kw\<lparr>kw_range := v\<rparr>)
      else if name = ''prefix'' \<and> prefix_allowed then Some (kw\<lparr>kw_prefix := v\<rparr>)
      else if name = ''limit'' then Some (kw\<lparr>kw_limit := v\<rparr>)
      else None)"

fun collect_from :: "bool \<Rightarrow> (rvalue \<times> rvalue) list \<Rightarrow> query_keywords \<Rightarrow> rb_error + query_keywords" where
  "collect_from prefix_allowed [] kw = Inr kw"
| "collect_from prefix_allowed ((k, v) # options) kw =
     (case k of
        RSymbol name \<Rightarrow>
          (case put_keyword prefix_allowed name (if is_nil v then None else Some v) kw of
             None \<Rightarrow> Inl (unknown_keyword name)
           | Some kw \<Rightarrow> collect_from prefix_allowed options kw)
      | _ \<Rightarrow> Inl (Rb_error type_error_class ''no implicit conversion into Symbol''))"

definition collect :: "(rvalue \<times> rvalue) list \<Rightarrow> bool \<Rightarrow> rb_error + query_keywords" where
  "collect options prefix_allowed = collect_from prefix_allowed options no_keywords"

definition edge ::
  "string \<times> rvalue option \<Rightarrow> string \<times> rvalue option \<Rightarrow> (string \<Rightarrow> rvalue \<Rightarrow> rb_error + 'a) \<Rightarrow>
    rb_error + 'a bound"
where
  "edge inclusive exclusive convert =
     (case (inclusive, exclusive) of
        ((inclusive_name, Some _), (exclusive_name, Some _)) \<Rightarrow>
          Inl (argument_error (inclusive_name @ '': and '' @ exclusive_name @
            '': are exclusive; pass one of them''))
      | ((inclusive_name, Some v), (_, None)) \<Rightarrow> res_map Included (convert inclusive_name v)
      | ((_, None), (exclusive_name, Some v)) \<Rightarrow> res_map Excluded (convert exclusive_name v)
      | ((_, None), (_, None)) \<Rightarrow> Inr Unbounded)"

definition range_bounds ::
  "(rvalue \<Rightarrow> string) \<Rightarrow> (string \<Rightarrow> rvalue \<Rightarrow> rb_error + 'a) \<Rightarrow> rvalue \<Rightarrow> rb_error + 'a bound \<times> 'a bound"
where
  "range_bounds inspect convert v =
     (case v of
        RRange low high excl \<Rightarrow>
          res_bind (if is_nil low then Inr Unbounded else res_map Included (convert ''range'' low))
            (\<lambda>low.
          res_bind (if is_nil high then Inr Unbounded
                    else res_map (if excl then Excluded else Included) (convert ''range'' high))
            (\<lambda>high. Inr (low, high)))
      | _ \<Rightarrow> Inl (Rb_error type_error_class (''range: expected a Range, got '' @ inspect v)))"

definition position :: "(rvalue \<Rightarrow> string) \<Rightarrow> string \<Rightarrow> rvalue \<Rightarrow> rb_error + usize" where
  "position inspect keyword v =
     (let invalid = argument_error (keyword @ '': expected a non-negative Integer position, got '' @ inspect v)
      in case integer_from_value v of
           None \<Rightarrow> Inl invalid
         | Some n \<Rightarrow> (case usize_try_from n of None \<Rightarrow> Inl invalid | Some p \<Rightarrow> Inr p))"

definition query_limit :: "(rvalue \<Rightarrow> string) \<Rightarrow> rvalue \<Rightarrow> rb_error + usize" where
  "query_limit inspect v =
     (let invalid = argument_error (''limit: expected a positive Integer, got '' @ inspect v)
      in case integer_from_value v of
           None \<Rightarrow> Inl invalid
         | Some n \<Rightarrow>
             (case usize_try_from n of
                None \<Rightarrow> Inl invalid
              | Some l \<Rightarrow> if l = 0 then Inl invalid else Inr l))"

text \<open>\<open>Keywords::bounds\<close>\<close>

definition keyword_bounds ::
  "(rvalue \<Rightarrow> string) \<Rightarrow> (string \<Rightarrow> rvalue \<Rightarrow> rb_error + 'a) \<Rightarrow> query_keywords \<Rightarrow> rb_error + 'a bounds"
where
  "keyword_bounds inspect convert kw =
     res_bind (edge (''from'', kw_from kw) (''after'', kw_after kw) convert) (\<lambda>start.
     res_bind (edge (''to'', kw_to kw) (''before'', kw_before kw) convert) (\<lambda>end'.
     res_bind (opt_traverse (range_bounds inspect convert) (kw_range kw)) (\<lambda>range.
     res_bind (opt_traverse (query_limit inspect) (kw_limit kw)) (\<lambda>limit.
       Inr \<lparr>bd_start = start, bd_end = end', bd_range = range, bd_limit = limit\<rparr>))))"

definition parse_direction :: "'ctx rb_env \<Rightarrow> string \<Rightarrow> rb_error + direction" where
  "parse_direction env name =
     (if name = ''forward'' then Inr Forward
      else if name = ''backward'' then Inr Backward
      else Inl (ruby_error env ''TransientStateError''
        (''direction: expected :forward or :backward, got :'' @ name)))"

text \<open>The builder calls for an edge.\<close>

fun start_calls :: "'a bound \<Rightarrow> 'a builder_call list" where
  "start_calls (Included k) = [Q_from k]"
| "start_calls (Excluded k) = [Q_after k]"
| "start_calls Unbounded = []"

fun end_calls :: "'a bound \<Rightarrow> 'a builder_call list" where
  "end_calls (Included k) = [Q_to k]"
| "end_calls (Excluded k) = [Q_before k]"
| "end_calls Unbounded = []"

definition opt_call :: "('b \<Rightarrow> 'a builder_call) \<Rightarrow> 'b option \<Rightarrow> 'a builder_call list" where
  "opt_call f x = (case x of None \<Rightarrow> [] | Some y \<Rightarrow> [f y])"

definition key_query ::
  "'ctx rb_env \<Rightarrow> (rvalue \<Rightarrow> string) \<Rightarrow> string \<Rightarrow> (rvalue \<times> rvalue) list \<Rightarrow>
    rb_error + string builder_call list"
where
  "key_query env inspect direction options =
     res_bind (parse_direction env direction) (\<lambda>dir.
     res_bind (collect options True) (\<lambda>kw.
     res_bind (opt_traverse string_try_convert (kw_prefix kw)) (\<lambda>prefix.
     res_bind (keyword_bounds inspect (\<lambda>_. string_try_convert) kw) (\<lambda>b.
       Inr ([Q_direction dir] @ start_calls (bd_start b) @ end_calls (bd_end b) @
            opt_call (\<lambda>(low, high). Q_range low high) (bd_range b) @
            opt_call Q_prefix prefix @ opt_call Q_limit (bd_limit b))))))"

definition position_query ::
  "'ctx rb_env \<Rightarrow> (rvalue \<Rightarrow> string) \<Rightarrow> string \<Rightarrow> (rvalue \<times> rvalue) list \<Rightarrow>
    rb_error + usize builder_call list"
where
  "position_query env inspect direction options =
     res_bind (parse_direction env direction) (\<lambda>dir.
     res_bind (res_bind (collect options False) (keyword_bounds inspect (position inspect))) (\<lambda>b.
       Inr ([Q_direction dir] @ start_calls (bd_start b) @ end_calls (bd_end b) @
            opt_call (\<lambda>(low, high). Q_range low high) (bd_range b) @
            opt_call Q_limit (bd_limit b))))"

subsection \<open>The options a query carries\<close>

text \<open>An option is set when its keyword is there with a value other than \<open>nil\<close>.\<close>

definition option_value :: "string \<Rightarrow> (rvalue \<times> rvalue) list \<Rightarrow> rvalue option" where
  "option_value name options =
     (case map_of options (RSymbol name) of
        None \<Rightarrow> None
      | Some v \<Rightarrow> if is_nil v then None else Some v)"

definition known_keyword :: "bool \<Rightarrow> string \<Rightarrow> bool" where
  "known_keyword prefix_allowed name \<longleftrightarrow>
     name = ''from'' \<or> name = ''after'' \<or> name = ''to'' \<or> name = ''before'' \<or>
     name = ''range'' \<or> name = ''limit'' \<or> name = ''prefix'' \<and> prefix_allowed"

definition keyword_of :: "query_keywords \<Rightarrow> string \<Rightarrow> rvalue option" where
  "keyword_of kw name =
     (if name = ''from'' then kw_from kw else if name = ''after'' then kw_after kw
      else if name = ''to'' then kw_to kw else if name = ''before'' then kw_before kw
      else if name = ''range'' then kw_range kw else if name = ''prefix'' then kw_prefix kw
      else if name = ''limit'' then kw_limit kw else None)"

lemma keyword_of_simps [simp]:
  "keyword_of kw ''from'' = kw_from kw" "keyword_of kw ''after'' = kw_after kw"
  "keyword_of kw ''to'' = kw_to kw" "keyword_of kw ''before'' = kw_before kw"
  "keyword_of kw ''range'' = kw_range kw" "keyword_of kw ''prefix'' = kw_prefix kw"
  "keyword_of kw ''limit'' = kw_limit kw"
  by (simp_all add: keyword_of_def)

lemma keywords_eqI: "(\<And>m. keyword_of kw m = keyword_of kw' m) \<Longrightarrow> kw = kw'"
proof -
  assume eq: "\<And>m. keyword_of kw m = keyword_of kw' m"
  show ?thesis
    using eq [of "''from''"] eq [of "''after''"] eq [of "''to''"] eq [of "''before''"]
      eq [of "''range''"] eq [of "''prefix''"] eq [of "''limit''"]
    by (simp only: keyword_of_simps) (simp add: query_keywords.equality)
qed

lemma keyword_of_none [simp]: "keyword_of no_keywords m = None"
  by (simp add: keyword_of_def no_keywords_def)

lemma put_keyword_None_iff: "put_keyword pa n v kw = None \<longleftrightarrow> \<not> known_keyword pa n"
  by (simp add: put_keyword_def known_keyword_def)

lemma put_keyword_SomeD:
  "put_keyword pa n v kw = Some kw' \<Longrightarrow> keyword_of kw' m = (if m = n then v else keyword_of kw m)"
proof -
  assume put: "put_keyword pa n v kw = Some kw'"
  then have "known_keyword pa n" using put_keyword_None_iff by (metis option.distinct(1))
  then consider "n = ''from''" | "n = ''after''" | "n = ''to''" | "n = ''before''"
    | "n = ''range''" | "n = ''limit''" | "n = ''prefix''" "pa"
    unfolding known_keyword_def by metis
  then show ?thesis
    using put by cases (simp_all add: put_keyword_def, safe, simp_all add: keyword_of_def)
qed

lemma collect_from_Inr:
  assumes "distinct (map fst options)"
  shows "collect_from pa options kw = Inr kw' \<longleftrightarrow>
    (\<forall>k\<in>fst ` set options. \<exists>n. k = RSymbol n \<and> known_keyword pa n) \<and>
    (\<forall>m. keyword_of kw' m =
       (if RSymbol m \<in> fst ` set options then option_value m options else keyword_of kw m))"
  using assms
proof (induction pa options kw rule: collect_from.induct)
  case (1 pa kw)
  then show ?case using keywords_eqI [of kw kw'] by auto
next
  case (2 pa k v options kw)
  show ?case
  proof (cases "\<exists>n. k = RSymbol n \<and> known_keyword pa n")
    case False
    then have "collect_from pa ((k, v) # options) kw \<noteq> Inr kw'"
      by (cases k) (auto simp: put_keyword_None_iff [THEN iffD2])
    with False show ?thesis by auto
  next
    case True
    then obtain n where n: "k = RSymbol n" "known_keyword pa n" by blast
    then obtain kw1 where put: "put_keyword pa n (if is_nil v then None else Some v) kw = Some kw1"
      using put_keyword_None_iff by fastforce
    have fresh: "RSymbol n \<notin> fst ` set options" using 2(2) n by simp
    have eq: "(if RSymbol m \<in> fst ` set options then option_value m options else keyword_of kw1 m) =
        (if RSymbol m \<in> fst ` set ((k, v) # options) then option_value m ((k, v) # options)
         else keyword_of kw m)" for m
      using fresh n by (cases "m = n") (auto simp: put_keyword_SomeD [OF put] option_value_def)
    show ?thesis
      using 2 n put by (simp add: eq [simplified])
  qed
qed

definition keywords_known :: "bool \<Rightarrow> (rvalue \<times> rvalue) list \<Rightarrow> bool" where
  "keywords_known pa options \<longleftrightarrow>
     (\<forall>k\<in>fst ` set options. \<exists>n. k = RSymbol n \<and> known_keyword pa n)"

lemma option_value_absent: "RSymbol m \<notin> fst ` set options \<Longrightarrow> option_value m options = None"
  by (auto simp: option_value_def map_of_eq_None_iff [THEN iffD2])

lemma collect_Inr:
  "distinct (map fst options) \<Longrightarrow> collect options pa = Inr kw \<longleftrightarrow>
     keywords_known pa options \<and> (\<forall>m. keyword_of kw m = option_value m options)"
  using option_value_absent
  by (auto simp: collect_def collect_from_Inr keywords_known_def) (metis+)

text \<open>The record that collecting known options makes.\<close>

definition keywords_for :: "(rvalue \<times> rvalue) list \<Rightarrow> query_keywords" where
  "keywords_for options =
     \<lparr>kw_from = option_value ''from'' options, kw_after = option_value ''after'' options,
      kw_to = option_value ''to'' options, kw_before = option_value ''before'' options,
      kw_range = option_value ''range'' options, kw_prefix = option_value ''prefix'' options,
      kw_limit = option_value ''limit'' options\<rparr>"

lemma collect_known:
  assumes "distinct (map fst options)" and "keywords_known pa options"
  shows "collect options pa = Inr (keywords_for options)"
proof -
  have "option_value m options = None" if "\<not> known_keyword pa m" for m
    using that assms(2) by (intro option_value_absent) (auto simp: keywords_known_def)
  then have "keyword_of (keywords_for options) m = option_value m options" for m
    by (cases "known_keyword pa m")
       (auto simp: keyword_of_def keywords_for_def known_keyword_def)
  with assms show ?thesis by (simp add: collect_Inr)
qed

lemma collect_unknown:
  assumes "distinct (map fst options)" and "\<not> keywords_known pa options"
  obtains e where "collect options pa = Inl e"
  using assms by (cases "collect options pa") (auto simp: collect_Inr)

text \<open>What makes the two options of an edge, and a range, acceptable.\<close>

definition edge_valid :: "(rvalue \<Rightarrow> bool) \<Rightarrow> rvalue option \<Rightarrow> rvalue option \<Rightarrow> bool" where
  "edge_valid valid inclusive exclusive \<longleftrightarrow>
     (inclusive = None \<or> exclusive = None) \<and>
     (\<forall>v\<in>set_option inclusive \<union> set_option exclusive. valid v)"

definition range_valid :: "(rvalue \<Rightarrow> bool) \<Rightarrow> rvalue \<Rightarrow> bool" where
  "range_valid valid v \<longleftrightarrow>
     (\<exists>low high excl. v = RRange low high excl \<and> (is_nil low \<or> valid low) \<and> (is_nil high \<or> valid high))"

text \<open>
  The interface of the conversions a query uses for its keys or positions: which values
  they accept. The lemmas on edges, ranges and bounds are proved for any such conversion.
\<close>

locale query_converter =
  fixes convert :: "string \<Rightarrow> rvalue \<Rightarrow> rb_error + 'a"
    and valid :: "rvalue \<Rightarrow> bool"
    and inspect :: "rvalue \<Rightarrow> string"
  assumes convert_iff: "(\<exists>x. convert kw v = Inr x) \<longleftrightarrow> valid v"
begin

lemma convert_valid: "valid v \<Longrightarrow> \<exists>x. convert kw v = Inr x"
  by (simp add: convert_iff)

lemma convert_invalid: "\<not> valid v \<Longrightarrow> \<exists>e. convert kw v = Inl e"
  using convert_iff [of kw v] by (cases "convert kw v") auto

lemma edge_iff: "(\<exists>b. edge (i, x) (j, y) convert = Inr b) \<longleftrightarrow> edge_valid valid x y"
  using convert_iff by (cases x; cases y) (auto simp: edge_def edge_valid_def res_map_eq_Inr_iff)

lemma range_iff: "(\<exists>b. range_bounds inspect convert v = Inr b) \<longleftrightarrow> range_valid valid v"
  using convert_iff
  by (cases v) (auto simp: range_bounds_def range_valid_def res_bind_eq_Inr_iff res_map_eq_Inr_iff)

end

definition valid_limit :: "rvalue \<Rightarrow> bool" where
  "valid_limit v \<longleftrightarrow> (\<exists>n. v = RInteger n \<and> 0 < n \<and> n < 2 ^ 64)"

lemma usize_try_from_zero: "usize_try_from n = Some 0 \<longleftrightarrow> n = 0"
  using usize_try_from_SomeD [of n 0] by (auto simp: usize_try_from_def)

lemma query_limit_iff: "(\<exists>l. query_limit inspect v = Inr l) \<longleftrightarrow> valid_limit v"
proof (cases v)
  case (RInteger n)
  then show ?thesis
    using usize_try_from_zero [of n]
    by (auto simp: query_limit_def valid_limit_def Let_def usize_try_from_def split: if_splits)
qed (auto simp: query_limit_def valid_limit_def)

context query_converter
begin

lemma bounds_iff:
  "(\<exists>b. keyword_bounds inspect convert kw = Inr b) \<longleftrightarrow>
     edge_valid valid (kw_from kw) (kw_after kw) \<and> edge_valid valid (kw_to kw) (kw_before kw) \<and>
     (\<forall>v\<in>set_option (kw_range kw). range_valid valid v) \<and> (\<forall>v\<in>set_option (kw_limit kw). valid_limit v)"
proof -
  have opt: "(\<exists>b. opt_traverse f x = Inr b) \<longleftrightarrow> (\<forall>v\<in>set_option x. \<exists>b. f v = Inr b)"
    for f :: "rvalue \<Rightarrow> rb_error + 'z" and x
    by (cases x) (auto simp: res_map_eq_Inr_iff)
  have "(\<exists>b. keyword_bounds inspect convert kw = Inr b) \<longleftrightarrow>
      (\<exists>b. edge (''from'', kw_from kw) (''after'', kw_after kw) convert = Inr b) \<and>
      (\<exists>b. edge (''to'', kw_to kw) (''before'', kw_before kw) convert = Inr b) \<and>
      (\<exists>b. opt_traverse (range_bounds inspect convert) (kw_range kw) = Inr b) \<and>
      (\<exists>b. opt_traverse (query_limit inspect) (kw_limit kw) = Inr b)"
    by (auto simp: keyword_bounds_def res_bind_eq_Inr_iff)
  then show ?thesis by (simp only: edge_iff opt range_iff query_limit_iff)
qed

end

subsection \<open>Keys and positions\<close>

definition valid_key :: "rvalue \<Rightarrow> bool" where
  "valid_key v \<longleftrightarrow> (\<exists>s. v = RString s)"

definition valid_position :: "rvalue \<Rightarrow> bool" where
  "valid_position v \<longleftrightarrow> (\<exists>n. v = RInteger n \<and> 0 \<le> n \<and> n < 2 ^ 64)"

lemma string_try_convert_Inr_iff: "string_try_convert v = Inr s \<longleftrightarrow> v = RString s"
  by (cases v) auto

lemma usize_try_from_Some_iff: "usize_try_from n = Some w \<longleftrightarrow> n = uint w"
  using usize_try_from_SomeD by auto

lemma position_Inr_iff: "position inspect kw v = Inr p \<longleftrightarrow> v = RInteger (uint p)"
  by (cases v) (auto simp: position_def Let_def usize_try_from_Some_iff split: option.splits
      intro: word_uint_eq_iff [THEN iffD2])

lemma query_limit_Inr_iff: "query_limit inspect v = Inr l \<longleftrightarrow> v = RInteger (uint l) \<and> l \<noteq> 0"
  by (cases v) (auto simp: query_limit_def Let_def usize_try_from_Some_iff split: option.splits
      intro: word_uint_eq_iff [THEN iffD2])

lemma uint_range_iff: "(\<exists>p :: usize. n = uint p) \<longleftrightarrow> 0 \<le> n \<and> n < 2 ^ 64"
proof
  assume "\<exists>p :: usize. n = uint p"
  then show "0 \<le> n \<and> n < 2 ^ 64" using uint_lt2p [where 'a = 64] by auto
next
  assume "0 \<le> n \<and> n < 2 ^ 64"
  then have "usize_try_from n = Some (word_of_int n)" by (simp add: usize_try_from_def)
  then have "uint (word_of_int n :: usize) = n" by (rule usize_try_from_SomeD)
  then show "\<exists>p :: usize. n = uint p" by metis
qed

interpretation keys: query_converter "\<lambda>_. string_try_convert" valid_key inspect
  for inspect :: "rvalue \<Rightarrow> string"
  by unfold_locales (simp add: string_try_convert_Inr_iff valid_key_def)

interpretation positions: query_converter "position inspect" valid_position inspect
  for inspect :: "rvalue \<Rightarrow> string"
proof
  fix kw v
  show "(\<exists>x. position inspect kw v = Inr x) \<longleftrightarrow> valid_position v"
    unfolding position_Inr_iff valid_position_def uint_range_iff [symmetric] by blast
qed

lemma parse_direction_iff:
  "(\<exists>d. parse_direction env name = Inr d) \<longleftrightarrow> name = ''forward'' \<or> name = ''backward''"
  by (simp add: parse_direction_def)

lemma collect_iff:
  "distinct (map fst options) \<Longrightarrow>
     (\<exists>kw. collect options pa = Inr kw \<and> P kw) \<longleftrightarrow> keywords_known pa options \<and> P (keywords_for options)"
  by (cases "keywords_known pa options") (simp add: collect_known, auto simp: collect_Inr)

lemma keywords_for_simps [simp]:
  "kw_from (keywords_for options) = option_value ''from'' options"
  "kw_after (keywords_for options) = option_value ''after'' options"
  "kw_to (keywords_for options) = option_value ''to'' options"
  "kw_before (keywords_for options) = option_value ''before'' options"
  "kw_range (keywords_for options) = option_value ''range'' options"
  "kw_prefix (keywords_for options) = option_value ''prefix'' options"
  "kw_limit (keywords_for options) = option_value ''limit'' options"
  by (simp_all add: keywords_for_def)

lemma position_query_iff:
  assumes "distinct (map fst options)"
  shows "position_query env inspect d options = Inr q \<longleftrightarrow>
    keywords_known False options \<and>
    (\<exists>dir b. parse_direction env d = Inr dir \<and>
       keyword_bounds inspect (position inspect) (keywords_for options) = Inr b \<and>
       q = [Q_direction dir] @ start_calls (bd_start b) @ end_calls (bd_end b) @
         opt_call (\<lambda>(low, high). Q_range low high) (bd_range b) @ opt_call Q_limit (bd_limit b))"
proof (cases "keywords_known False options")
  case True
  then show ?thesis
    by (auto simp: position_query_def res_bind_eq_Inr_iff collect_known [OF assms])
next
  case False
  with assms show ?thesis
    by (auto simp: position_query_def res_bind_eq_Inr_iff collect_Inr)
qed

lemma key_query_iff:
  assumes "distinct (map fst options)"
  shows "(\<exists>q. key_query env inspect d options = Inr q) \<longleftrightarrow>
    keywords_known True options \<and> (\<exists>dir. parse_direction env d = Inr dir) \<and>
    (\<exists>p. opt_traverse string_try_convert (option_value ''prefix'' options) = Inr p) \<and>
    (\<exists>b. keyword_bounds inspect (\<lambda>_. string_try_convert) (keywords_for options) = Inr b)"
proof (cases "keywords_known True options")
  case True
  then show ?thesis
    by (auto simp: key_query_def res_bind_eq_Inr_iff collect_known [OF assms])
next
  case False
  with assms show ?thesis
    by (auto simp: key_query_def res_bind_eq_Inr_iff collect_Inr)
qed

lemma edge_Inr_position:
  assumes "edge (i, x) (j, y) (position inspect) = Inr b"
  shows "(b = Included p \<longleftrightarrow> x = Some (RInteger (uint p)))" and
    "(b = Excluded p \<longleftrightarrow> y = Some (RInteger (uint p)))"
  using assms
  by (auto simp: edge_def res_map_eq_Inr_iff position_Inr_iff split: option.splits
      intro: word_uint_eq_iff [THEN iffD2])

lemma start_calls_set:
  "Q_from p \<in> set (start_calls b) \<longleftrightarrow> b = Included p" "Q_after p \<in> set (start_calls b) \<longleftrightarrow> b = Excluded p"
  "Q_to p \<notin> set (start_calls b)" "Q_before p \<notin> set (start_calls b)" "Q_limit l \<notin> set (start_calls b)"
  by (cases b; auto)+

lemma end_calls_set:
  "Q_to p \<in> set (end_calls b) \<longleftrightarrow> b = Included p" "Q_before p \<in> set (end_calls b) \<longleftrightarrow> b = Excluded p"
  "Q_from p \<notin> set (end_calls b)" "Q_after p \<notin> set (end_calls b)" "Q_limit l \<notin> set (end_calls b)"
  by (cases b; auto)+

lemma opt_call_set: "c \<in> set (opt_call f x) \<longleftrightarrow> (\<exists>y. x = Some y \<and> c = f y)"
  by (auto simp: opt_call_def split: option.splits)

lemma limit_Inr_iff:
  "opt_traverse (query_limit inspect) x = Inr y \<Longrightarrow> y = Some l \<longleftrightarrow> x = Some (RInteger (uint l))"
  by (cases x) (auto simp: res_map_eq_Inr_iff query_limit_Inr_iff intro: word_uint_eq_iff [THEN iffD2])

subsection \<open>Properties\<close>

definition sample_env_q :: "unit rb_env" where
  "sample_env_q = \<lparr>env_pid = 1, env_const_get = (\<lambda>_. None), env_otel = Inr (),
     env_queue_new = None, env_pop = None\<rparr>"

definition sample_options :: "(rvalue \<times> rvalue) list" where
  "sample_options = [(RSymbol ''from'', RInteger 2), (RSymbol ''before'', RInteger 9),
     (RSymbol ''after'', RNil)]"

lemma sample_options_facts:
  "distinct (map fst sample_options)"
  "option_value ''from'' sample_options = Some (RInteger 2)"
  "option_value ''after'' sample_options = None"
  by (simp_all add: sample_options_def option_value_def)

text \<open>
  Which deque queries are accepted: a known direction, no keyword but the documented ones
  (\<open>prefix:\<close> is not one for deques), at most one option per edge, positions that are
  non-negative Integers of at most 64 bits, a Range of such positions or of open ends, and a
  positive limit. An option that is \<open>nil\<close> counts as not given.
\<close>

theorem position_query_accepts:
  assumes "distinct (map fst options)"
  shows "(\<exists>q. position_query env inspect d options = Inr q) \<longleftrightarrow>
    (d = ''forward'' \<or> d = ''backward'') \<and> keywords_known False options \<and>
    edge_valid valid_position (option_value ''from'' options) (option_value ''after'' options) \<and>
    edge_valid valid_position (option_value ''to'' options) (option_value ''before'' options) \<and>
    (\<forall>v\<in>set_option (option_value ''range'' options). range_valid valid_position v) \<and>
    (\<forall>v\<in>set_option (option_value ''limit'' options). valid_limit v)"
  using positions.bounds_iff [of inspect "keywords_for options"] parse_direction_iff [of env d]
  by (auto simp: position_query_iff [OF assms])

theorem position_query_accepts_witness:
  "\<not> (\<exists>q. position_query sample_env_q (\<lambda>_. ''?'') ''sideways'' sample_options = Inr q)"
  by (subst position_query_accepts) (simp_all add: sample_options_facts)

text \<open>
  Which map and set queries are accepted: as for deques, with String keys for positions
  and a String \<open>prefix:\<close> allowed.
\<close>

theorem key_query_accepts:
  assumes "distinct (map fst options)"
  shows "(\<exists>q. key_query env inspect d options = Inr q) \<longleftrightarrow>
    (d = ''forward'' \<or> d = ''backward'') \<and> keywords_known True options \<and>
    (\<forall>v\<in>set_option (option_value ''prefix'' options). valid_key v) \<and>
    edge_valid valid_key (option_value ''from'' options) (option_value ''after'' options) \<and>
    edge_valid valid_key (option_value ''to'' options) (option_value ''before'' options) \<and>
    (\<forall>v\<in>set_option (option_value ''range'' options). range_valid valid_key v) \<and>
    (\<forall>v\<in>set_option (option_value ''limit'' options). valid_limit v)"
proof -
  have "(\<exists>p. opt_traverse string_try_convert x = Inr p) \<longleftrightarrow> (\<forall>v\<in>set_option x. valid_key v)" for x
    by (cases x) (auto simp: res_map_eq_Inr_iff string_try_convert_Inr_iff valid_key_def)
  then show ?thesis
    using keys.bounds_iff [of inspect "keywords_for options"] parse_direction_iff [of env d]
    by (auto simp: key_query_iff [OF assms])
qed

theorem key_query_accepts_witness:
  "\<not> (\<exists>q. key_query sample_env_q (\<lambda>_. ''?'') ''forward'' sample_options = Inr q)"
  by (subst key_query_accepts) (simp_all add: sample_options_facts edge_valid_def valid_key_def)

text \<open>
  An accepted deque query carries exactly the positions and the limit that were given:
  every bound passed to the core is the option of its own keyword, unwrapped and unshifted,
  and a limit is never zero.
\<close>

theorem position_query_mirrors_options:
  assumes "distinct (map fst options)" and "position_query env inspect d options = Inr q"
  shows "(Q_from p \<in> set q \<longleftrightarrow> option_value ''from'' options = Some (RInteger (uint p))) \<and>
    (Q_after p \<in> set q \<longleftrightarrow> option_value ''after'' options = Some (RInteger (uint p))) \<and>
    (Q_to p \<in> set q \<longleftrightarrow> option_value ''to'' options = Some (RInteger (uint p))) \<and>
    (Q_before p \<in> set q \<longleftrightarrow> option_value ''before'' options = Some (RInteger (uint p))) \<and>
    (Q_limit p \<in> set q \<longleftrightarrow> option_value ''limit'' options = Some (RInteger (uint p))) \<and>
    Q_limit 0 \<notin> set q"
proof -
  obtain dir b where kb: "keyword_bounds inspect (position inspect) (keywords_for options) = Inr b"
    and q: "q = [Q_direction dir] @ start_calls (bd_start b) @ end_calls (bd_end b) @
      opt_call (\<lambda>(low, high). Q_range low high) (bd_range b) @ opt_call Q_limit (bd_limit b)"
    using assms(2) by (auto simp: position_query_iff [OF assms(1)])
  from kb have s: "edge (''from'', option_value ''from'' options) (''after'', option_value ''after'' options)
        (position inspect) = Inr (bd_start b)"
    and e: "edge (''to'', option_value ''to'' options) (''before'', option_value ''before'' options)
        (position inspect) = Inr (bd_end b)"
    and l: "opt_traverse (query_limit inspect) (option_value ''limit'' options) = Inr (bd_limit b)"
    by (auto simp: keyword_bounds_def res_bind_eq_Inr_iff)
  have "bd_limit b \<noteq> Some 0"
    using l by (cases "option_value ''limit'' options") (auto simp: res_map_eq_Inr_iff query_limit_Inr_iff)
  then show ?thesis
    by (auto simp: q start_calls_set end_calls_set opt_call_set edge_Inr_position [OF s]
        edge_Inr_position [OF e] limit_Inr_iff [OF l])
qed

theorem position_query_mirrors_options_witness:
  "\<exists>q. position_query sample_env_q (\<lambda>_. ''?'') ''forward'' sample_options = Inr q \<and>
     Q_from 2 \<in> set q \<and> Q_after 2 \<notin> set q"
proof -
  have "keywords_known False sample_options"
    by (auto simp: keywords_known_def sample_options_def known_keyword_def)
  moreover have "option_value ''to'' sample_options = None" "option_value ''before'' sample_options = Some (RInteger 9)"
    "option_value ''range'' sample_options = None" "option_value ''limit'' sample_options = None"
    by (simp_all add: sample_options_def option_value_def)
  ultimately obtain q where "position_query sample_env_q (\<lambda>_. ''?'') ''forward'' sample_options = Inr q"
    by (auto simp: position_query_iff sample_options_facts parse_direction_def keyword_bounds_def
        edge_def position_def usize_try_from_def Let_def)
  with position_query_mirrors_options [OF sample_options_facts(1) this, of 2] show ?thesis
    by (auto simp: sample_options_facts)
qed

end
