(* ===== verification/State_Handles.thy ===== *)
theory State_Handles
  imports Awaiting Query
begin

text \<open>
  The keyed-state handles of handler/state: the errors and conversions they share (mod.rs),
  the value, map, set and deque handles, the scan cursors (scan.rs), and their vending by the
  context (context/vending.rs).

  The core's state stores are parameters: one record of operations per kind of collection,
  each an operation on the core's state. The two payload kinds share every method; what
  differs is the \<open>codec\<close> that the source's macros are instantiated with.
\<close>

subsection \<open>Errors\<close>

datatype erased_category = Erased_permanent | Erased_transient

record erased_error =
  er_category :: erased_category
  er_message :: string

fun state_error_name :: "erased_category \<Rightarrow> string" where
  "state_error_name Erased_permanent = ''PermanentStateError''"
| "state_error_name Erased_transient = ''TransientStateError''"

definition state_error :: "'ctx rb_env \<Rightarrow> erased_error \<Rightarrow> rb_error" where
  "state_error env e = ruby_error env (state_error_name (er_category e)) (er_message e)"

definition transient_state_error :: "'ctx rb_env \<Rightarrow> string \<Rightarrow> rb_error" where
  "transient_state_error env message = ruby_error env ''TransientStateError'' message"

definition run_state ::
  "'ctx rb_env \<Rightarrow> ('s, erased_error, 'a) op \<Rightarrow> ('s, rb_error, 'a) op"
where
  "run_state env operation = traced_call env (state_error env) operation"

datatype store_outcome = Applied | No_op

fun outcome_symbol :: "store_outcome \<Rightarrow> string" where
  "outcome_symbol Applied = ''applied''"
| "outcome_symbol No_op = ''no_op''"

subsection \<open>Items\<close>

record 'i codec =
  prepare :: "rvalue \<Rightarrow> rb_error + 'i"
  restore :: "'i option \<Rightarrow> rb_error + rvalue"

text \<open>serde_magnus, and the wrapping of messages as Ruby objects, are libraries.\<close>

record 'j json_lib =
  jl_deserialize :: "rvalue \<Rightarrow> string + 'j"
  jl_serialize :: "'j \<Rightarrow> rb_error + rvalue"

record 'm message_lib =
  ml_try_convert :: "rvalue \<Rightarrow> 'm option"
  ml_wrap :: "'m \<Rightarrow> rvalue"

definition json_write_item :: "'ctx rb_env \<Rightarrow> 'j json_lib \<Rightarrow> rvalue \<Rightarrow> rb_error + 'j" where
  "json_write_item env lib v =
     map_err (\<lambda>e. transient_state_error env (''value is not representable as JSON: '' @ e))
       (jl_deserialize lib v)"

definition message_write_item ::
  "'ctx rb_env \<Rightarrow> 'm message_lib \<Rightarrow> string \<Rightarrow> rvalue \<Rightarrow> rb_error + 'm"
where
  "message_write_item env lib shape_advice v =
     (case ml_try_convert lib v of
        None \<Rightarrow> Inl (transient_state_error env (''expected a Prosody::Message'' @ shape_advice))
      | Some m \<Rightarrow> Inr m)"

definition message_or_nil :: "'m message_lib \<Rightarrow> 'm option \<Rightarrow> rvalue" where
  "message_or_nil lib item = (case item of None \<Rightarrow> RNil | Some m \<Rightarrow> ml_wrap lib m)"

text \<open>The two instantiations of the macros; an absent JSON item serializes as \<open>nil\<close>.\<close>

definition json_codec :: "'ctx rb_env \<Rightarrow> 'j json_lib \<Rightarrow> 'j codec" where
  "json_codec env lib = \<lparr>prepare = json_write_item env lib,
     restore = (\<lambda>item. case item of None \<Rightarrow> Inr RNil | Some j \<Rightarrow> jl_serialize lib j)\<rparr>"

definition message_codec :: "'ctx rb_env \<Rightarrow> 'm message_lib \<Rightarrow> string \<Rightarrow> 'm codec" where
  "message_codec env lib shape_advice = \<lparr>prepare = message_write_item env lib shape_advice,
     restore = (\<lambda>item. Inr (message_or_nil lib item))\<rparr>"

definition value_advice :: string where
  "value_advice = ''; use clear to delete a message value collection''"

definition map_advice :: string where
  "map_advice = ''; use delete(key) to remove a message map entry''"

definition deque_advice :: string where
  "deque_advice = '' to push into a message deque''"

subsection \<open>The stores of the core\<close>

record ('s, 'i) value_core =
  vc_get :: "('s, erased_error, 'i option) op"
  vc_set :: "'i \<Rightarrow> ('s, erased_error, unit) op"
  vc_clear :: "('s, erased_error, unit) op"
  vc_commit :: "('s, erased_error, store_outcome) op"
  vc_rollback :: "'s \<Rightarrow> store_outcome \<times> 's"

record ('s, 'i, 'c, 'k) map_core =
  mc_get :: "string \<Rightarrow> ('s, erased_error, 'i option) op"
  mc_contains_key :: "string \<Rightarrow> ('s, erased_error, bool) op"
  mc_is_empty :: "('s, erased_error, bool) op"
  mc_get_many :: "string list \<Rightarrow> ('s, erased_error, 'i option list) op"
  mc_contains_many :: "string list \<Rightarrow> ('s, erased_error, bool list) op"
  mc_set :: "string \<Rightarrow> 'i \<Rightarrow> ('s, erased_error, unit) op"
  mc_remove :: "string \<Rightarrow> ('s, erased_error, unit) op"
  mc_clear :: "('s, erased_error, unit) op"
  mc_entries :: "string builder_call list \<Rightarrow> 'c" \<comment> \<open>a cursor; nothing is read yet\<close>
  mc_keys :: "string builder_call list \<Rightarrow> 'k"
  mc_commit :: "('s, erased_error, store_outcome) op"
  mc_rollback :: "'s \<Rightarrow> store_outcome \<times> 's"

record ('s, 'k) set_core =
  sc_contains :: "string \<Rightarrow> ('s, erased_error, bool) op"
  sc_contains_many :: "string list \<Rightarrow> ('s, erased_error, bool list) op"
  sc_is_empty :: "('s, erased_error, bool) op"
  sc_insert :: "string \<Rightarrow> ('s, erased_error, unit) op"
  sc_remove :: "string \<Rightarrow> ('s, erased_error, unit) op"
  sc_clear :: "('s, erased_error, unit) op"
  sc_keys :: "string builder_call list \<Rightarrow> 'k"
  sc_commit :: "('s, erased_error, store_outcome) op"
  sc_rollback :: "'s \<Rightarrow> store_outcome \<times> 's"

record ('s, 'i, 'c) deque_core =
  dc_len :: "('s, erased_error, usize) op"
  dc_is_empty :: "('s, erased_error, bool) op"
  dc_get :: "usize \<Rightarrow> ('s, erased_error, 'i option) op"
  dc_peek_front :: "('s, erased_error, 'i option) op"
  dc_peek_back :: "('s, erased_error, 'i option) op"
  dc_push_back :: "'i \<Rightarrow> ('s, erased_error, unit) op"
  dc_push_front :: "'i \<Rightarrow> ('s, erased_error, unit) op"
  dc_pop_front :: "('s, erased_error, 'i option) op"
  dc_pop_back :: "('s, erased_error, 'i option) op"
  dc_clear :: "('s, erased_error, unit) op"
  dc_values :: "usize builder_call list \<Rightarrow> 'c"
  dc_commit :: "('s, erased_error, store_outcome) op"
  dc_rollback :: "'s \<Rightarrow> store_outcome \<times> 's"

subsection \<open>The shapes of the handles' methods\<close>

definition read_item ::
  "'ctx rb_env \<Rightarrow> 'i codec \<Rightarrow> ('s, erased_error, 'i option) op \<Rightarrow> ('s, rb_error, rvalue) op"
where
  "read_item env cd m = op_bind (run_state env m) (\<lambda>item. op_lift (restore cd item))"

definition write_item ::
  "'ctx rb_env \<Rightarrow> 'i codec \<Rightarrow> ('i \<Rightarrow> ('s, erased_error, unit) op) \<Rightarrow> rvalue \<Rightarrow> ('s, rb_error, unit) op"
where
  "write_item env cd m v = op_bind (op_lift (prepare cd v)) (\<lambda>item. run_state env (m item))"

definition finish ::
  "'ctx rb_env \<Rightarrow> ('s, erased_error, store_outcome) op \<Rightarrow> ('s, rb_error, string) op"
where
  "finish env m = op_bind (run_state env m) (\<lambda>outcome. op_ok (outcome_symbol outcome))"

text \<open>\<open>async move { Ok(state.rollback().await) }\<close>\<close>

definition infallible :: "('s \<Rightarrow> 'a \<times> 's) \<Rightarrow> ('s, erased_error, 'a) op" where
  "infallible f = (\<lambda>s. case f s of (x, s) \<Rightarrow> (Inr x, s))"

subsection \<open>Value handles\<close>

definition value_get where "value_get env cd C = read_item env cd (vc_get C)"
definition value_set where "value_set env cd C v = write_item env cd (vc_set C) v"
definition value_clear where "value_clear env C = run_state env (vc_clear C)"
definition value_commit where "value_commit env C = finish env (vc_commit C)"
definition value_rollback where "value_rollback env C = finish env (infallible (vc_rollback C))"

subsection \<open>Map handles\<close>

definition map_get where "map_get env cd C key = read_item env cd (mc_get C key)"
definition map_contains_key where "map_contains_key env C key = run_state env (mc_contains_key C key)"
definition map_is_empty where "map_is_empty env C = run_state env (mc_is_empty C)"

definition map_get_many where
  "map_get_many env cd C keys =
     op_bind (run_state env (mc_get_many C keys)) (\<lambda>items. op_lift (traverse (restore cd) items))"

definition map_contains_many where
  "map_contains_many env C keys = run_state env (mc_contains_many C keys)"

definition map_set where "map_set env cd C key v = write_item env cd (mc_set C key) v"
definition map_remove where "map_remove env C key = run_state env (mc_remove C key)"
definition map_clear where "map_clear env C = run_state env (mc_clear C)"

definition map_scan where
  "map_scan env inspect C direction options =
     res_map (mc_entries C) (key_query env inspect direction options)"

definition map_keys where
  "map_keys env inspect C direction options =
     res_map (mc_keys C) (key_query env inspect direction options)"

definition map_commit where "map_commit env C = finish env (mc_commit C)"
definition map_rollback where "map_rollback env C = finish env (infallible (mc_rollback C))"

subsection \<open>Set handles\<close>

definition set_contains where "set_contains env C member = run_state env (sc_contains C member)"
definition set_contains_many where
  "set_contains_many env C members = run_state env (sc_contains_many C members)"
definition set_is_empty where "set_is_empty env C = run_state env (sc_is_empty C)"
definition set_insert where "set_insert env C member = run_state env (sc_insert C member)"
definition set_remove where "set_remove env C member = run_state env (sc_remove C member)"
definition set_clear where "set_clear env C = run_state env (sc_clear C)"
definition set_keys where
  "set_keys env inspect C direction options =
     res_map (sc_keys C) (key_query env inspect direction options)"
definition set_commit where "set_commit env C = finish env (sc_commit C)"
definition set_rollback where "set_rollback env C = finish env (infallible (sc_rollback C))"

subsection \<open>Deque handles\<close>

definition deque_len where "deque_len env C = run_state env (dc_len C)"
definition deque_is_empty where "deque_is_empty env C = run_state env (dc_is_empty C)"
definition deque_get where "deque_get env cd C index = read_item env cd (dc_get C index)"
definition deque_peek_front where "deque_peek_front env cd C = read_item env cd (dc_peek_front C)"
definition deque_peek_back where "deque_peek_back env cd C = read_item env cd (dc_peek_back C)"
definition deque_push_back where "deque_push_back env cd C v = write_item env cd (dc_push_back C) v"
definition deque_push_front where "deque_push_front env cd C v = write_item env cd (dc_push_front C) v"
definition deque_pop_front where "deque_pop_front env cd C = read_item env cd (dc_pop_front C)"
definition deque_pop_back where "deque_pop_back env cd C = read_item env cd (dc_pop_back C)"
definition deque_clear where "deque_clear env C = run_state env (dc_clear C)"
definition deque_scan where
  "deque_scan env inspect C direction options =
     res_map (dc_values C) (position_query env inspect direction options)"
definition deque_commit where "deque_commit env C = finish env (dc_commit C)"
definition deque_rollback where "deque_rollback env C = finish env (infallible (dc_rollback C))"

subsection \<open>Cursors\<close>

definition SCAN_READY_CHUNK_SIZE :: usize where
  "SCAN_READY_CHUNK_SIZE = 256"

record ('s, 'i) cursor_core =
  cu_next_ready_chunk :: "usize \<Rightarrow> ('s, erased_error, 'i list option) op"
  cu_close :: "'s \<Rightarrow> unit \<times> 's"

definition next_chunk ::
  "'ctx rb_env \<Rightarrow> ('i \<Rightarrow> rb_error + rvalue) \<Rightarrow> ('s, 'i) cursor_core \<Rightarrow> ('s, rb_error, rvalue list option) op"
where
  "next_chunk env convert C =
     op_bind (run_state env (cu_next_ready_chunk C SCAN_READY_CHUNK_SIZE))
       (\<lambda>chunk. op_lift (opt_traverse (traverse convert) chunk))"

definition close_cursor :: "'ctx rb_env \<Rightarrow> ('s, 'i) cursor_core \<Rightarrow> ('s, rb_error, unit) op" where
  "close_cursor env C = wait_for env (cu_close C)"

text \<open>The item conversions of the five cursor classes; \<open>pair\<close> builds a two-element Array.\<close>

definition json_item :: "'j json_lib \<Rightarrow> 'j \<Rightarrow> rb_error + rvalue" where
  "json_item lib item = jl_serialize lib item"

definition json_entry ::
  "(string \<Rightarrow> rvalue \<Rightarrow> rvalue) \<Rightarrow> 'j json_lib \<Rightarrow> string \<times> 'j \<Rightarrow> rb_error + rvalue"
where
  "json_entry pair lib item = (case item of (key, v) \<Rightarrow> res_map (pair key) (jl_serialize lib v))"

definition message_item :: "'m message_lib \<Rightarrow> 'm \<Rightarrow> rb_error + rvalue" where
  "message_item lib item = Inr (ml_wrap lib item)"

definition message_entry ::
  "(string \<Rightarrow> rvalue \<Rightarrow> rvalue) \<Rightarrow> 'm message_lib \<Rightarrow> string \<times> 'm \<Rightarrow> rb_error + rvalue"
where
  "message_entry pair lib item = (case item of (key, m) \<Rightarrow> Inr (pair key (ml_wrap lib m)))"

definition key_item :: "string \<Rightarrow> rb_error + rvalue" where
  "key_item item = Inr (RString item)"

subsection \<open>Vending\<close>

text \<open>
  \<open>vend\<close>: the core verifies the collection's registration; \<open>name\<close> is the Ruby name as UTF-8,
  or the error of its conversion. The seven vending methods call it on the seven kinds.
\<close>

definition vend ::
  "'ctx rb_env \<Rightarrow> (string \<Rightarrow> erased_error + 'h) \<Rightarrow> rb_error + string \<Rightarrow> rb_error + 'h"
where
  "vend env open_handle name = res_bind name (\<lambda>n. map_err (state_error env) (open_handle n))"

datatype vended_kind =
    Json_value | Json_map | Json_set | Json_deque
  | Message_value | Message_map | Message_deque

definition vend_state ::
  "'ctx rb_env \<Rightarrow> (vended_kind \<Rightarrow> string \<Rightarrow> erased_error + 'h) \<Rightarrow> vended_kind \<Rightarrow>
    rb_error + string \<Rightarrow> rb_error + 'h"
where
  "vend_state env registry kind name = vend env (registry kind) name"
end
