(* ===== verification/State_Props.thy ===== *)
theory State_Props
  imports State_Handles
begin

text \<open>
  What the state handles promise: a write whose value has the wrong shape raises a transient
  error and leaves the store alone, the map handle refines a finite map, rollbacks cannot
  raise a state error, and a scan yields every item and ends.
\<close>

subsection \<open>The shapes\<close>

lemma run_state_traced [simp]:
  "traced env \<Longrightarrow> run_state env m s = (map_err (state_error env) (fst (m s)), snd (m s))"
  by (simp add: run_state_def)

lemma run_state_Inr_iff: "run_state env m s = (Inr v, t) \<longleftrightarrow> traced env \<and> m s = (Inr v, t)"
  by (simp add: run_state_def traced_call_Inr_iff)

lemma write_item_bad: "prepare cd v = Inl e \<Longrightarrow> write_item env cd m v s = (Inl e, s)"
  by (simp add: write_item_def)

lemma write_item_Inr_iff:
  "write_item env cd m v s = (Inr u, t) \<longleftrightarrow>
     (\<exists>i. prepare cd v = Inr i \<and> traced env \<and> m i s = (Inr u, t))"
  by (auto simp: write_item_def op_bind_eq_Inr_iff run_state_Inr_iff)

lemma read_item_Inr_iff:
  "read_item env cd m s = (Inr v, t) \<longleftrightarrow>
     (\<exists>i. traced env \<and> m s = (Inr i, t) \<and> restore cd i = Inr v)"
  by (auto simp: read_item_def op_bind_eq_Inr_iff run_state_Inr_iff)

lemma finish_infallible:
  "traced env \<Longrightarrow> finish env (infallible f) s = (Inr (outcome_symbol (fst (f s))), snd (f s))"
  by (simp add: finish_def infallible_def op_bind_def split: prod.splits)

text \<open>
  The contract of a payload kind: a value that cannot be stored raises a transient state
  error. Every write through such a codec that fails in the conversion leaves the store as
  it was.
\<close>

locale write_codec =
  fixes env :: "'ctx rb_env" and cd :: "'i codec"
  assumes rejects_transient: "prepare cd v = Inl e \<Longrightarrow> \<exists>m. e = transient_state_error env m"
begin

lemma rejected_write:
  assumes "prepare cd v = Inl e"
  shows "value_set env cd C v s = (Inl e, s)" and "map_set env cd D k v s' = (Inl e, s')"
    and "deque_push_back env cd E v s'' = (Inl e, s'')" and "deque_push_front env cd E v s'' = (Inl e, s'')"
  using assms
  by (simp_all add: value_set_def map_set_def deque_push_back_def deque_push_front_def write_item_bad)

lemma rejected_class:
  assumes "prepare cd v = Inl e" and "env_const_get env ''TransientStateError'' = None"
  shows "class_permanent (err_class e) = Some False"
proof -
  obtain m where "e = transient_state_error env m" using rejects_transient [OF assms(1)] by blast
  with assms(2) show ?thesis by (simp add: transient_state_error_def)
qed

end

interpretation json: write_codec env "json_codec env lib"
  for env :: "'ctx rb_env" and lib :: "'j json_lib"
  by unfold_locales (auto simp: json_codec_def json_write_item_def map_err_eq_Inl_iff)

interpretation message: write_codec env "message_codec env lib advice"
  for env :: "'ctx rb_env" and lib :: "'m message_lib" and advice :: string
  by unfold_locales (auto simp: message_codec_def message_write_item_def split: option.splits)

subsection \<open>Maps\<close>

text \<open>What the core documents of its map store, against the finite map it represents.\<close>

definition map_laws :: "('s, 'i, 'c, 'k) map_core \<Rightarrow> ('s \<Rightarrow> string \<Rightarrow> 'i option) \<Rightarrow> bool" where
  "map_laws C m \<longleftrightarrow>
     (\<forall>k i s t. mc_set C k i s = (Inr (), t) \<longrightarrow> m t = (m s)(k \<mapsto> i)) \<and>
     (\<forall>k s t. mc_remove C k s = (Inr (), t) \<longrightarrow> m t = (m s)(k := None)) \<and>
     (\<forall>s t. mc_clear C s = (Inr (), t) \<longrightarrow> m t = Map.empty) \<and>
     (\<forall>k x s t. mc_get C k s = (Inr x, t) \<longrightarrow> x = m s k \<and> m t = m s) \<and>
     (\<forall>ks xs s t. mc_get_many C ks s = (Inr xs, t) \<longrightarrow> xs = map (m s) ks \<and> m t = m s) \<and>
     (\<forall>k b s t. mc_contains_key C k s = (Inr b, t) \<longrightarrow> b = (m s k \<noteq> None) \<and> m t = m s)"

datatype map_change = Put string rvalue | Remove string | Clear

fun map_write :: "'ctx rb_env \<Rightarrow> 'i codec \<Rightarrow> ('s, 'i, 'c, 'k) map_core \<Rightarrow> map_change \<Rightarrow>
  ('s, rb_error, unit) op"
where
  "map_write env cd C (Put k v) = map_set env cd C k v"
| "map_write env cd C (Remove k) = map_remove env C k"
| "map_write env cd C Clear = map_clear env C"

fun map_writes :: "'ctx rb_env \<Rightarrow> 'i codec \<Rightarrow> ('s, 'i, 'c, 'k) map_core \<Rightarrow> map_change list \<Rightarrow>
  ('s, rb_error, unit) op"
where
  "map_writes env cd C [] = op_ok ()"
| "map_writes env cd C (w # ws) = op_bind (map_write env cd C w) (\<lambda>_. map_writes env cd C ws)"

text \<open>The same writes on a finite map of stored items.\<close>

fun spec_write :: "'i codec \<Rightarrow> map_change \<Rightarrow> (string \<Rightarrow> 'i option) \<Rightarrow> string \<Rightarrow> 'i option" where
  "spec_write cd (Put k v) m = (case prepare cd v of Inr i \<Rightarrow> m(k \<mapsto> i) | Inl _ \<Rightarrow> m)"
| "spec_write cd (Remove k) m = m(k := None)"
| "spec_write cd Clear m = Map.empty"

lemma map_write_spec:
  "map_laws C m \<Longrightarrow> map_write env cd C w s = (Inr (), t) \<Longrightarrow> m t = spec_write cd w (m s)"
  by (cases w)
     (auto simp: map_laws_def map_set_def map_remove_def map_clear_def write_item_Inr_iff
       run_state_Inr_iff)

lemma map_writes_spec:
  "map_laws C m \<Longrightarrow> map_writes env cd C ws s = (Inr (), t) \<Longrightarrow> m t = fold (spec_write cd) ws (m s)"
proof (induction ws arbitrary: s)
  case Nil
  then show ?case by simp
next
  case (Cons w ws)
  then obtain u where "map_write env cd C w s = (Inr (), u)" "map_writes env cd C ws u = (Inr (), t)"
    by (auto simp: op_bind_eq_Inr_iff)
  with Cons map_write_spec [OF Cons.prems(1), of env cd w s u] show ?case by simp
qed

text \<open>A store that is a finite map, for the witnesses.\<close>

definition fun_map_core :: "(string \<Rightarrow> int option, int, unit, unit) map_core" where
  "fun_map_core = \<lparr>mc_get = (\<lambda>k s. (Inr (s k), s)), mc_contains_key = (\<lambda>k s. (Inr (s k \<noteq> None), s)),
     mc_is_empty = (\<lambda>s. (Inl \<lparr>er_category = Erased_permanent, er_message = ''unsupported''\<rparr>, s)),
     mc_get_many = (\<lambda>ks s. (Inr (map s ks), s)), mc_contains_many = (\<lambda>ks s. (Inr (map (\<lambda>k. s k \<noteq> None) ks), s)),
     mc_set = (\<lambda>k i s. (Inr (), s(k \<mapsto> i))), mc_remove = (\<lambda>k s. (Inr (), s(k := None))),
     mc_clear = (\<lambda>s. (Inr (), Map.empty)), mc_entries = (\<lambda>_. ()), mc_keys = (\<lambda>_. ()),
     mc_commit = (\<lambda>s. (Inr Applied, s)), mc_rollback = (\<lambda>s. (No_op, s))\<rparr>"

lemma fun_map_core_laws: "map_laws fun_map_core id"
  by (auto simp: map_laws_def fun_map_core_def)

definition int_lib :: "int json_lib" where
  "int_lib = \<lparr>jl_deserialize = (\<lambda>v. case v of RInteger n \<Rightarrow> Inr n | _ \<Rightarrow> Inl ''not a number''),
     jl_serialize = (\<lambda>n. Inr (RInteger n))\<rparr>"

lemma sample_env_traced: "traced sample_env"
  by (simp add: traced_def calm_def sample_env_def)

subsection \<open>Scans\<close>

text \<open>
  The loop of \<open>Scanning#traverse\<close> in lib/prosody/state.rb: chunks are yielded until there is
  none, then the cursor is closed. The number bounds the iterations; \<open>None\<close> is a loop that
  has not ended by then.
\<close>

fun scan_loop ::
  "'ctx rb_env \<Rightarrow> ('i \<Rightarrow> rb_error + rvalue) \<Rightarrow> ('s, 'i) cursor_core \<Rightarrow> nat \<Rightarrow> 's \<Rightarrow>
    (rb_error + unit) option \<times> rvalue list \<times> 's"
where
  "scan_loop env convert C 0 s = (None, [], s)"
| "scan_loop env convert C (Suc n) s =
     (case next_chunk env convert C s of
        (Inl e, s) \<Rightarrow> (Some (Inl e), [], s)
      | (Inr None, s) \<Rightarrow> (Some (Inr ()), [], s)
      | (Inr (Some vs), s) \<Rightarrow> (case scan_loop env convert C n s of (r, ws, s) \<Rightarrow> (r, vs @ ws, s)))"

definition traverse_scan ::
  "'ctx rb_env \<Rightarrow> ('i \<Rightarrow> rb_error + rvalue) \<Rightarrow> ('s, 'i) cursor_core \<Rightarrow> nat \<Rightarrow> 's \<Rightarrow>
    (rb_error + unit) option \<times> rvalue list \<times> 's"
where
  "traverse_scan env convert C n s =
     (case scan_loop env convert C n s of (r, vs, s) \<Rightarrow> (r, vs, snd (close_cursor env C s)))"

text \<open>What the core documents of a cursor, against the items it has still to give.\<close>

definition cursor_laws :: "('s, 'i) cursor_core \<Rightarrow> ('s \<Rightarrow> 'i list) \<Rightarrow> bool" where
  "cursor_laws C rest \<longleftrightarrow>
     (\<forall>n s. 0 < n \<longrightarrow> (\<exists>t. cu_next_ready_chunk C n s = (Inr None, t) \<and> rest s = [] \<and> rest t = [] \<or>
        (\<exists>xs. cu_next_ready_chunk C n s = (Inr (Some xs), t) \<and>
           xs \<noteq> [] \<and> length xs \<le> unat n \<and> rest s = xs @ rest t)))"

lemma next_chunk_traced:
  assumes "traced env" and "cu_next_ready_chunk C SCAN_READY_CHUNK_SIZE s = (Inr chunk, t)"
    and "\<forall>xs x. chunk = Some xs \<longrightarrow> x \<in> set xs \<longrightarrow> convert x = Inr (g x)"
  shows "next_chunk env convert C s = (Inr (map_option (map g) chunk), t)"
proof -
  have "traverse convert xs = Inr (map g xs)" if "chunk = Some xs" for xs
    using assms(3) that by (intro traverse_total) auto
  then show ?thesis
    using assms(1,2) by (cases chunk) (simp_all add: next_chunk_def op_bind_def)
qed

lemma scan_loop_all:
  assumes "traced env" and laws: "cursor_laws C rest" and "\<And>x. convert x = Inr (g x)"
    and "length (rest s) < n"
  shows "\<exists>t. scan_loop env convert C n s = (Some (Inr ()), map g (rest s), t) \<and> rest t = []"
  using assms(4)
proof (induction n arbitrary: s)
  case 0
  then show ?case by simp
next
  case (Suc n)
  have "0 < SCAN_READY_CHUNK_SIZE" by (simp add: SCAN_READY_CHUNK_SIZE_def)
  with laws obtain t where
    "cu_next_ready_chunk C SCAN_READY_CHUNK_SIZE s = (Inr None, t) \<and> rest s = [] \<and> rest t = [] \<or>
     (\<exists>xs. cu_next_ready_chunk C SCAN_READY_CHUNK_SIZE s = (Inr (Some xs), t) \<and>
        xs \<noteq> [] \<and> length xs \<le> unat SCAN_READY_CHUNK_SIZE \<and> rest s = xs @ rest t)"
    unfolding cursor_laws_def by blast
  then consider
      (empty) "cu_next_ready_chunk C SCAN_READY_CHUNK_SIZE s = (Inr None, t)" "rest s = []" "rest t = []"
    | (chunk) xs where "cu_next_ready_chunk C SCAN_READY_CHUNK_SIZE s = (Inr (Some xs), t)"
        "xs \<noteq> []" "rest s = xs @ rest t"
    by blast
  then show ?case
  proof cases
    case empty
    then show ?thesis
      using next_chunk_traced [OF assms(1) empty(1), of convert g] by simp
  next
    case chunk
    have "length (rest t) < n" using Suc.prems chunk by (cases xs) auto
    with Suc.IH obtain u where
      "scan_loop env convert C n t = (Some (Inr ()), map g (rest t), u)" "rest u = []" by blast
    moreover have "next_chunk env convert C s = (Inr (map_option (map g) (Some xs)), t)"
      by (rule next_chunk_traced [OF assms(1) chunk(1)]) (simp add: assms(3))
    ultimately show ?thesis by (simp add: chunk(3))
  qed
qed

definition list_cursor :: "(int list, int) cursor_core" where
  "list_cursor = \<lparr>cu_next_ready_chunk = (\<lambda>n s. if s = [] then (Inr None, s)
       else (Inr (Some (take (unat n) s)), drop (unat n) s)),
     cu_close = (\<lambda>s. ((), s))\<rparr>"

lemma list_cursor_laws: "cursor_laws list_cursor id"
proof -
  have "xs \<noteq> [] \<Longrightarrow> 0 < n \<Longrightarrow> take (unat n) xs \<noteq> []" for xs :: "int list" and n :: usize
    by (cases xs) (auto simp: unat_gt_0 word_neq_0_conv take_eq_Nil)
  then show ?thesis by (auto simp: cursor_laws_def list_cursor_def)
qed

subsection \<open>Properties\<close>

text \<open>
  A JSON write whose value has no JSON form, and a message write whose value is not a
  message, raise a transient state error from every writing method, and the store, with what
  is buffered in it, stays as it was.
\<close>

theorem bad_write_leaves_store:
  assumes "jl_deserialize lib v = Inl msg" and "ml_try_convert mlib w = None"
    and "env_const_get env ''TransientStateError'' = None"
  defines "e \<equiv> Rb_error (Prosody_class ''TransientStateError'') (''value is not representable as JSON: '' @ msg)"
    and "f \<equiv> (\<lambda>advice. Rb_error (Prosody_class ''TransientStateError'') (''expected a Prosody::Message'' @ advice))"
  shows "value_set env (json_codec env lib) C v s = (Inl e, s) \<and>
    map_set env (json_codec env lib) D k v t = (Inl e, t) \<and>
    deque_push_back env (json_codec env lib) E v u = (Inl e, u) \<and>
    deque_push_front env (json_codec env lib) E v u = (Inl e, u) \<and>
    value_set env (message_codec env mlib value_advice) C' w s = (Inl (f value_advice), s) \<and>
    map_set env (message_codec env mlib map_advice) D' k w t = (Inl (f map_advice), t) \<and>
    deque_push_back env (message_codec env mlib deque_advice) E' w u = (Inl (f deque_advice), u) \<and>
    deque_push_front env (message_codec env mlib deque_advice) E' w u = (Inl (f deque_advice), u)"
proof -
  have "prepare (json_codec env lib) v = Inl e"
    using assms by (simp add: json_codec_def json_write_item_def transient_state_error_def)
  moreover have "prepare (message_codec env mlib advice) w = Inl (f advice)" for advice
    using assms by (simp add: message_codec_def message_write_item_def transient_state_error_def)
  ultimately show ?thesis by (simp add: json.rejected_write message.rejected_write)
qed

theorem bad_write_leaves_store_witness:
  "map_set sample_env (json_codec sample_env int_lib) fun_map_core ''k'' (RString ''x'') Map.empty =
     (Inl (Rb_error (Prosody_class ''TransientStateError'')
        (''value is not representable as JSON: '' @ ''not a number'')), Map.empty)"
proof -
  have "jl_deserialize int_lib (RString ''x'') = Inl ''not a number''" by (simp add: int_lib_def)
  moreover have "ml_try_convert \<lparr>ml_try_convert = (\<lambda>_. None), ml_wrap = (\<lambda>_ :: unit. RNil)\<rparr> RNil = None" by simp
  moreover have "env_const_get sample_env ''TransientStateError'' = None" by (simp add: sample_env_def)
  ultimately show ?thesis
    by (rule bad_write_leaves_store [THEN conjunct2, THEN conjunct1])
qed

text \<open>
  Refinement of maps: over a store that keeps its documented promises, a handler's writes
  act on the finite map of stored items, and a later \<open>get\<close>, \<open>get_many\<close> and \<open>contains_key\<close>
  answer from that map, key by key and in the order asked.
\<close>

theorem map_handle_refines:
  assumes "map_laws C m" and "map_writes env cd C ws s = (Inr (), t)"
  shows "(map_get env cd C k t = (Inr v, u) \<longrightarrow> restore cd (fold (spec_write cd) ws (m s) k) = Inr v) \<and>
    (map_get_many env cd C ks t = (Inr vs, u) \<longrightarrow>
       list_all2 (\<lambda>k v. restore cd (fold (spec_write cd) ws (m s) k) = Inr v) ks vs) \<and>
    (map_contains_key env C k t = (Inr b, u) \<longrightarrow> b = (fold (spec_write cd) ws (m s) k \<noteq> None))"
proof -
  have m: "m t = fold (spec_write cd) ws (m s)" by (rule map_writes_spec) (fact assms)+
  have "list_all2 (\<lambda>k v. restore cd (m t k) = Inr v) ks vs"
    if many: "map_get_many env cd C ks t = (Inr vs, u)"
  proof -
    obtain xs w where "mc_get_many C ks t = (Inr xs, w)" and vs: "traverse (restore cd) xs = Inr vs"
      using many by (auto simp: map_get_many_def op_bind_eq_Inr_iff run_state_Inr_iff)
    with assms(1) have "xs = map (m t) ks" unfolding map_laws_def by blast
    with vs show ?thesis by (simp add: traverse_Inr_iff list.rel_map)
  qed
  then show ?thesis
    using assms(1) unfolding m [symmetric]
    by (auto simp: map_laws_def map_get_def map_contains_key_def read_item_Inr_iff run_state_Inr_iff)
qed

theorem map_handle_refines_witness:
  "restore (json_codec sample_env int_lib) (fold (spec_write (json_codec sample_env int_lib))
     [Put ''a'' (RInteger 3), Remove ''b''] Map.empty ''a'') = Inr (RInteger 3)"
proof -
  let ?cd = "json_codec sample_env int_lib"
  have w: "map_writes sample_env ?cd fun_map_core [Put ''a'' (RInteger 3), Remove ''b''] Map.empty =
      (Inr (), Map.empty(''a'' \<mapsto> 3, ''b'' := None))"
    by (simp add: map_set_def map_remove_def write_item_def json_codec_def json_write_item_def
        int_lib_def fun_map_core_def sample_env_traced op_bind_def)
  have "map_get sample_env ?cd fun_map_core ''a'' (Map.empty(''a'' \<mapsto> 3, ''b'' := None)) =
      (Inr (RInteger 3), Map.empty(''a'' \<mapsto> 3, ''b'' := None))"
    by (simp add: map_get_def read_item_def json_codec_def int_lib_def fun_map_core_def
        sample_env_traced op_bind_def)
  with map_handle_refines [OF fun_map_core_laws w, of "''a''"] show ?thesis by simp
qed

text \<open>
  \<open>rollback\<close> cannot raise a state error: in every kind of handle it reports what the core
  did (\<open>:applied\<close> or \<open>:no_op\<close>) once the call could be made at all.
\<close>

theorem rollback_infallible:
  assumes "traced env"
  shows "value_rollback env V s = (Inr (outcome_symbol (fst (vc_rollback V s))), snd (vc_rollback V s)) \<and>
    map_rollback env M t = (Inr (outcome_symbol (fst (mc_rollback M t))), snd (mc_rollback M t)) \<and>
    set_rollback env S u = (Inr (outcome_symbol (fst (sc_rollback S u))), snd (sc_rollback S u)) \<and>
    deque_rollback env D x = (Inr (outcome_symbol (fst (dc_rollback D x))), snd (dc_rollback D x))"
  using assms
  by (simp add: value_rollback_def map_rollback_def set_rollback_def deque_rollback_def finish_infallible)

theorem rollback_infallible_witness:
  "map_rollback sample_env fun_map_core Map.empty = (Inr ''no_op'', Map.empty)"
proof -
  have "mc_rollback fun_map_core s = (No_op, s)" for s by (simp add: fun_map_core_def)
  with rollback_infallible [OF sample_env_traced, of undefined undefined fun_map_core Map.empty,
      THEN conjunct2, THEN conjunct1]
  show ?thesis by simp
qed

text \<open>
  A scan yields every remaining item, in order and once, and ends: over a cursor that
  keeps its promises the loop takes at most one more read than there are items left.
\<close>

theorem scan_yields_all:
  assumes "traced env" and "cursor_laws C rest" and "\<And>x. convert x = Inr (g x)"
  shows "\<exists>t. traverse_scan env convert C (Suc (length (rest s))) s = (Some (Inr ()), map g (rest s), t)"
proof -
  obtain t where "scan_loop env convert C (Suc (length (rest s))) s = (Some (Inr ()), map g (rest s), t)"
    using scan_loop_all [of env C rest convert g s "Suc (length (rest s))"] assms by auto
  then show ?thesis by (simp add: traverse_scan_def)
qed

theorem scan_yields_all_witness:
  "\<exists>t. traverse_scan sample_env (\<lambda>n. Inr (RInteger n)) list_cursor 4 [5, 6, 7] =
     (Some (Inr ()), [RInteger 5, RInteger 6, RInteger 7], t)"
  using scan_yields_all [OF sample_env_traced list_cursor_laws, of "\<lambda>n. Inr (RInteger n)" RInteger "[5, 6, 7]"]
  by (simp add: eval_nat_numeral)

end
