(* ===== verification/State_Deques.thy ===== *)
theory State_Deques
  imports State_Props
begin

text \<open>
  Deques end to end: the native deque handle (handler/state/deque.rs) under the Ruby wrapper
  \<open>DequeState\<close> of lib/prosody/state/deque.rb, against the list of items the core's store
  represents. The wrapper resolves negative indexes; the native \<open>get\<close> takes a \<open>usize\<close>.
\<close>

subsection \<open>The Ruby wrapper\<close>

text \<open>The conversion of an Integer argument to \<open>usize\<close>; a larger one raises \<open>RangeError\<close>.\<close>

definition usize_argument :: "int \<Rightarrow> rb_error + usize" where
  "usize_argument n =
     (case usize_try_from n of
        Some i \<Rightarrow> Inr i
      | None \<Rightarrow> Inl (Rb_error range_error_class ''bignum too big to convert into unsigned long long''))"

definition native_deque_get ::
  "'ctx rb_env \<Rightarrow> 'i codec \<Rightarrow> ('s, 'i, 'c) deque_core \<Rightarrow> int \<Rightarrow> ('s, rb_error, rvalue) op"
where
  "native_deque_get env cd C index = op_bind (op_lift (usize_argument index)) (deque_get env cd C)"

definition at_negative ::
  "'ctx rb_env \<Rightarrow> 'i codec \<Rightarrow> ('s, 'i, 'c) deque_core \<Rightarrow> int \<Rightarrow> ('s, rb_error, rvalue) op"
where
  "at_negative env cd C index =
     (if index = - 1 then deque_peek_back env cd C
      else op_bind (deque_len env C) (\<lambda>len.
        let resolved = uint len + index
        in if resolved < 0 then op_ok RNil else native_deque_get env cd C resolved))"

definition ruby_deque_get ::
  "'ctx rb_env \<Rightarrow> (rvalue \<Rightarrow> string) \<Rightarrow> 'i codec \<Rightarrow> ('s, 'i, 'c) deque_core \<Rightarrow> rvalue \<Rightarrow>
    ('s, rb_error, rvalue) op"
where
  "ruby_deque_get env inspect cd C index =
     (case index of
        RInteger n \<Rightarrow> if n < 0 then at_negative env cd C n else native_deque_get env cd C n
      | _ \<Rightarrow> op_err (Rb_error (Prosody_class ''TransientStateError'')
               (''get: index must be an Integer, got '' @ inspect index)))"

subsection \<open>The list behind a deque\<close>

text \<open>
  What the core documents of its deque store, against the list of live items it represents
  (no item has expired). A deque is no longer than a \<open>usize\<close> can say.
\<close>

definition deque_laws :: "('s, 'i, 'c) deque_core \<Rightarrow> ('s \<Rightarrow> 'i list) \<Rightarrow> bool" where
  "deque_laws C q \<longleftrightarrow>
     (\<forall>i s t. dc_push_back C i s = (Inr (), t) \<longrightarrow> q t = q s @ [i]) \<and>
     (\<forall>i s t. dc_push_front C i s = (Inr (), t) \<longrightarrow> q t = i # q s) \<and>
     (\<forall>x s t. dc_pop_back C s = (Inr x, t) \<longrightarrow>
        x = (if q s = [] then None else Some (last (q s))) \<and> q t = butlast (q s)) \<and>
     (\<forall>x s t. dc_pop_front C s = (Inr x, t) \<longrightarrow>
        x = (if q s = [] then None else Some (hd (q s))) \<and> q t = tl (q s)) \<and>
     (\<forall>s t. dc_clear C s = (Inr (), t) \<longrightarrow> q t = []) \<and>
     (\<forall>n s t. dc_len C s = (Inr n, t) \<longrightarrow> unat n = length (q s) \<and> q t = q s) \<and>
     (\<forall>x s t. dc_peek_back C s = (Inr x, t) \<longrightarrow>
        x = (if q s = [] then None else Some (last (q s))) \<and> q t = q s) \<and>
     (\<forall>n x s t. dc_get C n s = (Inr x, t) \<longrightarrow>
        x = (if unat n < length (q s) then Some (q s ! unat n) else None) \<and> q t = q s)"

lemma deque_lawsD:
  assumes "deque_laws C q"
  shows "dc_push_back C i s = (Inr (), t) \<Longrightarrow> q t = q s @ [i]"
    and "dc_push_front C i s = (Inr (), t) \<Longrightarrow> q t = i # q s"
    and "dc_pop_back C s = (Inr x, t) \<Longrightarrow>
        x = (if q s = [] then None else Some (last (q s))) \<and> q t = butlast (q s)"
    and "dc_pop_front C s = (Inr x, t) \<Longrightarrow>
        x = (if q s = [] then None else Some (hd (q s))) \<and> q t = tl (q s)"
    and "dc_clear C s = (Inr (), t) \<Longrightarrow> q t = []"
    and "dc_len C s = (Inr n, t) \<Longrightarrow> unat n = length (q s) \<and> q t = q s"
    and "dc_peek_back C s = (Inr x, t) \<Longrightarrow>
        x = (if q s = [] then None else Some (last (q s))) \<and> q t = q s"
    and "dc_get C n s = (Inr x, t) \<Longrightarrow>
        x = (if unat n < length (q s) then Some (q s ! unat n) else None) \<and> q t = q s"
  by (insert assms) (unfold deque_laws_def, meson+)

text \<open>Ruby's \<open>Array#[]\<close> with one Integer: negative indexes count from the end.\<close>

definition array_at :: "'a list \<Rightarrow> int \<Rightarrow> 'a option" where
  "array_at xs n =
     (let k = (if n < 0 then int (length xs) + n else n)
      in if 0 \<le> k \<and> k < int (length xs) then Some (xs ! nat k) else None)"

lemma array_at_last: "array_at xs (- 1) = (if xs = [] then None else Some (last xs))"
  by (auto simp: array_at_def last_conv_nth Let_def nat_diff_distrib Suc_le_eq
      intro: arg_cong [where f = "\<lambda>i. xs ! i"])

lemma array_at_nat: "array_at xs (int k) = (if k < length xs then Some (xs ! k) else None)"
  by (simp add: array_at_def)

lemma native_deque_get_at:
  assumes "deque_laws C q" and "0 \<le> n" and "native_deque_get env cd C n s = (Inr v, t)"
  shows "restore cd (array_at (q s) n) = Inr v \<and> q t = q s"
proof -
  obtain i x where i: "usize_try_from n = Some i"
    and get: "dc_get C i s = (Inr x, t)" and v: "restore cd x = Inr v"
    using assms(3)
    by (auto simp: native_deque_get_def usize_argument_def deque_get_def op_bind_eq_Inr_iff
        read_item_Inr_iff split: option.splits)
  have n: "n = int (unat i)" using usize_try_from_SomeD [OF i] by simp
  from deque_lawsD(8) [OF assms(1) get] v show ?thesis unfolding n array_at_nat by simp
qed

subsection \<open>Writes\<close>

datatype deque_change = Push rvalue | Unshift rvalue | Pop | Shift | Clear_deque

fun deque_write :: "'ctx rb_env \<Rightarrow> 'i codec \<Rightarrow> ('s, 'i, 'c) deque_core \<Rightarrow> deque_change \<Rightarrow>
  ('s, rb_error, rvalue) op"
where
  "deque_write env cd C (Push v) = op_map (\<lambda>_. RNil) (deque_push_back env cd C v)"
| "deque_write env cd C (Unshift v) = op_map (\<lambda>_. RNil) (deque_push_front env cd C v)"
| "deque_write env cd C Pop = deque_pop_back env cd C"
| "deque_write env cd C Shift = deque_pop_front env cd C"
| "deque_write env cd C Clear_deque = op_map (\<lambda>_. RNil) (deque_clear env C)"

fun deque_writes :: "'ctx rb_env \<Rightarrow> 'i codec \<Rightarrow> ('s, 'i, 'c) deque_core \<Rightarrow> deque_change list \<Rightarrow>
  ('s, rb_error, rvalue list) op"
where
  "deque_writes env cd C [] = op_ok []"
| "deque_writes env cd C (w # ws) =
     op_bind (deque_write env cd C w) (\<lambda>v. op_map ((#) v) (deque_writes env cd C ws))"

text \<open>The same writes on a list of items: what is returned, as an item, and the new list.\<close>

fun list_write :: "'i codec \<Rightarrow> deque_change \<Rightarrow> 'i list \<Rightarrow> rvalue \<times> 'i list \<Rightarrow> bool" where
  "list_write cd (Push v) xs (r, ys) \<longleftrightarrow> (\<exists>i. prepare cd v = Inr i \<and> ys = xs @ [i] \<and> r = RNil)"
| "list_write cd (Unshift v) xs (r, ys) \<longleftrightarrow> (\<exists>i. prepare cd v = Inr i \<and> ys = i # xs \<and> r = RNil)"
| "list_write cd Pop xs (r, ys) \<longleftrightarrow>
     restore cd (if xs = [] then None else Some (last xs)) = Inr r \<and> ys = butlast xs"
| "list_write cd Shift xs (r, ys) \<longleftrightarrow>
     restore cd (if xs = [] then None else Some (hd xs)) = Inr r \<and> ys = tl xs"
| "list_write cd Clear_deque xs (r, ys) \<longleftrightarrow> r = RNil \<and> ys = []"

fun list_writes :: "'i codec \<Rightarrow> deque_change list \<Rightarrow> 'i list \<Rightarrow> rvalue list \<times> 'i list \<Rightarrow> bool" where
  "list_writes cd [] xs (rs, ys) \<longleftrightarrow> rs = [] \<and> ys = xs"
| "list_writes cd (w # ws) xs (rs, ys) \<longleftrightarrow>
     (\<exists>r rs' zs. rs = r # rs' \<and> list_write cd w xs (r, zs) \<and> list_writes cd ws zs (rs', ys))"

lemma op_map_eq_Inr_iff: "op_map f m s = (Inr y, t) \<longleftrightarrow> (\<exists>x. m s = (Inr x, t) \<and> y = f x)"
  by (auto simp: op_map_def res_map_eq_Inr_iff split: prod.splits)

lemma deque_write_list:
  assumes "deque_laws C q" and "deque_write env cd C w s = (Inr r, t)"
  shows "list_write cd w (q s) (r, q t)"
  using assms(2)
  by (cases w)
     (auto simp: op_map_eq_Inr_iff deque_push_back_def deque_push_front_def deque_pop_back_def
       deque_pop_front_def deque_clear_def write_item_Inr_iff read_item_Inr_iff run_state_Inr_iff
       dest: deque_lawsD [OF assms(1)])

lemma deque_writes_list:
  "deque_laws C q \<Longrightarrow> deque_writes env cd C ws s = (Inr rs, t) \<Longrightarrow> list_writes cd ws (q s) (rs, q t)"
proof (induction ws arbitrary: s rs)
  case (Cons w ws)
  then obtain r u rs' where "deque_write env cd C w s = (Inr r, u)"
      "deque_writes env cd C ws u = (Inr rs', t)" "rs = r # rs'"
    by (auto simp: op_bind_eq_Inr_iff op_map_eq_Inr_iff)
  with Cons.IH [OF Cons.prems(1), of u rs'] deque_write_list [OF Cons.prems(1), of env cd w s r u]
  show ?case by auto
qed simp

text \<open>A store that is a list, for the witnesses.\<close>

definition list_deque_core :: "(int list, int, unit) deque_core" where
  "list_deque_core = \<lparr>dc_len = (\<lambda>s. if length s < 2 ^ 64 then (Inr (word_of_nat (length s)), s)
       else (Inl \<lparr>er_category = Erased_permanent, er_message = ''too long''\<rparr>, s)),
     dc_is_empty = (\<lambda>s. (Inr (s = []), s)),
     dc_get = (\<lambda>n s. (Inr (if unat n < length s then Some (s ! unat n) else None), s)),
     dc_peek_front = (\<lambda>s. (Inr (if s = [] then None else Some (hd s)), s)),
     dc_peek_back = (\<lambda>s. (Inr (if s = [] then None else Some (last s)), s)),
     dc_push_back = (\<lambda>i s. (Inr (), s @ [i])), dc_push_front = (\<lambda>i s. (Inr (), i # s)),
     dc_pop_front = (\<lambda>s. (Inr (if s = [] then None else Some (hd s)), tl s)),
     dc_pop_back = (\<lambda>s. (Inr (if s = [] then None else Some (last s)), butlast s)),
     dc_clear = (\<lambda>s. (Inr (), [])), dc_values = (\<lambda>_. ()),
     dc_commit = (\<lambda>s. (Inr Applied, s)), dc_rollback = (\<lambda>s. (No_op, s))\<rparr>"

lemma list_deque_core_laws: "deque_laws list_deque_core id"
  unfolding deque_laws_def list_deque_core_def
  by (auto simp: unat_of_nat take_bit_nat_eq_self split: if_splits)

subsection \<open>Properties\<close>

text \<open>
  Refinement of deques: over a store that keeps its documented promises, a handler's
  pushes, pops and clears act on the list of stored items and return the items they remove,
  and \<open>get\<close> then reads that list as Ruby's \<open>Array#[]\<close> does, negative indexes from the back.
\<close>

theorem deque_handle_refines:
  assumes "deque_laws C q" and "deque_writes env cd C ws s = (Inr rs, t)"
    and "ruby_deque_get env inspect cd C (RInteger n) t = (Inr v, u)"
  shows "list_writes cd ws (q s) (rs, q t) \<and>
    (restore cd (array_at (q t) n) = Inr v \<or> array_at (q t) n = None \<and> n < - 1 \<and> v = RNil)"
proof -
  have "restore cd (array_at (q t) n) = Inr v \<or> array_at (q t) n = None \<and> n < - 1 \<and> v = RNil"
  proof (cases "n < 0")
    case False
    then show ?thesis
      using assms(3) native_deque_get_at [OF assms(1), of n env cd t v u]
      by (simp add: ruby_deque_get_def)
  next
    case True
    show ?thesis
    proof (cases "n = - 1")
      case True
      with assms(3) obtain x where "dc_peek_back C t = (Inr x, u)" "restore cd x = Inr v"
        by (auto simp: ruby_deque_get_def at_negative_def deque_peek_back_def read_item_Inr_iff)
      with deque_lawsD(7) [OF assms(1)] True show ?thesis by (auto simp: array_at_last)
    next
      case minus: False
      with True assms(3) obtain len w where len: "dc_len C t = (Inr len, w)"
        and get: "(if uint len + n < 0 then op_ok RNil
             else native_deque_get env cd C (uint len + n)) w = (Inr v, u)"
        by (auto simp: ruby_deque_get_def at_negative_def deque_len_def op_bind_eq_Inr_iff
            run_state_Inr_iff Let_def)
      from deque_lawsD(6) [OF assms(1) len] have l: "unat len = length (q t)" and w: "q w = q t"
        by auto
      from l have "uint len = int (length (q t))" by (simp flip: l)
      with w have eq: "array_at (q t) n =
          (if uint len + n < 0 then None else array_at (q w) (uint len + n))"
        using True by (auto simp: array_at_def Let_def)
      show ?thesis
      proof (cases "uint len + n < 0")
        case lt: True
        with get eq minus True show ?thesis by auto
      next
        case False
        with get have "native_deque_get env cd C (uint len + n) w = (Inr v, u)" by simp
        with False native_deque_get_at [OF assms(1), of "uint len + n" env cd w v u] eq show ?thesis by simp
      qed
    qed
  qed
  then show ?thesis using deque_writes_list [OF assms(1,2)] by blast
qed

theorem deque_handle_refines_witness:
  "list_writes (json_codec sample_env int_lib) [Push (RInteger 4), Unshift (RInteger 5)] []
      ([RNil, RNil], [5, 4]) \<and>
    restore (json_codec sample_env int_lib) (array_at [5, 4] (- 2)) = Inr (RInteger 5)"
proof -
  let ?cd = "json_codec sample_env int_lib"
  have w: "deque_writes sample_env ?cd list_deque_core [Push (RInteger 4), Unshift (RInteger 5)] [] =
      (Inr [RNil, RNil], [5, 4])"
    by (simp add: deque_push_back_def deque_push_front_def write_item_def json_codec_def
        json_write_item_def int_lib_def list_deque_core_def sample_env_traced op_bind_def op_map_def)
  have g: "ruby_deque_get sample_env (\<lambda>_. []) ?cd list_deque_core (RInteger (- 2)) [5, 4] =
      (Inr (RInteger 5), [5, 4])"
    by (simp add: ruby_deque_get_def at_negative_def deque_len_def native_deque_get_def
        usize_argument_def usize_try_from_def deque_get_def read_item_def json_codec_def
        int_lib_def list_deque_core_def sample_env_traced op_bind_def)
  from deque_handle_refines [OF list_deque_core_laws w g]
  show ?thesis by simp
qed

text \<open>
  A non-negative index no \<open>usize\<close> holds is not read as a missing element: \<open>get\<close> raises
  \<open>RangeError\<close> where a smaller index past the end gives \<open>nil\<close>, and the store is not asked.
\<close>

theorem deque_index_too_big:
  "ruby_deque_get env inspect cd C (RInteger (2 ^ 64 + int k)) s =
     (Inl (Rb_error range_error_class ''bignum too big to convert into unsigned long long''), s)"
  by (simp add: ruby_deque_get_def native_deque_get_def usize_argument_def usize_try_from_def)

end
