(* ===== verification/Ruby_Hash.thy ===== *)
theory Ruby_Hash
  imports Ruby_Model
begin

text \<open>
  Ruby's \<open>Hash\<close>: pairs in the order in which their keys were first inserted. The interfaces
  say what the clients rely on: what a lookup returns after a write (\<open>hash_table\<close>), and
  which keys there are, in which order (\<open>insertion_hash\<close>). The option hash of a configuration,
  the outcomes of a request and the results of \<open>slice\<close> are built on them.
\<close>

subsection \<open>The operations\<close>

text \<open>\<open>Hash#[]=\<close>: a key that is there keeps its place.\<close>

fun aset :: "'k \<Rightarrow> 'v \<Rightarrow> ('k \<times> 'v) list \<Rightarrow> ('k \<times> 'v) list" where
  "aset k v [] = [(k, v)]"
| "aset k v ((k', v') # h) = (if k' = k then (k, v) # h else (k', v') # aset k v h)"

text \<open>\<open>Array#to_h\<close> on pairs, and \<open>Hash#compact\<close>.\<close>

definition pairs_to_h :: "('k \<times> 'v) list \<Rightarrow> ('k \<times> 'v) list" where
  "pairs_to_h kvs = fold (\<lambda>(k, v). aset k v) kvs []"

definition hash_compact :: "('k \<times> rvalue) list \<Rightarrow> ('k \<times> rvalue) list" where
  "hash_compact h = filter (\<lambda>(_, v). \<not> is_nil v) h"

subsection \<open>The interfaces\<close>

locale hash_table =
  fixes empty :: 'h
    and put :: "'k \<Rightarrow> 'v \<Rightarrow> 'h \<Rightarrow> 'h"
    and get :: "'h \<Rightarrow> 'k \<Rightarrow> 'v option"
  assumes get_empty: "get empty k = None"
    and get_put: "get (put k v h) = (get h)(k \<mapsto> v)"
begin

text \<open>After any writes, each key has what was written to it last.\<close>

lemma get_writes: "get (fold (\<lambda>(k, v). put k v) kvs h) = get h ++ map_of (rev kvs)"
  by (induction kvs arbitrary: h)
     (auto simp: get_put map_add_def fun_eq_iff split: option.split)

lemma get_writes_empty: "get (fold (\<lambda>(k, v). put k v) kvs empty) = map_of (rev kvs)"
  by (simp add: get_writes map_add_def get_empty fun_eq_iff split: option.split)

end

locale insertion_hash = hash_table +
  fixes keys :: "'h \<Rightarrow> 'k list"
  assumes keys_empty: "keys empty = []"
    and keys_put: "keys (put k v h) = (if k \<in> set (keys h) then keys h else keys h @ [k])"
begin

lemma keys_writes_distinct: "distinct (keys h) \<Longrightarrow> distinct (keys (fold (\<lambda>(k, v). put k v) kvs h))"
  by (induction kvs arbitrary: h) (auto simp: keys_put)

lemma keys_writes: "set (keys (fold (\<lambda>(k, v). put k v) kvs h)) = set (keys h) \<union> fst ` set kvs"
  by (induction kvs arbitrary: h) (auto simp: keys_put split: if_splits)

end

subsection \<open>The model's hash is one\<close>

lemma aset_lookup: "map_of (aset k v h) = (map_of h)(k \<mapsto> v)"
  by (induction k v h rule: aset.induct) auto

lemma aset_keys: "map fst (aset k v h) = (if k \<in> fst ` set h then map fst h else map fst h @ [k])"
  by (induction k v h rule: aset.induct) auto

lemma aset_distinct: "distinct (map fst h) \<Longrightarrow> distinct (map fst (aset k v h))"
  by (auto simp: aset_keys)

interpretation hash: insertion_hash "[]" aset map_of "map fst"
  by unfold_locales (simp_all add: aset_lookup aset_keys)

lemma pairs_to_h_spec:
  "distinct (map fst (pairs_to_h kvs))" "map_of (pairs_to_h kvs) = map_of (rev kvs)"
  using hash.keys_writes_distinct [of "[]" kvs] by (simp_all add: pairs_to_h_def hash.get_writes_empty)

lemma hash_compact_lookup:
  "distinct (map fst h) \<Longrightarrow> map_of (hash_compact h) k =
     (case map_of h k of Some v \<Rightarrow> if is_nil v then None else Some v | None \<Rightarrow> None)"
proof (induction h)
  case (Cons x h)
  obtain k' v where x: "x = (k', v)" by (cases x)
  have "map_of h k' = None" using Cons.prems x by (simp add: map_of_eq_None_iff)
  with Cons x show ?case by (auto simp: hash_compact_def)
qed (simp add: hash_compact_def)

lemma hash_compact_distinct: "distinct (map fst h) \<Longrightarrow> distinct (map fst (hash_compact h))"
  by (induction h) (auto simp: hash_compact_def)

end
