(* ===== verification/State_Wrappers.thy ===== *)
theory State_Wrappers
  imports State_Deques Ruby_Hash
begin

text \<open>
  The conveniences of the Ruby handles that are not plain calls of a native method:
  \<open>store\<close>, \<open>fetch\<close>, \<open>slice\<close>, \<open>fetch_values\<close> and \<open>dig\<close> of \<open>MapState\<close> (lib/prosody/state/map.rb)
  and \<open>fetch\<close> of \<open>DequeState\<close> (lib/prosody/state/deque.rb), against the finite map and the
  list the store represents. A block is an operation on the state the handler works on; the
  warning about a superseded default is not modelled.
\<close>

subsection \<open>Maps\<close>

definition wrong_arguments :: "nat \<Rightarrow> rb_error" where
  "wrong_arguments given = argument_error (''wrong number of arguments (given '' @ show_nat given @ '', expected 1..2)'')"

definition key_error :: "(rvalue \<Rightarrow> string) \<Rightarrow> string \<Rightarrow> rb_error" where
  "key_error inspect key = Rb_error (Core_class ''KeyError'') (''key not found: '' @ inspect (RString key))"

definition map_store where
  "map_store env cd C key v = op_bind (map_set env cd C key v) (\<lambda>_. op_ok v)"

definition map_fetch ::
  "'ctx rb_env \<Rightarrow> 'i codec \<Rightarrow> (rvalue \<Rightarrow> string) \<Rightarrow> ('s, 'i, 'c, 'k) map_core \<Rightarrow> string \<Rightarrow> rvalue list \<Rightarrow>
    (string \<Rightarrow> ('s, rb_error, rvalue) op) option \<Rightarrow> ('s, rb_error, rvalue) op"
where
  "map_fetch env cd inspect C key fallback block =
     (if length fallback > 1 then op_err (wrong_arguments (length fallback + 1))
      else op_bind (map_get env cd C key) (\<lambda>v.
        if \<not> is_nil v then op_ok v
        else case block of
          Some f \<Rightarrow> f key
        | None \<Rightarrow> (case fallback of [] \<Rightarrow> op_err (key_error inspect key) | d # _ \<Rightarrow> op_ok d)))"

text \<open>\<open>respond_to?(:dig)\<close> and \<open>dig\<close> of a stored value are Ruby's own.\<close>

definition map_dig ::
  "'ctx rb_env \<Rightarrow> 'i codec \<Rightarrow> (rvalue \<Rightarrow> (rvalue list \<Rightarrow> rb_error + rvalue) option) \<Rightarrow>
    ('s, 'i, 'c, 'k) map_core \<Rightarrow> string \<Rightarrow> rvalue list \<Rightarrow> ('s, rb_error, rvalue) op"
where
  "map_dig env cd dig C key rest =
     op_bind (map_get env cd C key) (\<lambda>v.
       if rest = [] \<or> is_nil v then op_ok v
       else case dig v of
         None \<Rightarrow> op_err (Rb_error type_error_class ''does not have #dig method'')
       | Some f \<Rightarrow> op_lift (f rest))"

definition map_slice where
  "map_slice env cd C keys =
     op_map (\<lambda>vs. hash_compact (pairs_to_h (zip keys vs))) (map_get_many env cd C keys)"

fun fetch_each ::
  "(rvalue \<Rightarrow> string) \<Rightarrow> (string \<Rightarrow> ('s, rb_error, rvalue) op) option \<Rightarrow> (string \<times> rvalue) list \<Rightarrow>
    ('s, rb_error, rvalue list) op"
where
  "fetch_each inspect block [] = op_ok []"
| "fetch_each inspect block ((key, v) # kvs) =
     op_bind
       (if \<not> is_nil v then op_ok v
        else case block of Some f \<Rightarrow> f key | None \<Rightarrow> op_err (key_error inspect key))
       (\<lambda>x. op_map ((#) x) (fetch_each inspect block kvs))"

definition map_fetch_values where
  "map_fetch_values env cd inspect C keys block =
     op_bind (map_get_many env cd C keys) (\<lambda>vs. fetch_each inspect block (zip keys vs))"

subsection \<open>Deques\<close>

definition deque_fetch ::
  "'ctx rb_env \<Rightarrow> (rvalue \<Rightarrow> string) \<Rightarrow> 'i codec \<Rightarrow> ('s, 'i, 'c) deque_core \<Rightarrow> rvalue \<Rightarrow> rvalue list \<Rightarrow>
    (rvalue \<Rightarrow> ('s, rb_error, rvalue) op) option \<Rightarrow> ('s, rb_error, rvalue) op"
where
  "deque_fetch env inspect cd C index fallback block =
     (if length fallback > 1 then op_err (wrong_arguments (length fallback + 1))
      else case index of
        RInteger n \<Rightarrow>
          op_bind (ruby_deque_get env inspect cd C index) (\<lambda>v.
            if \<not> is_nil v then op_ok v
            else case block of
              Some f \<Rightarrow> f index
            | None \<Rightarrow>
                (case fallback of
                   [] \<Rightarrow> op_err (Rb_error (Core_class ''IndexError'') (''index '' @ show_int n @ '' outside deque bounds''))
                 | d # _ \<Rightarrow> op_ok d))
      | _ \<Rightarrow> op_err (Rb_error (Prosody_class ''TransientStateError'')
               (''fetch: index must be an Integer, got '' @ inspect index)))"

subsection \<open>Stored values\<close>

text \<open>
  \<open>nil\<close> is never stored: an absent item reads as \<open>nil\<close> and a stored one as something else.
\<close>

definition null_ban :: "'i codec \<Rightarrow> bool" where
  "null_ban cd \<longleftrightarrow> restore cd None = Inr RNil \<and> (\<forall>i v. restore cd (Some i) = Inr v \<longrightarrow> v \<noteq> RNil)"

definition stored :: "'i codec \<Rightarrow> (string \<Rightarrow> 'i option) \<Rightarrow> string \<Rightarrow> rvalue option" where
  "stored cd m k = (case m k of None \<Rightarrow> None | Some i \<Rightarrow>
     (case restore cd (Some i) of Inr v \<Rightarrow> Some v | Inl _ \<Rightarrow> None))"

lemma is_nil_iff: "is_nil v \<longleftrightarrow> v = RNil"
  by (cases v) simp_all

lemma stored_restore:
  assumes "null_ban cd" and "restore cd (m k) = Inr v"
  shows "stored cd m k = (if is_nil v then None else Some v)"
  using assms by (cases "m k") (auto simp: null_ban_def stored_def is_nil_iff)

lemma map_get_stored:
  assumes "map_laws C m" and "null_ban cd" and "map_get env cd C k s = (Inr v, t)"
  shows "stored cd (m s) k = (if is_nil v then None else Some v) \<and> m t = m s"
proof -
  from assms(3) obtain x where "mc_get C k s = (Inr x, t)" "restore cd x = Inr v"
    by (auto simp: map_get_def read_item_Inr_iff)
  with assms(1) have "m t = m s" "restore cd (m s k) = Inr v"
    unfolding map_laws_def by metis+
  with stored_restore [OF assms(2), of "m s" k v] show ?thesis by simp
qed

lemma map_get_many_stored:
  assumes "map_laws C m" and "null_ban cd" and "map_get_many env cd C ks s = (Inr vs, t)"
  shows "list_all2 (\<lambda>k v. stored cd (m s) k = (if is_nil v then None else Some v)) ks vs \<and> m t = m s"
proof -
  from assms(3) obtain xs where "mc_get_many C ks s = (Inr xs, t)" "traverse (restore cd) xs = Inr vs"
    by (auto simp: map_get_many_def op_bind_eq_Inr_iff run_state_Inr_iff)
  moreover from this(1) assms(1) have "xs = map (m s) ks \<and> m t = m s"
    unfolding map_laws_def by blast
  ultimately have "m t = m s" and "list_all2 (\<lambda>k v. restore cd (m s k) = Inr v) ks vs"
    by (simp_all add: traverse_Inr_iff list.rel_map)
  then show ?thesis
    using stored_restore [OF assms(2), of "m s"] by (blast intro: list_all2_mono)
qed

text \<open>Pairing keys with what they read: every pair with a key has its value.\<close>

lemma zip_lookup:
  assumes "list_all2 (\<lambda>k v. f k = g v) ks vs"
  shows "case map_of (rev (zip ks vs)) k of Some v \<Rightarrow> k \<in> set ks \<and> f k = g v | None \<Rightarrow> k \<notin> set ks"
  using assms
  by (induction rule: list_all2_induct) (auto simp: map_add_def split: option.splits)

lemma map_slice_stored:
  assumes "list_all2 (\<lambda>k v. f k = (if is_nil v then None else Some v)) ks vs"
  shows "distinct (map fst (hash_compact (pairs_to_h (zip ks vs))))"
    and "map_of (hash_compact (pairs_to_h (zip ks vs))) k = (if k \<in> set ks then f k else None)"
  using zip_lookup [OF assms, of k]
  by (auto simp: hash_compact_distinct hash_compact_lookup pairs_to_h_spec split: option.splits)

lemma fetch_each_stored:
  "list_all2 (\<lambda>k v. f k = (if is_nil v then None else Some v)) ks vs \<Longrightarrow>
     fetch_each inspect None (zip ks vs) s =
       (case List.find (\<lambda>k. f k = None) ks of
          None \<Rightarrow> Inr (map (the \<circ> f) ks)
        | Some k \<Rightarrow> Inl (key_error inspect k), s)"
  by (induction rule: list_all2_induct) (auto simp: op_map_def op_bind_def split: option.split)

subsection \<open>Properties\<close>

text \<open>
  C23: The Hash-style reads are those of a Hash: over a store that keeps its promises, and as
  long as the reads themselves succeed, \<open>slice\<close> is exactly the map restricted to the given
  keys, without duplicates; \<open>fetch_values\<close> gives one value per key or raises \<open>KeyError\<close> for the
  first absent one; \<open>fetch\<close> gives the value, the default, or \<open>KeyError\<close>; and none of them
  changes the map.
\<close>

theorem map_conveniences_refine:
  assumes "map_laws C m" and "null_ban cd"
    and many: "map_get_many env cd C keys s = (Inr us, t)" and one: "map_get env cd C key s = (Inr u, t')"
    and "length fallback \<le> 1"
  shows "(\<exists>h. map_slice env cd C keys s = (Inr h, t) \<and> distinct (map fst h) \<and>
      (\<forall>k. map_of h k = (if k \<in> set keys then stored cd (m s) k else None))) \<and>
    map_fetch_values env cd inspect C keys None s =
      (case List.find (\<lambda>k. stored cd (m s) k = None) keys of
         None \<Rightarrow> Inr (map (the \<circ> stored cd (m s)) keys)
       | Some k \<Rightarrow> Inl (key_error inspect k), t) \<and>
    map_fetch env cd inspect C key fallback None s =
      (case stored cd (m s) key of
         Some v \<Rightarrow> Inr v
       | None \<Rightarrow> (case fallback of [] \<Rightarrow> Inl (key_error inspect key) | d # _ \<Rightarrow> Inr d), t') \<and>
    m t = m s \<and> m t' = m s"
proof -
  note read = map_get_many_stored [OF assms(1,2) many] and get = map_get_stored [OF assms(1,2) one]
  have "map_slice env cd C keys s = (Inr (hash_compact (pairs_to_h (zip keys us))), t)"
    by (simp add: map_slice_def many)
  moreover have "map_fetch_values env cd inspect C keys None s = fetch_each inspect None (zip keys us) t"
    by (simp add: map_fetch_values_def many)
  moreover have "map_fetch env cd inspect C key fallback None s =
      (case stored cd (m s) key of
         Some v \<Rightarrow> Inr v
       | None \<Rightarrow> (case fallback of [] \<Rightarrow> Inl (key_error inspect key) | d # _ \<Rightarrow> Inr d), t')"
    using get assms(5) by (simp add: map_fetch_def one split: list.split)
  ultimately show ?thesis
    using map_slice_stored [of "stored cd (m s)" keys us] fetch_each_stored [of "stored cd (m s)" keys us inspect t]
      read get by auto
qed

theorem map_conveniences_refine_witness:
  "map_fetch_values sample_env (json_codec sample_env int_lib) (\<lambda>_. ''k'') fun_map_core [''a'', ''b''] None [''a'' \<mapsto> 1] =
     (Inl (key_error (\<lambda>_. ''k'') ''b''), [''a'' \<mapsto> 1])"
proof -
  let ?cd = "json_codec sample_env int_lib"
  have ban: "null_ban ?cd" by (simp add: null_ban_def json_codec_def int_lib_def)
  have many: "map_get_many sample_env ?cd fun_map_core [''a'', ''b''] [''a'' \<mapsto> 1] =
      (Inr [RInteger 1, RNil], [''a'' \<mapsto> 1])"
    by (simp add: map_get_many_def fun_map_core_def json_codec_def int_lib_def sample_env_traced op_bind_def)
  have one: "map_get sample_env ?cd fun_map_core ''a'' [''a'' \<mapsto> 1] = (Inr (RInteger 1), [''a'' \<mapsto> 1])"
    by (simp add: map_get_def read_item_def fun_map_core_def json_codec_def int_lib_def sample_env_traced op_bind_def)
  have "restore ?cd (Some i) = Inr (RInteger i)" for i by (simp add: json_codec_def int_lib_def)
  with map_conveniences_refine [OF fun_map_core_laws ban many one, of "[]" "\<lambda>_. ''k''"]
  show ?thesis by (simp add: stored_def)
qed

text \<open>\<open>fetch\<close> of a deque reads as \<open>get\<close> does and never returns \<open>nil\<close> for a missing element.\<close>

theorem deque_fetch_get:
  assumes "ruby_deque_get env inspect cd C (RInteger n) s = (r, t)"
  shows "deque_fetch env inspect cd C (RInteger n) [] None s =
    (case r of
       Inl e \<Rightarrow> Inl e
     | Inr v \<Rightarrow>
         if is_nil v then Inl (Rb_error (Core_class ''IndexError'') (''index '' @ show_int n @ '' outside deque bounds''))
         else Inr v, t)"
  using assms by (simp add: deque_fetch_def op_bind_def split: sum.split)

end
