(* ===== verification/State_Sets.thy ===== *)
theory State_Sets
  imports State_Wrappers
begin

text \<open>
  Sets end to end: the native set handle (handler/state/set.rs) under the Ruby wrapper \<open>SetState\<close>
  of lib/prosody/state/set.rb, whose writes return the handle for chaining, and the \<open>prepend\<close>,
  \<open>append\<close> and \<open>delete\<close> of the other wrappers. The store is described by two sets: the members the
  handler sees, and those that are durable; \<open>commit\<close> and \<open>rollback\<close> make one the other.
\<close>

subsection \<open>The Ruby wrappers\<close>

definition set_add where
  "set_add self env C member = op_map (\<lambda>_. self) (set_insert env C member)"

definition set_delete where
  "set_delete self env C member = op_map (\<lambda>_. self) (set_remove env C member)"

definition set_clear_all where
  "set_clear_all self env C = op_map (\<lambda>_. self) (set_clear env C)"

definition map_delete where
  "map_delete env C key = op_map (\<lambda>_. RNil) (map_remove env C key)"

definition deque_prepend where
  "deque_prepend self env cd C v = op_map (\<lambda>_. self) (deque_push_front env cd C v)"

definition deque_append where
  "deque_append self env cd C v = op_map (\<lambda>_. self) (deque_push_back env cd C v)"

datatype set_change = Add string | Delete string | Clear_all | Commit | Rollback

fun set_change_call ::
  "rvalue \<Rightarrow> 'ctx rb_env \<Rightarrow> ('s, 'k) set_core \<Rightarrow> set_change \<Rightarrow> ('s, rb_error, rvalue) op"
where
  "set_change_call self env C (Add member) = set_add self env C member"
| "set_change_call self env C (Delete member) = set_delete self env C member"
| "set_change_call self env C Clear_all = set_clear_all self env C"
| "set_change_call self env C Commit = op_map RSymbol (set_commit env C)"
| "set_change_call self env C Rollback = op_map RSymbol (set_rollback env C)"

fun set_changes ::
  "rvalue \<Rightarrow> 'ctx rb_env \<Rightarrow> ('s, 'k) set_core \<Rightarrow> set_change list \<Rightarrow> ('s, rb_error, rvalue list) op"
where
  "set_changes self env C [] = op_ok []"
| "set_changes self env C (w # ws) =
     op_bind (set_change_call self env C w) (\<lambda>v. op_map ((#) v) (set_changes self env C ws))"

subsection \<open>The two sets behind a handle\<close>

definition set_laws :: "('s, 'k) set_core \<Rightarrow> ('s \<Rightarrow> string set) \<Rightarrow> ('s \<Rightarrow> string set) \<Rightarrow> bool" where
  "set_laws C seen durable \<longleftrightarrow>
     (\<forall>k b s t. sc_contains C k s = (Inr b, t) \<longrightarrow> b = (k \<in> seen s)) \<and>
     (\<forall>ks bs s t. sc_contains_many C ks s = (Inr bs, t) \<longrightarrow> bs = map (\<lambda>k. k \<in> seen s) ks) \<and>
     (\<forall>b s t. sc_is_empty C s = (Inr b, t) \<longrightarrow> b = (seen s = {})) \<and>
     (\<forall>k s t. sc_insert C k s = (Inr (), t) \<longrightarrow> seen t = insert k (seen s) \<and> durable t = durable s) \<and>
     (\<forall>k s t. sc_remove C k s = (Inr (), t) \<longrightarrow> seen t = seen s - {k} \<and> durable t = durable s) \<and>
     (\<forall>s t. sc_clear C s = (Inr (), t) \<longrightarrow> seen t = {} \<and> durable t = durable s) \<and>
     (\<forall>x s t. sc_commit C s = (Inr x, t) \<longrightarrow>
        seen t = seen s \<and> durable t = seen s \<and> (x = No_op \<longrightarrow> durable s = seen s)) \<and>
     (\<forall>x s t. sc_rollback C s = (x, t) \<longrightarrow>
        seen t = durable s \<and> durable t = durable s \<and> (x = No_op \<longrightarrow> durable s = seen s))"

lemma set_lawsD:
  assumes "set_laws C seen durable"
  shows "sc_contains C k s = (Inr b, t) \<Longrightarrow> b = (k \<in> seen s)"
    and "sc_contains_many C ks s = (Inr bs, t) \<Longrightarrow> bs = map (\<lambda>k. k \<in> seen s) ks"
    and "sc_is_empty C s = (Inr b, t) \<Longrightarrow> b = (seen s = {})"
    and "sc_insert C k s = (Inr (), t) \<Longrightarrow> seen t = insert k (seen s) \<and> durable t = durable s"
    and "sc_remove C k s = (Inr (), t) \<Longrightarrow> seen t = seen s - {k} \<and> durable t = durable s"
    and "sc_clear C s = (Inr (), t) \<Longrightarrow> seen t = {} \<and> durable t = durable s"
    and "sc_commit C s = (Inr x, t) \<Longrightarrow>
        seen t = seen s \<and> durable t = seen s \<and> (x = No_op \<longrightarrow> durable s = seen s)"
    and "sc_rollback C s = (x, t) \<Longrightarrow>
        seen t = durable s \<and> durable t = durable s \<and> (x = No_op \<longrightarrow> durable s = seen s)"
proof -
  note laws = assms [unfolded set_laws_def]
  show "sc_contains C k s = (Inr b, t) \<Longrightarrow> b = (k \<in> seen s)"
    by (rule laws [THEN conjunct1, rule_format])
  show "sc_contains_many C ks s = (Inr bs, t) \<Longrightarrow> bs = map (\<lambda>k. k \<in> seen s) ks"
    by (rule laws [THEN conjunct2, THEN conjunct1, rule_format])
  show "sc_is_empty C s = (Inr b, t) \<Longrightarrow> b = (seen s = {})"
    by (rule laws [THEN conjunct2, THEN conjunct2, THEN conjunct1, rule_format])
  show "sc_insert C k s = (Inr (), t) \<Longrightarrow> seen t = insert k (seen s) \<and> durable t = durable s"
    by (rule laws [THEN conjunct2, THEN conjunct2, THEN conjunct2, THEN conjunct1, rule_format])
  show "sc_remove C k s = (Inr (), t) \<Longrightarrow> seen t = seen s - {k} \<and> durable t = durable s"
    by (rule laws [THEN conjunct2, THEN conjunct2, THEN conjunct2, THEN conjunct2, THEN conjunct1, rule_format])
  show "sc_clear C s = (Inr (), t) \<Longrightarrow> seen t = {} \<and> durable t = durable s"
    by (rule laws [THEN conjunct2, THEN conjunct2, THEN conjunct2, THEN conjunct2, THEN conjunct2, THEN conjunct1, rule_format])
  show "sc_commit C s = (Inr x, t) \<Longrightarrow>
      seen t = seen s \<and> durable t = seen s \<and> (x = No_op \<longrightarrow> durable s = seen s)"
    by (rule laws [THEN conjunct2, THEN conjunct2, THEN conjunct2, THEN conjunct2, THEN conjunct2, THEN conjunct2, THEN conjunct1, rule_format])
  show "sc_rollback C s = (x, t) \<Longrightarrow>
      seen t = durable s \<and> durable t = durable s \<and> (x = No_op \<longrightarrow> durable s = seen s)"
    by (rule laws [THEN conjunct2, THEN conjunct2, THEN conjunct2, THEN conjunct2, THEN conjunct2, THEN conjunct2, THEN conjunct2, rule_format])
qed

text \<open>The same changes on the pair of sets.\<close>

fun change_sets :: "set_change \<Rightarrow> string set \<times> string set \<Rightarrow> string set \<times> string set" where
  "change_sets (Add k) (seen, durable) = (insert k seen, durable)"
| "change_sets (Delete k) (seen, durable) = (seen - {k}, durable)"
| "change_sets Clear_all (seen, durable) = ({}, durable)"
| "change_sets Commit (seen, durable) = (seen, seen)"
| "change_sets Rollback (seen, durable) = (durable, durable)"

text \<open>What a change returns: the handle, or the symbol of what there was to do.\<close>

fun change_answers :: "rvalue \<Rightarrow> set_change \<Rightarrow> string set \<times> string set \<Rightarrow> rvalue \<Rightarrow> bool" where
  "change_answers self (Add k) _ r = (r = self)"
| "change_answers self (Delete k) _ r = (r = self)"
| "change_answers self Clear_all _ r = (r = self)"
| "change_answers self _ (seen, durable) r =
     (r = RSymbol ''applied'' \<or> r = RSymbol ''no_op'' \<and> seen = durable)"

lemma set_change_call_spec:
  assumes laws: "set_laws C seen durable" and call: "set_change_call self env C w s = (Inr r, t)"
  shows "(seen t, durable t) = change_sets w (seen s, durable s) \<and> change_answers self w (seen s, durable s) r"
proof (cases w)
  case (Add k)
  with call have "sc_insert C k s = (Inr (), t) \<and> r = self"
    by (auto simp: set_add_def set_insert_def op_map_eq_Inr_iff run_state_Inr_iff)
  with set_lawsD(4) [OF laws] Add show ?thesis by auto
next
  case (Delete k)
  with call have "sc_remove C k s = (Inr (), t) \<and> r = self"
    by (auto simp: set_delete_def set_remove_def op_map_eq_Inr_iff run_state_Inr_iff)
  with set_lawsD(5) [OF laws] Delete show ?thesis by auto
next
  case Clear_all
  with call have "sc_clear C s = (Inr (), t) \<and> r = self"
    by (auto simp: set_clear_all_def set_clear_def op_map_eq_Inr_iff run_state_Inr_iff)
  with set_lawsD(6) [OF laws] Clear_all show ?thesis by auto
next
  case Commit
  with call obtain x where "sc_commit C s = (Inr x, t)" "r = RSymbol (outcome_symbol x)"
    by (auto simp: set_commit_def finish_def op_map_eq_Inr_iff op_bind_eq_Inr_iff run_state_Inr_iff)
  with set_lawsD(7) [OF laws] Commit show ?thesis by (cases x) auto
next
  case Rollback
  with call obtain x where "sc_rollback C s = (x, t)" "r = RSymbol (outcome_symbol x)"
    by (auto simp: set_rollback_def finish_def infallible_def op_map_eq_Inr_iff op_bind_eq_Inr_iff
        run_state_Inr_iff split: prod.splits)
  with set_lawsD(8) [OF laws] Rollback show ?thesis by (cases x) auto
qed

text \<open>The answers along a sequence of changes.\<close>

fun answers :: "rvalue \<Rightarrow> set_change list \<Rightarrow> string set \<times> string set \<Rightarrow> rvalue list \<Rightarrow> bool" where
  "answers self [] v rs = (rs = [])"
| "answers self (w # ws) v rs =
     (case rs of [] \<Rightarrow> False | r # rs \<Rightarrow> change_answers self w v r \<and> answers self ws (change_sets w v) rs)"

lemma set_changes_spec:
  assumes "set_laws C seen durable" "set_changes self env C ws s = (Inr rs, t)"
  shows "(seen t, durable t) = fold change_sets ws (seen s, durable s) \<and> answers self ws (seen s, durable s) rs"
  using assms(2)
proof (induction ws arbitrary: s rs)
  case (Cons w ws)
  then obtain r u rs' where "set_change_call self env C w s = (Inr r, u)"
    "set_changes self env C ws u = (Inr rs', t)" "rs = r # rs'"
    by (auto simp: op_bind_eq_Inr_iff op_map_eq_Inr_iff)
  moreover from this(1) have "(seen u, durable u) = change_sets w (seen s, durable s)"
    "change_answers self w (seen s, durable s) r"
    using set_change_call_spec [OF assms(1)] by blast+
  ultimately show ?case using Cons.IH [of u rs'] by simp
qed simp

text \<open>
  C20: Refinement of sets: over a store that keeps its documented promises, a handler's adds,
  deletes, clears, commits and rollbacks act on two finite sets, what it sees and what is
  durable; each write returns the handle, and \<open>:no_op\<close> only where there was nothing to write
  or discard. A later \<open>include?\<close>, \<open>contains_many\<close> and \<open>empty?\<close> answer from the set it sees.
\<close>

theorem set_handle_refines:
  assumes "set_laws C seen durable" and "set_changes self env C ws s = (Inr rs, t)"
  defines "after \<equiv> fold change_sets ws (seen s, durable s)"
  shows "answers self ws (seen s, durable s) rs \<and> durable t = snd after \<and>
    (set_contains env C k t = (Inr b, u) \<longrightarrow> b = (k \<in> fst after)) \<and>
    (set_contains_many env C ks t = (Inr bs, u) \<longrightarrow> bs = map (\<lambda>k. k \<in> fst after) ks) \<and>
    (set_is_empty env C t = (Inr e, u) \<longrightarrow> e = (fst after = {}))"
proof -
  from set_changes_spec [OF assms(1,2)] have "seen t = fst after" "durable t = snd after"
    "answers self ws (seen s, durable s) rs"
    unfolding after_def by (metis fst_conv, metis snd_conv, blast)
  then show ?thesis
    by (auto simp: set_contains_def set_contains_many_def set_is_empty_def run_state_Inr_iff
        dest: set_lawsD(1-3) [OF assms(1)])
qed

text \<open>A store that keeps the promises: the two sets themselves.\<close>

definition pair_set_core :: "(string set \<times> string set, unit) set_core" where
  "pair_set_core = \<lparr>sc_contains = (\<lambda>k s. (Inr (k \<in> fst s), s)),
     sc_contains_many = (\<lambda>ks s. (Inr (map (\<lambda>k. k \<in> fst s) ks), s)),
     sc_is_empty = (\<lambda>s. (Inr (fst s = {}), s)),
     sc_insert = (\<lambda>k s. (Inr (), (insert k (fst s), snd s))),
     sc_remove = (\<lambda>k s. (Inr (), (fst s - {k}, snd s))),
     sc_clear = (\<lambda>s. (Inr (), ({}, snd s))), sc_keys = (\<lambda>_. ()),
     sc_commit = (\<lambda>s. (Inr (if fst s = snd s then No_op else Applied), (fst s, fst s))),
     sc_rollback = (\<lambda>s. (if fst s = snd s then No_op else Applied, (snd s, snd s)))\<rparr>"

lemma pair_set_core_laws: "set_laws pair_set_core fst snd"
  by (simp add: set_laws_def pair_set_core_def)

theorem set_handle_refines_witness:
  "set_contains sample_env pair_set_core ''a'' ({''a''}, {''a''}) = (Inr True, ({''a''}, {''a''})) \<and>
   answers (RObject 1) [Add ''a'', Commit, Delete ''a'', Rollback] ({}, {})
     [RObject 1, RSymbol ''applied'', RObject 1, RSymbol ''applied'']"
proof -
  have run: "set_changes (RObject 1) sample_env pair_set_core [Add ''a'', Commit, Delete ''a'', Rollback] ({}, {}) =
      (Inr [RObject 1, RSymbol ''applied'', RObject 1, RSymbol ''applied''], ({''a''}, {''a''}))"
    by (simp add: set_add_def set_insert_def set_commit_def set_delete_def set_remove_def set_rollback_def
        finish_def infallible_def pair_set_core_def sample_env_traced op_bind_def op_map_def)
  have one: "set_contains sample_env pair_set_core ''a'' ({''a''}, {''a''}) = (Inr (''a'' \<in> {''a''}), ({''a''}, {''a''}))"
    by (simp add: set_contains_def pair_set_core_def sample_env_traced)
  from set_handle_refines [OF pair_set_core_laws run] one show ?thesis by simp
qed

end
