(* ===== verification/Config_Types.thy ===== *)
theory Config_Types
  imports Durations
begin

text \<open>
  The configuration the Ruby side hands over (client/config/mod.rs and the structs of
  client/config/state.rs), and the shape all of its conversions share: a conversion runs
  through a fixed list of setters of a builder; an option that is not set calls nothing, a
  value that does not convert ends it with an error.

  The builders belong to the core, so a builder is the list of the setter calls made on it.
\<close>

subsection \<open>The configuration\<close>

datatype probe_port = Unconfigured | Disabled | Configured u16

record state_collection_config =
  col_name :: string
  col_kind :: string
  col_payload :: "string option"
  col_ttl_seconds :: "u32 option"
  col_read_uncommitted :: "bool option"
  col_published :: "bool option"
  col_keyset_limit :: "usize option"
  col_capacity :: "usize option" \<comment> \<open>non-zero, which its type \<open>NonZeroUsize\<close> ensures\<close>

datatype read_cache_config = Cache_disabled bool | Cache_ttl f64

record native_configuration =
  cfg_bootstrap_servers :: "(string list) option"
  cfg_mock :: "bool option"
  cfg_send_timeout :: "f64 option"
  cfg_group_id :: "string option"
  cfg_idempotence_cache_size :: "u32 option"
  cfg_idempotence_version :: "string option"
  cfg_idempotence_ttl :: "f64 option"
  cfg_subscribed_topics :: "(string list) option"
  cfg_allowed_events :: "(string list) option"
  cfg_source_system :: "string option"
  cfg_max_concurrency :: "u32 option"
  cfg_max_uncommitted :: "u32 option"
  cfg_stall_threshold :: "f64 option"
  cfg_shutdown_timeout :: "f64 option"
  cfg_poll_interval :: "f64 option"
  cfg_commit_interval :: "f64 option"
  cfg_statistics_interval :: "f64 option"
  cfg_mode :: "string option"
  cfg_retry_base :: "f64 option"
  cfg_max_retries :: "u32 option"
  cfg_max_retry_delay :: "f64 option"
  cfg_failure_topic :: "string option"
  cfg_probe_port :: "probe_port option"
  cfg_cassandra_nodes :: "(string list) option"
  cfg_cassandra_keyspace :: "string option"
  cfg_cassandra_datacenter :: "string option"
  cfg_cassandra_rack :: "string option"
  cfg_cassandra_user :: "string option"
  cfg_cassandra_password :: "string option"
  cfg_cassandra_retention :: "f64 option"
  cfg_slab_size :: "f64 option"
  cfg_scheduler_failure_weight :: "f64 option"
  cfg_scheduler_max_wait :: "f64 option"
  cfg_scheduler_wait_weight :: "f64 option"
  cfg_scheduler_cache_size :: "u32 option"
  cfg_monopolization_enabled :: "bool option"
  cfg_monopolization_threshold :: "f64 option"
  cfg_monopolization_window :: "f64 option"
  cfg_monopolization_cache_size :: "u32 option"
  cfg_defer_enabled :: "bool option"
  cfg_defer_base :: "f64 option"
  cfg_defer_max_delay :: "f64 option"
  cfg_defer_failure_threshold :: "f64 option"
  cfg_defer_failure_window :: "f64 option"
  cfg_loader_cache_size :: "u32 option"
  cfg_defer_store_cache_size :: "u32 option"
  cfg_loader_seek_timeout :: "f64 option"
  cfg_loader_discard_threshold :: "i64 option"
  cfg_timeout :: "f64 option"
  cfg_telemetry_topic :: "string option"
  cfg_telemetry_enabled :: "bool option"
  cfg_message_spans :: "string option"
  cfg_timer_spans :: "string option"
  cfg_peer_bind_address :: "string option"
  cfg_peer_advertised_connect :: "string option"
  cfg_peer_network_name :: "string option"
  cfg_peer_cache_capacity :: "usize option"
  cfg_peer_registration_ttl :: "f64 option"
  cfg_state_collections :: "(state_collection_config list) option"
  cfg_subsystem :: "string option"
  cfg_state_cache_dir :: "string option"
  cfg_state_owned_cache_size :: "string option"
  cfg_state_memtable_size :: "string option"
  cfg_state_read_cache_size :: "string option"
  cfg_state_read_cache :: "read_cache_config option"

text \<open>\<open>#[derive(Default)]\<close>\<close>

definition default_configuration :: native_configuration where
  "default_configuration = \<lparr>cfg_bootstrap_servers = None, cfg_mock = None,
     cfg_send_timeout = None, cfg_group_id = None, cfg_idempotence_cache_size = None,
     cfg_idempotence_version = None, cfg_idempotence_ttl = None, cfg_subscribed_topics = None,
     cfg_allowed_events = None, cfg_source_system = None, cfg_max_concurrency = None,
     cfg_max_uncommitted = None, cfg_stall_threshold = None, cfg_shutdown_timeout = None,
     cfg_poll_interval = None, cfg_commit_interval = None, cfg_statistics_interval = None,
     cfg_mode = None, cfg_retry_base = None, cfg_max_retries = None,
     cfg_max_retry_delay = None, cfg_failure_topic = None, cfg_probe_port = None,
     cfg_cassandra_nodes = None, cfg_cassandra_keyspace = None,
     cfg_cassandra_datacenter = None, cfg_cassandra_rack = None, cfg_cassandra_user = None,
     cfg_cassandra_password = None, cfg_cassandra_retention = None, cfg_slab_size = None,
     cfg_scheduler_failure_weight = None, cfg_scheduler_max_wait = None,
     cfg_scheduler_wait_weight = None, cfg_scheduler_cache_size = None,
     cfg_monopolization_enabled = None, cfg_monopolization_threshold = None,
     cfg_monopolization_window = None, cfg_monopolization_cache_size = None,
     cfg_defer_enabled = None, cfg_defer_base = None, cfg_defer_max_delay = None,
     cfg_defer_failure_threshold = None, cfg_defer_failure_window = None,
     cfg_loader_cache_size = None, cfg_defer_store_cache_size = None,
     cfg_loader_seek_timeout = None, cfg_loader_discard_threshold = None, cfg_timeout = None,
     cfg_telemetry_topic = None, cfg_telemetry_enabled = None, cfg_message_spans = None,
     cfg_timer_spans = None, cfg_peer_bind_address = None, cfg_peer_advertised_connect = None,
     cfg_peer_network_name = None, cfg_peer_cache_capacity = None,
     cfg_peer_registration_ttl = None, cfg_state_collections = None, cfg_subsystem = None,
     cfg_state_cache_dir = None, cfg_state_owned_cache_size = None,
     cfg_state_memtable_size = None, cfg_state_read_cache_size = None,
     cfg_state_read_cache = None\<rparr>"

text \<open>\<open>ProbePort::deserialize\<close>: the untagged values it accepts.\<close>

datatype untagged = Untagged_int int | Untagged_bool bool | Untagged_unit

fun deserialize_probe_port :: "untagged \<Rightarrow> probe_port option" where
  "deserialize_probe_port (Untagged_int n) =
     (if 0 \<le> n \<and> n < 2 ^ 16 then Some (Configured (word_of_int n)) else None)"
| "deserialize_probe_port (Untagged_bool enabled) = Some (if enabled then Unconfigured else Disabled)"
| "deserialize_probe_port Untagged_unit = Some Unconfigured"

subsection \<open>Setters\<close>

datatype setting =
    S_bool bool
  | S_string string
  | S_strings "string list"
  | S_some_string string \<comment> \<open>\<open>Some(value)\<close> for a setter of an optional text\<close>
  | S_u16 u16
  | S_u32 u32
  | S_i64 i64
  | S_usize usize
  | S_float f64
  | S_duration duration
  | S_some_duration duration
  | S_port "u16 option"
  | S_opaque nat \<comment> \<open>a value of one of the core's own types, by identity\<close>
  | S_some_opaque nat
  | S_none

type_synonym setter_call = "string \<times> setting"

text \<open>One setter: its name, and the converted option if the option is set.\<close>

type_synonym setter = "string \<times> (string + setting) option"

fun run_setters :: "setter list \<Rightarrow> string + setter_call list" where
  "run_setters [] = Inr []"
| "run_setters ((name, None) # steps) = run_setters steps"
| "run_setters ((name, Some (Inl e)) # steps) = Inl e"
| "run_setters ((name, Some (Inr v)) # steps) = res_map ((#) (name, v)) (run_setters steps)"

text \<open>A setter whose option is taken as it is, and one that goes through \<open>seconds\<close>.\<close>

definition plain :: "string \<Rightarrow> ('a \<Rightarrow> setting) \<Rightarrow> 'a option \<Rightarrow> setter" where
  "plain name f x = (name, map_option (\<lambda>v. Inr (f v)) x)"

definition timed :: "string \<Rightarrow> string \<Rightarrow> f64 option \<Rightarrow> setter" where
  "timed name option x = (name, map_option (\<lambda>v. res_map S_duration (seconds option v)) x)"

named_theorems setter_steps \<open>the kinds of setters, unfolded\<close>

declare plain_def [setter_steps] timed_def [setter_steps]

text \<open>The calls that a list of setters makes when every option set converts.\<close>

definition step_ok :: "setter \<Rightarrow> bool" where
  "step_ok st \<longleftrightarrow> (\<forall>e. snd st \<noteq> Some (Inl e))"

definition step_calls :: "setter \<Rightarrow> setter_call list" where
  "step_calls st = (case st of (name, Some (Inr v)) \<Rightarrow> [(name, v)] | _ \<Rightarrow> [])"

lemma step_ok_simps [simp]:
  "step_ok (name, None)" "step_ok (name, Some (Inr v))" "\<not> step_ok (name, Some (Inl e))"
  by (simp_all add: step_ok_def)

lemma step_ok_plain [simp]: "step_ok (plain name f x)"
  by (cases x) (simp_all add: plain_def)

lemma step_ok_timed: "step_ok (timed name option x) \<longleftrightarrow> (\<forall>v\<in>set_option x. valid_seconds v)"
proof (cases x)
  case (Some v)
  then show ?thesis
    using seconds_total [of v option] seconds_Inl_iff [of option v]
    by (cases "seconds option v") (auto simp: timed_def step_ok_def)
qed (simp add: timed_def)

lemma run_setters_ok:
  "\<forall>st\<in>set steps. step_ok st \<Longrightarrow> run_setters steps = Inr (concat (map step_calls steps))"
  by (induction steps rule: run_setters.induct) (simp_all add: step_calls_def)

lemma run_setters_Inr_iff:
  "run_setters steps = Inr calls \<longleftrightarrow>
     (\<forall>st\<in>set steps. step_ok st) \<and> calls = concat (map step_calls steps)"
  by (induction steps arbitrary: calls rule: run_setters.induct)
     (auto simp: res_map_eq_Inr_iff step_calls_def)

lemma run_setters_Inl_iff:
  "run_setters steps = Inl e \<longleftrightarrow>
     (\<exists>pre name post. steps = pre @ (name, Some (Inl e)) # post \<and> (\<forall>st\<in>set pre. step_ok st))"
proof
  show "run_setters steps = Inl e \<Longrightarrow>
    \<exists>pre name post. steps = pre @ (name, Some (Inl e)) # post \<and> (\<forall>st\<in>set pre. step_ok st)"
  proof (induction steps rule: run_setters.induct)
    case (2 name steps)
    then obtain pre n post where "steps = pre @ (n, Some (Inl e)) # post" "\<forall>st\<in>set pre. step_ok st"
      by auto
    then show ?case by (intro exI [of _ "(name, None) # pre"]) auto
  next
    case (3 name d steps)
    then have "(name, Some (Inl d)) # steps = [] @ (name, Some (Inl e)) # steps" by simp
    then show ?case by fastforce
  next
    case (4 name v steps)
    then obtain pre n post where "steps = pre @ (n, Some (Inl e)) # post" "\<forall>st\<in>set pre. step_ok st"
      by auto
    then show ?case by (intro exI [of _ "(name, Some (Inr v)) # pre"]) auto
  qed simp
next
  have "\<forall>st\<in>set pre. step_ok st \<Longrightarrow> run_setters (pre @ (name, Some (Inl e)) # post) = Inl e" for pre name post
    by (induction pre rule: run_setters.induct) auto
  then show "\<exists>pre name post. steps = pre @ (name, Some (Inl e)) # post \<and> (\<forall>st\<in>set pre. step_ok st) \<Longrightarrow>
      run_setters steps = Inl e" by auto
qed

text \<open>
  The contract of a conversion: it is described by its setters. Its success, its first
  error and the calls it makes follow from them.
\<close>

locale setter_conversion =
  fixes convert :: "'cfg \<Rightarrow> string + setter_call list"
    and steps :: "'cfg \<Rightarrow> setter list"
  assumes convert_steps: "convert c = run_setters (steps c)"
begin

lemma accepts_iff: "(\<exists>calls. convert c = Inr calls) \<longleftrightarrow> (\<forall>st\<in>set (steps c). step_ok st)"
  by (simp add: convert_steps run_setters_Inr_iff)

lemma calls_iff:
  "convert c = Inr calls \<Longrightarrow> (name, v) \<in> set calls \<longleftrightarrow> (name, Some (Inr v)) \<in> set (steps c)"
  by (auto simp: convert_steps run_setters_Inr_iff step_calls_def split: option.splits sum.splits)

text \<open>A setter whose option is not set is not called: the core's default stays.\<close>

lemma unset_not_called:
  "convert c = Inr calls \<Longrightarrow> (\<And>r. (name, Some r) \<notin> set (steps c)) \<Longrightarrow> name \<notin> fst ` set calls"
  using calls_iff by fastforce

lemma first_error:
  "convert c = Inl e \<Longrightarrow>
     \<exists>pre name post. steps c = pre @ (name, Some (Inl e)) # post \<and> (\<forall>st\<in>set pre. step_ok st)"
  by (simp add: convert_steps run_setters_Inl_iff)

end

end
