(* ===== verification/Config_Builders.thy ===== *)
theory Config_Builders
  imports Config_Types
begin

text \<open>
  The conversions of the configuration into the core's builders: client/config/connections.rs
  (producer, consumer, Cassandra, telemetry) and client/config/middleware.rs (retry, failure
  topic, scheduler, monopolization, defer, timeout, deduplication).
\<close>

text \<open>The two options that are not simply passed on.\<close>

definition probe_step :: "probe_port option \<Rightarrow> setter" where
  "probe_step p = (''probe_port'',
     (case p of
        None \<Rightarrow> None
      | Some Unconfigured \<Rightarrow> None
      | Some Disabled \<Rightarrow> Some (Inr (S_port None))
      | Some (Configured port) \<Rightarrow> Some (Inr (S_port (Some port)))))"

definition dedup_capacity_step :: "u32 option \<Rightarrow> setter" where
  "dedup_capacity_step x = (''cache_capacity'',
     map_option (\<lambda>n. if as_usize n = 0 then Inl ''idempotence_cache_size must be greater than 0''
                     else Inr (S_usize (as_usize n))) x)"

lemma probe_step_ok [simp]: "step_ok (probe_step p)"
  by (simp add: probe_step_def step_ok_def split: option.split probe_port.split)

lemma dedup_capacity_step_ok: "step_ok (dedup_capacity_step x) \<longleftrightarrow> x \<noteq> Some 0"
  by (cases x) (auto simp: dedup_capacity_step_def step_ok_def)

lemma some_duration_ok:
  "step_ok (name, map_option (\<lambda>v. res_map S_some_duration (seconds option v)) x) \<longleftrightarrow>
     (\<forall>v\<in>set_option x. valid_seconds v)"
proof (cases x)
  case (Some v)
  then show ?thesis
    using seconds_total [of v option] seconds_Inl_iff [of option v]
    by (cases "seconds option v") (auto simp: step_ok_def)
qed simp

definition producer_setters :: "native_configuration \<Rightarrow> setter list" where
  "producer_setters c =
     [plain ''bootstrap_servers'' S_strings (cfg_bootstrap_servers c),
      timed ''send_timeout'' ''send_timeout'' (cfg_send_timeout c),
      plain ''idempotence_cache_size'' (S_usize \<circ> as_usize) (cfg_idempotence_cache_size c),
      plain ''source_system'' S_string (cfg_source_system c),
      plain ''mock'' S_bool (cfg_mock c)]"

definition producer_builder :: "native_configuration \<Rightarrow> string + setter_call list" where
  "producer_builder c = run_setters (producer_setters c)"

definition consumer_setters :: "native_configuration \<Rightarrow> setter list" where
  "consumer_setters c =
     [plain ''bootstrap_servers'' S_strings (cfg_bootstrap_servers c),
      plain ''group_id'' S_string (cfg_group_id c),
      plain ''subscribed_topics'' S_strings (cfg_subscribed_topics c),
      plain ''allowed_events'' S_strings (cfg_allowed_events c),
      plain ''max_uncommitted'' (S_usize \<circ> as_usize) (cfg_max_uncommitted c),
      timed ''stall_threshold'' ''stall_threshold'' (cfg_stall_threshold c),
      timed ''shutdown_timeout'' ''shutdown_timeout'' (cfg_shutdown_timeout c),
      timed ''poll_interval'' ''poll_interval'' (cfg_poll_interval c),
      timed ''commit_interval'' ''commit_interval'' (cfg_commit_interval c),
      timed ''statistics_interval'' ''statistics_interval'' (cfg_statistics_interval c),
      plain ''mock'' S_bool (cfg_mock c),
      probe_step (cfg_probe_port c),
      timed ''slab_size'' ''slab_size'' (cfg_slab_size c)]"

definition consumer_builder :: "native_configuration \<Rightarrow> string + setter_call list" where
  "consumer_builder c = run_setters (consumer_setters c)"

definition cassandra_setters :: "native_configuration \<Rightarrow> setter list" where
  "cassandra_setters c =
     [plain ''nodes'' S_strings (cfg_cassandra_nodes c),
      plain ''keyspace'' S_string (cfg_cassandra_keyspace c),
      plain ''datacenter'' S_some_string (cfg_cassandra_datacenter c),
      plain ''rack'' S_some_string (cfg_cassandra_rack c),
      plain ''user'' S_some_string (cfg_cassandra_user c),
      plain ''password'' S_some_string (cfg_cassandra_password c),
      timed ''retention'' ''cassandra_retention'' (cfg_cassandra_retention c)]"

definition cassandra_builder :: "native_configuration \<Rightarrow> string + setter_call list" where
  "cassandra_builder c = run_setters (cassandra_setters c)"

definition telemetry_setters :: "native_configuration \<Rightarrow> setter list" where
  "telemetry_setters c =
     [plain ''topic'' S_string (cfg_telemetry_topic c),
      plain ''enabled'' S_bool (cfg_telemetry_enabled c)]"

definition telemetry_builder :: "native_configuration \<Rightarrow> string + setter_call list" where
  "telemetry_builder c = run_setters (telemetry_setters c)"

definition retry_setters :: "native_configuration \<Rightarrow> setter list" where
  "retry_setters c =
     [timed ''base'' ''retry_base'' (cfg_retry_base c),
      plain ''max_retries'' S_u32 (cfg_max_retries c),
      timed ''max_delay'' ''max_retry_delay'' (cfg_max_retry_delay c)]"

definition retry_builder :: "native_configuration \<Rightarrow> string + setter_call list" where
  "retry_builder c = run_setters (retry_setters c)"

definition failure_topic_setters :: "native_configuration \<Rightarrow> setter list" where
  "failure_topic_setters c =
     [plain ''failure_topic'' S_string (cfg_failure_topic c)]"

definition failure_topic_builder :: "native_configuration \<Rightarrow> string + setter_call list" where
  "failure_topic_builder c = run_setters (failure_topic_setters c)"

definition scheduler_setters :: "native_configuration \<Rightarrow> setter list" where
  "scheduler_setters c =
     [plain ''max_concurrency'' (S_usize \<circ> as_usize) (cfg_max_concurrency c),
      plain ''failure_weight'' S_float (cfg_scheduler_failure_weight c),
      timed ''max_wait'' ''scheduler_max_wait'' (cfg_scheduler_max_wait c),
      plain ''wait_weight'' S_float (cfg_scheduler_wait_weight c),
      plain ''cache_size'' (S_usize \<circ> as_usize) (cfg_scheduler_cache_size c)]"

definition scheduler_builder :: "native_configuration \<Rightarrow> string + setter_call list" where
  "scheduler_builder c = run_setters (scheduler_setters c)"

definition monopolization_setters :: "native_configuration \<Rightarrow> setter list" where
  "monopolization_setters c =
     [plain ''enabled'' S_bool (cfg_monopolization_enabled c),
      plain ''monopolization_threshold'' S_float (cfg_monopolization_threshold c),
      timed ''window_duration'' ''monopolization_window'' (cfg_monopolization_window c),
      plain ''cache_size'' (S_usize \<circ> as_usize) (cfg_monopolization_cache_size c)]"

definition monopolization_builder :: "native_configuration \<Rightarrow> string + setter_call list" where
  "monopolization_builder c = run_setters (monopolization_setters c)"

definition deferral_setters :: "native_configuration \<Rightarrow> setter list" where
  "deferral_setters c =
     [plain ''enabled'' S_bool (cfg_defer_enabled c),
      timed ''base'' ''defer_base'' (cfg_defer_base c),
      timed ''max_delay'' ''defer_max_delay'' (cfg_defer_max_delay c),
      plain ''failure_threshold'' S_float (cfg_defer_failure_threshold c),
      timed ''failure_window'' ''defer_failure_window'' (cfg_defer_failure_window c),
      plain ''store_cache_size'' (S_usize \<circ> as_usize) (cfg_defer_store_cache_size c)]"

definition defer_builder :: "native_configuration \<Rightarrow> string + setter_call list" where
  "defer_builder c = run_setters (deferral_setters c)"

definition timeout_setters :: "native_configuration \<Rightarrow> setter list" where
  "timeout_setters c =
     [(''timeout'', map_option (\<lambda>v. res_map S_some_duration (seconds ''timeout'' v)) (cfg_timeout c))]"

definition timeout_builder :: "native_configuration \<Rightarrow> string + setter_call list" where
  "timeout_builder c = run_setters (timeout_setters c)"

definition dedup_setters :: "native_configuration \<Rightarrow> setter list" where
  "dedup_setters c =
     [dedup_capacity_step (cfg_idempotence_cache_size c),
      plain ''version'' S_string (cfg_idempotence_version c),
      timed ''ttl'' ''idempotence_ttl'' (cfg_idempotence_ttl c)]"

definition dedup_builder :: "native_configuration \<Rightarrow> string + setter_call list" where
  "dedup_builder c = run_setters (dedup_setters c)"

interpretation producer: setter_conversion producer_builder producer_setters
  by unfold_locales (simp add: producer_builder_def)

interpretation consumer: setter_conversion consumer_builder consumer_setters
  by unfold_locales (simp add: consumer_builder_def)

interpretation cassandra: setter_conversion cassandra_builder cassandra_setters
  by unfold_locales (simp add: cassandra_builder_def)

interpretation telemetry: setter_conversion telemetry_builder telemetry_setters
  by unfold_locales (simp add: telemetry_builder_def)

interpretation retry: setter_conversion retry_builder retry_setters
  by unfold_locales (simp add: retry_builder_def)

interpretation failure_topic: setter_conversion failure_topic_builder failure_topic_setters
  by unfold_locales (simp add: failure_topic_builder_def)

interpretation scheduler: setter_conversion scheduler_builder scheduler_setters
  by unfold_locales (simp add: scheduler_builder_def)

interpretation monopolization: setter_conversion monopolization_builder monopolization_setters
  by unfold_locales (simp add: monopolization_builder_def)

interpretation deferral: setter_conversion defer_builder deferral_setters
  by unfold_locales (simp add: defer_builder_def)

interpretation timeout: setter_conversion timeout_builder timeout_setters
  by unfold_locales (simp add: timeout_builder_def)

interpretation dedup: setter_conversion dedup_builder dedup_setters
  by unfold_locales (simp add: dedup_builder_def)

lemmas setters_defs = producer_setters_def consumer_setters_def cassandra_setters_def telemetry_setters_def retry_setters_def failure_topic_setters_def scheduler_setters_def monopolization_setters_def deferral_setters_def timeout_setters_def dedup_setters_def

text \<open>Every option of these builders that is a duration, with its name.\<close>

definition duration_options :: "native_configuration \<Rightarrow> (string \<times> f64 option) list" where
  "duration_options c =
     [(''send_timeout'', cfg_send_timeout c),
      (''stall_threshold'', cfg_stall_threshold c),
      (''shutdown_timeout'', cfg_shutdown_timeout c),
      (''poll_interval'', cfg_poll_interval c),
      (''commit_interval'', cfg_commit_interval c),
      (''statistics_interval'', cfg_statistics_interval c),
      (''slab_size'', cfg_slab_size c),
      (''cassandra_retention'', cfg_cassandra_retention c),
      (''retry_base'', cfg_retry_base c),
      (''max_retry_delay'', cfg_max_retry_delay c),
      (''scheduler_max_wait'', cfg_scheduler_max_wait c),
      (''monopolization_window'', cfg_monopolization_window c),
      (''defer_base'', cfg_defer_base c),
      (''defer_max_delay'', cfg_defer_max_delay c),
      (''defer_failure_window'', cfg_defer_failure_window c),
      (''timeout'', cfg_timeout c),
      (''idempotence_ttl'', cfg_idempotence_ttl c)]"

lemmas step_oks = step_ok_timed some_duration_ok dedup_capacity_step_ok

text \<open>What each conversion accepts.\<close>

lemma producer_accepts:
  "(\<exists>b. producer_builder c = Inr b) \<longleftrightarrow>
     (\<forall>v\<in>set_option (cfg_send_timeout c). valid_seconds v)"
  by (simp add: producer.accepts_iff producer_setters_def step_oks)

lemma consumer_accepts:
  "(\<exists>b. consumer_builder c = Inr b) \<longleftrightarrow>
     (\<forall>v\<in>set_option (cfg_stall_threshold c). valid_seconds v) \<and>
     (\<forall>v\<in>set_option (cfg_shutdown_timeout c). valid_seconds v) \<and>
     (\<forall>v\<in>set_option (cfg_poll_interval c). valid_seconds v) \<and>
     (\<forall>v\<in>set_option (cfg_commit_interval c). valid_seconds v) \<and>
     (\<forall>v\<in>set_option (cfg_statistics_interval c). valid_seconds v) \<and>
     (\<forall>v\<in>set_option (cfg_slab_size c). valid_seconds v)"
  by (simp add: consumer.accepts_iff consumer_setters_def step_oks)

lemma cassandra_accepts:
  "(\<exists>b. cassandra_builder c = Inr b) \<longleftrightarrow>
     (\<forall>v\<in>set_option (cfg_cassandra_retention c). valid_seconds v)"
  by (simp add: cassandra.accepts_iff cassandra_setters_def step_oks)

lemma telemetry_accepts: "\<exists>b. telemetry_builder c = Inr b"
  by (simp add: telemetry.accepts_iff telemetry_setters_def)

lemma retry_accepts:
  "(\<exists>b. retry_builder c = Inr b) \<longleftrightarrow>
     (\<forall>v\<in>set_option (cfg_retry_base c). valid_seconds v) \<and>
     (\<forall>v\<in>set_option (cfg_max_retry_delay c). valid_seconds v)"
  by (simp add: retry.accepts_iff retry_setters_def step_oks)

lemma failure_topic_accepts: "\<exists>b. failure_topic_builder c = Inr b"
  by (simp add: failure_topic.accepts_iff failure_topic_setters_def)

lemma scheduler_accepts:
  "(\<exists>b. scheduler_builder c = Inr b) \<longleftrightarrow>
     (\<forall>v\<in>set_option (cfg_scheduler_max_wait c). valid_seconds v)"
  by (simp add: scheduler.accepts_iff scheduler_setters_def step_oks)

lemma monopolization_accepts:
  "(\<exists>b. monopolization_builder c = Inr b) \<longleftrightarrow>
     (\<forall>v\<in>set_option (cfg_monopolization_window c). valid_seconds v)"
  by (simp add: monopolization.accepts_iff monopolization_setters_def step_oks)

lemma deferral_accepts:
  "(\<exists>b. defer_builder c = Inr b) \<longleftrightarrow>
     (\<forall>v\<in>set_option (cfg_defer_base c). valid_seconds v) \<and>
     (\<forall>v\<in>set_option (cfg_defer_max_delay c). valid_seconds v) \<and>
     (\<forall>v\<in>set_option (cfg_defer_failure_window c). valid_seconds v)"
  by (simp add: deferral.accepts_iff deferral_setters_def step_oks)

lemma timeout_accepts:
  "(\<exists>b. timeout_builder c = Inr b) \<longleftrightarrow>
     (\<forall>v\<in>set_option (cfg_timeout c). valid_seconds v)"
  by (simp add: timeout.accepts_iff timeout_setters_def step_oks)

lemma dedup_accepts:
  "(\<exists>b. dedup_builder c = Inr b) \<longleftrightarrow>
     cfg_idempotence_cache_size c \<noteq> Some 0 \<and>
     (\<forall>v\<in>set_option (cfg_idempotence_ttl c). valid_seconds v)"
  by (simp add: dedup.accepts_iff dedup_setters_def step_oks)

end
