(* ===== verification/Config_State.thy ===== *)
theory Config_State
  imports Config_Builders
begin

text \<open>
  client/config/state.rs and the rest of client/config/mod.rs: the declared state collections
  and their registration, the read-cache policy, the keyed-state and peer configurations, the
  processing mode, and \<open>ConsumerBuilders\<close>, which puts all conversions together.

  Parsers and \<open>build\<close> methods of the core are the record \<open>config_lib\<close>; their results are
  opaque.
\<close>

record config_lib =
  lib_parse_span :: "string \<Rightarrow> string + nat"
  lib_parse_byte_size :: "string \<Rightarrow> string + nat"
  lib_subsystem :: "string \<Rightarrow> string + nat"
  lib_socket_addr :: "string \<Rightarrow> string + nat"
  lib_peer_endpoint :: "string \<Rightarrow> string + nat"
  lib_build_loader :: "setter_call list \<Rightarrow> string + nat"
  lib_build_telemetry :: "setter_call list \<Rightarrow> string + nat"
  lib_build_keyed :: "setter_call list \<Rightarrow> string + nat"
  lib_build_peer :: "setter_call list \<Rightarrow> string + nat"

subsection \<open>Collections\<close>

datatype collection_kind = Value_kind | Map_kind | Set_kind | Deque_kind

datatype collection_payload = Json | Message

definition at_collection :: "nat \<Rightarrow> string \<Rightarrow> string" where
  "at_collection index rest = ''state_collections['' @ show_nat index @ ''].'' @ rest"

definition parse_kind :: "nat \<Rightarrow> string \<Rightarrow> string + collection_kind" where
  "parse_kind index kind =
     (if kind = ''value'' then Inr Value_kind
      else if kind = ''map'' then Inr Map_kind
      else if kind = ''set'' then Inr Set_kind
      else if kind = ''deque'' then Inr Deque_kind
      else Inl (at_collection index (''kind: expected '' @ debug_str ''value'' @ '', '' @ debug_str ''map'' @
        '', '' @ debug_str ''set'' @ '', or '' @ debug_str ''deque'' @ '', got '' @ debug_str kind)))"

definition parse_payload :: "nat \<Rightarrow> string \<Rightarrow> string + collection_payload" where
  "parse_payload index payload =
     (if payload = ''json'' then Inr Json
      else if payload = ''message'' then Inr Message
      else Inl (at_collection index (''payload: expected '' @ debug_str ''json'' @ '' or '' @
        debug_str ''message'' @ '', got '' @ debug_str payload)))"

text \<open>A descriptor: its constructor, name, and the calls that refine it.\<close>

datatype descriptor_kind =
    Value_state | Map_state | Deque_state | Set_state
  | Message_state | Message_map_state | Message_deque_state

datatype descriptor_call =
    D_ttl u32
  | D_read_uncommitted
  | D_published bool
  | D_keyset_limit usize
  | D_capacity usize

record descriptor =
  desc_kind :: descriptor_kind
  desc_name :: string
  desc_calls :: "descriptor_call list"

definition opt_list :: "('a \<Rightarrow> 'b) \<Rightarrow> 'a option \<Rightarrow> 'b list" where
  "opt_list f x = (case x of None \<Rightarrow> [] | Some v \<Rightarrow> [f v])"

definition with_def :: "descriptor \<Rightarrow> state_collection_config \<Rightarrow> descriptor" where
  "with_def d col = d\<lparr>desc_calls := desc_calls d @ opt_list D_ttl (col_ttl_seconds col) @
     (if col_read_uncommitted col = Some True then [D_read_uncommitted] else []) @
     opt_list D_published (col_published col)\<rparr>"

definition desc_call :: "('a \<Rightarrow> descriptor_call) \<Rightarrow> 'a option \<Rightarrow> descriptor \<Rightarrow> descriptor" where
  "desc_call f x d = d\<lparr>desc_calls := desc_calls d @ opt_list f x\<rparr>"

definition keyset_limit ::
  "usize option \<Rightarrow> collection_kind \<Rightarrow> nat \<Rightarrow> string + usize option"
where
  "keyset_limit v kind index =
     (if v \<noteq> None \<and> \<not> (kind = Map_kind \<or> kind = Set_kind)
      then Inl (at_collection index ''keyset_limit: only valid for map and set collections'')
      else Inr v)"

definition capacity :: "usize option \<Rightarrow> collection_kind \<Rightarrow> nat \<Rightarrow> string + usize option" where
  "capacity v kind index =
     (if v \<noteq> None \<and> kind \<noteq> Deque_kind
      then Inl (at_collection index ''capacity: only valid for deque collections'')
      else Inr v)"

record keyed_state =
  ks_base :: nat \<comment> \<open>what the builder built\<close>
  ks_registered :: "descriptor list" \<comment> \<open>in the order of registration\<close>

definition register :: "descriptor \<Rightarrow> keyed_state \<Rightarrow> keyed_state" where
  "register d ks = ks\<lparr>ks_registered := ks_registered ks @ [d]\<rparr>"

definition register_state_collection ::
  "keyed_state \<Rightarrow> nat \<Rightarrow> state_collection_config \<Rightarrow> string + keyed_state"
where
  "register_state_collection keyed index col =
     res_bind (parse_kind index (col_kind col)) (\<lambda>kind.
     res_bind (opt_traverse (parse_payload index) (col_payload col)) (\<lambda>payload.
     res_bind (keyset_limit (col_keyset_limit col) kind index) (\<lambda>keyset_limit.
     res_bind (capacity (col_capacity col) kind index) (\<lambda>capacity.
       let state = (\<lambda>k. with_def \<lparr>desc_kind = k, desc_name = col_name col, desc_calls = []\<rparr> col) in
       case (kind, payload) of
         (Value_kind, Some Json) \<Rightarrow> Inr (register (state Value_state) keyed)
       | (Map_kind, Some Json) \<Rightarrow> Inr (register (desc_call D_keyset_limit keyset_limit (state Map_state)) keyed)
       | (Deque_kind, Some Json) \<Rightarrow> Inr (register (desc_call D_capacity capacity (state Deque_state)) keyed)
       | (Value_kind, Some Message) \<Rightarrow> Inr (register (state Message_state) keyed)
       | (Map_kind, Some Message) \<Rightarrow>
           Inr (register (desc_call D_keyset_limit keyset_limit (state Message_map_state)) keyed)
       | (Deque_kind, Some Message) \<Rightarrow>
           Inr (register (desc_call D_capacity capacity (state Message_deque_state)) keyed)
       | (Set_kind, None) \<Rightarrow> Inr (register (desc_call D_keyset_limit keyset_limit (state Set_state)) keyed)
       | (Set_kind, Some _) \<Rightarrow> Inl (at_collection index ''payload: omit it for a set collection'')
       | (_, None) \<Rightarrow>
           Inl (at_collection index ''payload: required for value, map, and deque collections'')))))"

fun register_all :: "keyed_state \<Rightarrow> nat \<Rightarrow> state_collection_config list \<Rightarrow> string + keyed_state" where
  "register_all keyed index [] = Inr keyed"
| "register_all keyed index (col # cols) =
     res_bind (register_state_collection keyed index col) (\<lambda>keyed. register_all keyed (Suc index) cols)"

subsection \<open>Caches and keyed state\<close>

datatype read_cache_policy = Inherit | Policy_disabled | Policy_ttl duration

fun read_cache_policy_of :: "string \<Rightarrow> read_cache_config option \<Rightarrow> string + read_cache_policy" where
  "read_cache_policy_of option None = Inr Inherit"
| "read_cache_policy_of option (Some (Cache_disabled disabled)) =
     (if disabled then Inl (option @ '': true is ambiguous; use a duration or false'')
      else Inr Policy_disabled)"
| "read_cache_policy_of option (Some (Cache_ttl v)) = res_map Policy_ttl (seconds option v)"

definition byte_size :: "config_lib \<Rightarrow> string \<Rightarrow> string \<Rightarrow> string option \<Rightarrow> setter" where
  "byte_size lib name option x = (name,
     map_option (\<lambda>size. map_err (\<lambda>e. option @ '': '' @ e) (res_map S_some_opaque (lib_parse_byte_size lib size))) x)"

definition read_cache_step :: "read_cache_config option \<Rightarrow> setter" where
  "read_cache_step x = (''read_cache_ttl'',
     (case read_cache_policy_of ''state_read_cache'' x of
        Inl e \<Rightarrow> Some (Inl e)
      | Inr Inherit \<Rightarrow> None
      | Inr Policy_disabled \<Rightarrow> Some (Inr S_none)
      | Inr (Policy_ttl ttl) \<Rightarrow> Some (Inr (S_some_duration ttl))))"

definition keyed_setters :: "config_lib \<Rightarrow> native_configuration \<Rightarrow> setter list" where
  "keyed_setters lib c =
     [plain ''cache_dir'' S_string (cfg_state_cache_dir c),
      byte_size lib ''owned_cache_size'' ''state_owned_cache_size'' (cfg_state_owned_cache_size c),
      byte_size lib ''memtable_size'' ''state_memtable_size'' (cfg_state_memtable_size c),
      byte_size lib ''read_cache_size'' ''state_read_cache_size'' (cfg_state_read_cache_size c),
      read_cache_step (cfg_state_read_cache c),
      (''subsystem'', map_option (\<lambda>s. res_map S_some_opaque (lib_subsystem lib s)) (cfg_subsystem c))]"

definition build_keyed_state_config :: "config_lib \<Rightarrow> native_configuration \<Rightarrow> string + keyed_state" where
  "build_keyed_state_config lib c =
     res_bind (run_setters (keyed_setters lib c)) (\<lambda>calls.
     res_bind (lib_build_keyed lib calls) (\<lambda>base.
       let keyed = \<lparr>ks_base = base, ks_registered = []\<rparr> in
       case cfg_state_collections c of
         None \<Rightarrow> Inr keyed
       | Some cols \<Rightarrow> register_all keyed 0 cols))"

subsection \<open>Peers, mode, and all of it\<close>

definition peer_setters :: "config_lib \<Rightarrow> native_configuration \<Rightarrow> setter list" where
  "peer_setters lib c =
     [(''bind_address'', map_option (\<lambda>v. map_err (\<lambda>e. ''peer_bind_address: '' @ e)
         (res_map S_opaque (lib_socket_addr lib v))) (cfg_peer_bind_address c)),
      (''advertised_connect'', map_option (\<lambda>v. map_err (\<lambda>e. ''peer_advertised_connect: '' @ e)
         (res_map S_opaque (lib_peer_endpoint lib v))) (cfg_peer_advertised_connect c)),
      plain ''network_name'' S_string (cfg_peer_network_name c),
      plain ''peer_cache_capacity'' S_usize (cfg_peer_cache_capacity c),
      timed ''registration_ttl'' ''peer_registration_ttl'' (cfg_peer_registration_ttl c)]"

definition build_peer_config :: "config_lib \<Rightarrow> native_configuration \<Rightarrow> string + nat" where
  "build_peer_config lib c = res_bind (run_setters (peer_setters lib c)) (lib_build_peer lib)"

datatype mode = Pipeline | Low_latency | Best_effort

definition mode_of :: "mode \<Rightarrow> native_configuration \<Rightarrow> string + mode" where
  "mode_of unset c =
     (case cfg_mode c of
        None \<Rightarrow> Inr unset
      | Some s \<Rightarrow>
          if s = ''pipeline'' then Inr Pipeline
          else if s = ''low_latency'' then Inr Low_latency
          else if s = ''best_effort'' then Inr Best_effort
          else Inl (''unrecognized mode: '' @ s))"

definition telemetry_config :: "config_lib \<Rightarrow> native_configuration \<Rightarrow> string + nat" where
  "telemetry_config lib c = res_bind (telemetry_builder c) (lib_build_telemetry lib)"

text \<open>The consumer settings that \<open>ConsumerBuilders\<close> adds to the consumer's own.\<close>

definition loader_setters :: "native_configuration \<Rightarrow> setter list" where
  "loader_setters c =
     [plain ''cache_size'' (S_usize \<circ> as_usize) (cfg_loader_cache_size c),
      timed ''seek_timeout'' ''loader_seek_timeout'' (cfg_loader_seek_timeout c),
      plain ''discard_threshold'' S_i64 (cfg_loader_discard_threshold c)]"

definition span_step :: "config_lib \<Rightarrow> string \<Rightarrow> string option \<Rightarrow> setter" where
  "span_step lib name x = (name,
     map_option (\<lambda>s. map_err (\<lambda>e. name @ '': '' @ e) (res_map S_opaque (lib_parse_span lib s))) x)"

definition loader_step :: "config_lib \<Rightarrow> native_configuration \<Rightarrow> setter" where
  "loader_step lib c = (''loader'',
     (if cfg_loader_cache_size c \<noteq> None \<or> cfg_loader_seek_timeout c \<noteq> None \<or>
         cfg_loader_discard_threshold c \<noteq> None
      then Some (res_bind (run_setters (loader_setters c)) (\<lambda>calls. res_map S_opaque (lib_build_loader lib calls)))
      else None))"

definition shared_consumer_setters :: "config_lib \<Rightarrow> native_configuration \<Rightarrow> setter list" where
  "shared_consumer_setters lib c =
     [span_step lib ''message_spans'' (cfg_message_spans c),
      span_step lib ''timer_spans'' (cfg_timer_spans c),
      loader_step lib c]"

record consumer_builders =
  cb_consumer :: "setter_call list"
  cb_retry :: "setter_call list"
  cb_failure_topic :: "setter_call list"
  cb_scheduler :: "setter_call list"
  cb_monopolization :: "setter_call list"
  cb_defer :: "setter_call list"
  cb_timeout :: "setter_call list"
  cb_dedup :: "setter_call list"
  cb_emitter :: nat
  cb_keyed_state :: keyed_state
  cb_peer :: nat

definition consumer_builders_of :: "config_lib \<Rightarrow> native_configuration \<Rightarrow> string + consumer_builders" where
  "consumer_builders_of lib c =
     res_bind (consumer_builder c) (\<lambda>consumer.
     res_bind (run_setters (shared_consumer_setters lib c)) (\<lambda>shared.
     res_bind (retry_builder c) (\<lambda>retry.
     res_bind (failure_topic_builder c) (\<lambda>failure_topic.
     res_bind (scheduler_builder c) (\<lambda>scheduler.
     res_bind (monopolization_builder c) (\<lambda>monopolization.
     res_bind (defer_builder c) (\<lambda>defer'.
     res_bind (timeout_builder c) (\<lambda>timeout.
     res_bind (dedup_builder c) (\<lambda>dedup.
     res_bind (telemetry_config lib c) (\<lambda>emitter.
     res_bind (build_keyed_state_config lib c) (\<lambda>keyed_state.
     res_bind (build_peer_config lib c) (\<lambda>peer.
       Inr \<lparr>cb_consumer = consumer @ shared, cb_retry = retry, cb_failure_topic = failure_topic,
            cb_scheduler = scheduler, cb_monopolization = monopolization, cb_defer = defer',
            cb_timeout = timeout, cb_dedup = dedup, cb_emitter = emitter,
            cb_keyed_state = keyed_state, cb_peer = peer\<rparr>))))))))))))"

end
