(* ===== verification/Config_Props.thy ===== *)
theory Config_Props
  imports Config_State
begin

text \<open>
  What the configuration conversions accept and produce: the state collections, their order
  and their errors, the whole of \<open>ConsumerBuilders\<close>, and the configuration nobody touched.
\<close>

subsection \<open>Collections\<close>

text \<open>The documented combinations of a collection's options, without the order of the checks.\<close>

definition collection_valid :: "state_collection_config \<Rightarrow> bool" where
  "collection_valid col \<longleftrightarrow>
     (col_kind col \<in> {''value'', ''map'', ''deque''} \<and> col_payload col \<in> {Some ''json'', Some ''message''} \<or>
      col_kind col = ''set'' \<and> col_payload col = None) \<and>
     (col_keyset_limit col = None \<or> col_kind col \<in> {''map'', ''set''}) \<and>
     (col_capacity col = None \<or> col_kind col = ''deque'')"

definition collection_descriptor :: "state_collection_config \<Rightarrow> descriptor" where
  "collection_descriptor col =
     \<lparr>desc_kind =
        (if col_kind col = ''value'' then if col_payload col = Some ''json'' then Value_state else Message_state
         else if col_kind col = ''map'' then if col_payload col = Some ''json'' then Map_state else Message_map_state
         else if col_kind col = ''deque'' then
           if col_payload col = Some ''json'' then Deque_state else Message_deque_state
         else Set_state),
      desc_name = col_name col,
      desc_calls = opt_list D_ttl (col_ttl_seconds col) @
        (if col_read_uncommitted col = Some True then [D_read_uncommitted] else []) @
        opt_list D_published (col_published col) @ opt_list D_keyset_limit (col_keyset_limit col) @
        opt_list D_capacity (col_capacity col)\<rparr>"

lemma opt_list_None [simp]: "opt_list f None = []"
  by (simp add: opt_list_def)

lemma parse_payload_Inr_iff:
  "opt_traverse (parse_payload i) p = Inr q \<longleftrightarrow>
     p = None \<and> q = None \<or> p = Some ''json'' \<and> q = Some Json \<or> p = Some ''message'' \<and> q = Some Message"
  by (cases p) (auto simp: parse_payload_def res_map_eq_Inr_iff)

lemma parse_payload_error:
  "opt_traverse (parse_payload i) p = Inl e \<Longrightarrow>
     (\<exists>rest. e = at_collection i rest) \<and> p \<noteq> None \<and> p \<noteq> Some ''json'' \<and> p \<noteq> Some ''message''"
  by (cases p) (auto simp: parse_payload_def split: if_splits)

lemma parse_kind_cases:
  obtains (kv) "k = ''value''" "parse_kind i k = Inr Value_kind"
    | (km) "k = ''map''" "parse_kind i k = Inr Map_kind"
    | (ks) "k = ''set''" "parse_kind i k = Inr Set_kind"
    | (kd) "k = ''deque''" "parse_kind i k = Inr Deque_kind"
    | (bad) rest where "k \<notin> {''value'', ''map'', ''set'', ''deque''}" "parse_kind i k = Inl (at_collection i rest)"
  by (cases "k = ''value''"; cases "k = ''map''"; cases "k = ''set''"; cases "k = ''deque''")
     (auto simp: parse_kind_def)

lemma payload_cases:
  obtains (none) "p = None" "opt_traverse (parse_payload i) p = Inr None"
    | (json) "p = Some ''json''" "opt_traverse (parse_payload i) p = Inr (Some Json)"
    | (message) "p = Some ''message''" "opt_traverse (parse_payload i) p = Inr (Some Message)"
    | (bad) rest where "p \<notin> {None, Some ''json'', Some ''message''}"
        "opt_traverse (parse_payload i) p = Inl (at_collection i rest)"
  by (cases "opt_traverse (parse_payload i) p")
     (auto dest: parse_payload_error simp: parse_payload_Inr_iff parse_payload_def)

text \<open>One collection: registered as its descriptor, or refused with an error that has its index.\<close>

lemma register_valid:
  assumes "collection_valid col"
  shows "register_state_collection keyed i col = Inr (register (collection_descriptor col) keyed)"
  by (rule parse_kind_cases [of "col_kind col" i]; rule payload_cases [of "col_payload col" i])
     (use assms in \<open>auto simp: register_state_collection_def keyset_limit_def capacity_def Let_def
       collection_valid_def collection_descriptor_def desc_call_def with_def_def\<close>)

lemma register_invalid:
  assumes "\<not> collection_valid col"
  shows "\<exists>rest. register_state_collection keyed i col = Inl (at_collection i rest)"
  by (rule parse_kind_cases [of "col_kind col" i]; rule payload_cases [of "col_payload col" i])
     (use assms in \<open>auto simp: register_state_collection_def keyset_limit_def capacity_def Let_def
       collection_valid_def\<close>)

lemma register_all_valid:
  "list_all collection_valid cols \<Longrightarrow>
     register_all keyed i cols = Inr (keyed\<lparr>ks_registered := ks_registered keyed @ map collection_descriptor cols\<rparr>)"
  by (induction cols arbitrary: keyed i) (simp_all add: register_valid register_def)

lemma register_all_invalid:
  "register_all keyed i cols = Inl e \<Longrightarrow>
     \<exists>pre col post. cols = pre @ col # post \<and> list_all collection_valid pre \<and> \<not> collection_valid col \<and>
       (\<exists>rest. e = at_collection (i + length pre) rest)"
proof (induction cols arbitrary: keyed i)
  case Nil
  then show ?case by simp
next
  case (Cons col cols)
  show ?case
  proof (cases "collection_valid col")
    case True
    with Cons.prems have "register_all (register (collection_descriptor col) keyed) (Suc i) cols = Inl e"
      by (simp add: register_valid)
    from Cons.IH [OF this] obtain pre c post rest where
      "cols = pre @ c # post" "list_all collection_valid pre" "\<not> collection_valid c"
      "e = at_collection (Suc i + length pre) rest" by blast
    with True have "col # cols = (col # pre) @ c # post \<and> list_all collection_valid (col # pre) \<and>
        \<not> collection_valid c \<and> (\<exists>rest. e = at_collection (i + length (col # pre)) rest)" by auto
    then show ?thesis by blast
  next
    case False
    with Cons.prems register_invalid [OF False, of keyed i]
    have "col # cols = [] @ col # cols \<and> list_all collection_valid [] \<and> \<not> collection_valid col \<and>
        (\<exists>rest. e = at_collection (i + length []) rest)" by auto
    then show ?thesis by blast
  qed
qed

lemma register_all_iff: "(\<exists>k. register_all keyed i cols = Inr k) \<longleftrightarrow> list_all collection_valid cols"
proof (cases "list_all collection_valid cols")
  case True
  then show ?thesis by (simp add: register_all_valid)
next
  case False
  then have "register_all keyed i cols \<noteq> Inr k" for k
  proof (induction cols arbitrary: keyed i)
    case (Cons col cols)
    then show ?case
      using register_invalid [of col keyed i] register_valid [of col keyed i]
      by (cases "collection_valid col") auto
  qed simp
  with False show ?thesis by auto
qed

subsection \<open>The whole configuration\<close>

definition option_valid :: "f64 option \<Rightarrow> bool" where
  "option_valid x = (case x of None \<Rightarrow> True | Some v \<Rightarrow> valid_seconds v)"

lemma option_valid_iff: "(\<forall>v\<in>set_option x. valid_seconds v) \<longleftrightarrow> option_valid x"
  by (cases x) (simp_all add: option_valid_def)

definition read_cache_valid :: "read_cache_config option \<Rightarrow> bool" where
  "read_cache_valid x = (case x of
     None \<Rightarrow> True | Some (Cache_disabled b) \<Rightarrow> \<not> b | Some (Cache_ttl v) \<Rightarrow> valid_seconds v)"

text \<open>A core none of whose parsers and \<open>build\<close> methods refuses anything.\<close>

definition permissive :: "config_lib \<Rightarrow> bool" where
  "permissive lib \<longleftrightarrow>
     (\<forall>s. lib_parse_span lib s \<in> range Inr \<and> lib_parse_byte_size lib s \<in> range Inr \<and>
        lib_subsystem lib s \<in> range Inr \<and> lib_socket_addr lib s \<in> range Inr \<and>
        lib_peer_endpoint lib s \<in> range Inr) \<and>
     (\<forall>b. lib_build_loader lib b \<in> range Inr \<and> lib_build_telemetry lib b \<in> range Inr \<and>
        lib_build_keyed lib b \<in> range Inr \<and> lib_build_peer lib b \<in> range Inr)"

lemma permissiveD:
  assumes "permissive lib"
  shows "\<exists>n. lib_parse_span lib s = Inr n" "\<exists>n. lib_parse_byte_size lib s = Inr n"
    "\<exists>n. lib_subsystem lib s = Inr n" "\<exists>n. lib_socket_addr lib s = Inr n"
    "\<exists>n. lib_peer_endpoint lib s = Inr n" "\<exists>n. lib_build_loader lib b = Inr n"
    "\<exists>n. lib_build_telemetry lib b = Inr n" "\<exists>n. lib_build_keyed lib b = Inr n"
    "\<exists>n. lib_build_peer lib b = Inr n"
  using assms unfolding permissive_def by blast+

text \<open>A step through a parser of the core can only fail in that parser.\<close>

lemma parsed_step_ok:
  "(\<And>v. \<exists>n. f v = Inr n) \<Longrightarrow> step_ok (name, map_option (\<lambda>v. map_err g (res_map h (f v))) x)"
proof (cases x)
  case (Some v)
  moreover assume "\<And>v. \<exists>n. f v = Inr n"
  then obtain n where "f v = Inr n" by blast
  ultimately show ?thesis by simp
qed simp

lemma parsed_step_ok': "(\<And>v. \<exists>n. f v = Inr n) \<Longrightarrow> step_ok (name, map_option (\<lambda>v. res_map h (f v)) x)"
  using parsed_step_ok [of f name "\<lambda>e. e" h x] by (cases x) (auto simp: map_err_def split: sum.splits)

lemma read_cache_step_ok: "step_ok (read_cache_step x) \<longleftrightarrow> read_cache_valid x"
proof (cases x)
  case (Some y)
  then show ?thesis
  proof (cases y)
    case (Cache_ttl v)
    with Some show ?thesis
      using seconds_total [of v "''state_read_cache''"] seconds_Inl_iff [of "''state_read_cache''" v]
      by (cases "seconds ''state_read_cache'' v")
         (auto simp: read_cache_step_def read_cache_valid_def step_ok_def)
  qed (simp add: read_cache_step_def read_cache_valid_def step_ok_def)
qed (simp add: read_cache_step_def read_cache_valid_def)

lemma setters_accept: "(\<exists>calls. run_setters steps = Inr calls) \<longleftrightarrow> (\<forall>st\<in>set steps. step_ok st)"
  by (simp add: run_setters_Inr_iff)

lemma loader_step_ok:
  assumes "permissive lib"
  shows "step_ok (loader_step lib c) \<longleftrightarrow> option_valid (cfg_loader_seek_timeout c)"
proof -
  have "(\<exists>calls. run_setters (loader_setters c) = Inr calls) \<longleftrightarrow> option_valid (cfg_loader_seek_timeout c)"
    by (simp add: setters_accept loader_setters_def step_ok_timed option_valid_iff)
  moreover have "\<exists>n. lib_build_loader lib b = Inr n" for b by (rule permissiveD) (rule assms)
  ultimately show ?thesis
    by (cases "run_setters (loader_setters c)"; cases "cfg_loader_seek_timeout c")
       (auto simp: loader_step_def step_ok_def option_valid_def, (metis sum.distinct(1) res_map_simps(2))+)
qed

lemma keyed_accepts:
  assumes "permissive lib"
  shows "(\<exists>k. build_keyed_state_config lib c = Inr k) \<longleftrightarrow>
    read_cache_valid (cfg_state_read_cache c) \<and>
    (case cfg_state_collections c of None \<Rightarrow> True | Some cols \<Rightarrow> list_all collection_valid cols)"
proof -
  have "(\<exists>calls. run_setters (keyed_setters lib c) = Inr calls) \<longleftrightarrow> read_cache_valid (cfg_state_read_cache c)"
    by (simp add: setters_accept keyed_setters_def read_cache_step_ok byte_size_def parsed_step_ok
        parsed_step_ok' permissiveD [OF assms])
  moreover have "\<exists>n. lib_build_keyed lib b = Inr n" for b by (rule permissiveD) (rule assms)
  ultimately show ?thesis
    using register_all_iff
    by (auto simp: build_keyed_state_config_def res_bind_eq_Inr_iff Let_def split: option.splits)
       (metis)+
qed

lemma peer_accepts:
  assumes "permissive lib"
  shows "(\<exists>p. build_peer_config lib c = Inr p) \<longleftrightarrow> option_valid (cfg_peer_registration_ttl c)"
proof -
  have "(\<exists>calls. run_setters (peer_setters lib c) = Inr calls) \<longleftrightarrow> option_valid (cfg_peer_registration_ttl c)"
    by (simp add: setters_accept peer_setters_def step_ok_timed option_valid_iff parsed_step_ok
        permissiveD [OF assms])
  moreover have "\<exists>n. lib_build_peer lib b = Inr n" for b by (rule permissiveD) (rule assms)
  ultimately show ?thesis by (auto simp: build_peer_config_def res_bind_eq_Inr_iff)
qed

lemma emitter_accepts: "permissive lib \<Longrightarrow> \<exists>t. telemetry_config lib c = Inr t"
  using telemetry_accepts [of c] permissiveD(7) [of lib]
  by (auto simp: telemetry_config_def res_bind_eq_Inr_iff)

lemma shared_accepts:
  assumes "permissive lib"
  shows "(\<exists>b. run_setters (shared_consumer_setters lib c) = Inr b) \<longleftrightarrow> option_valid (cfg_loader_seek_timeout c)"
  by (simp add: setters_accept shared_consumer_setters_def span_step_def parsed_step_ok
      permissiveD [OF assms] loader_step_ok [OF assms])

lemma res_bind_accepts: "(\<exists>b. res_bind r f = Inr b) \<longleftrightarrow> (\<exists>x. r = Inr x \<and> (\<exists>b. f x = Inr b))"
  by (auto simp: res_bind_eq_Inr_iff)

lemma accept_all:
  "(\<exists>b. consumer_builders_of lib c = Inr b) \<longleftrightarrow>
     (\<exists>b. consumer_builder c = Inr b) \<and> (\<exists>b. run_setters (shared_consumer_setters lib c) = Inr b) \<and>
     (\<exists>b. retry_builder c = Inr b) \<and> (\<exists>b. failure_topic_builder c = Inr b) \<and>
     (\<exists>b. scheduler_builder c = Inr b) \<and> (\<exists>b. monopolization_builder c = Inr b) \<and>
     (\<exists>b. defer_builder c = Inr b) \<and> (\<exists>b. timeout_builder c = Inr b) \<and>
     (\<exists>b. dedup_builder c = Inr b) \<and> (\<exists>b. telemetry_config lib c = Inr b) \<and>
     (\<exists>b. build_keyed_state_config lib c = Inr b) \<and> (\<exists>b. build_peer_config lib c = Inr b)"
  by (simp add: consumer_builders_of_def res_bind_accepts)

lemma builders_accept:
  assumes "permissive lib"
  shows "(\<exists>b. consumer_builders_of lib c = Inr b) \<longleftrightarrow>
    list_all option_valid
      [cfg_stall_threshold c, cfg_shutdown_timeout c, cfg_poll_interval c, cfg_commit_interval c,
       cfg_statistics_interval c, cfg_slab_size c, cfg_loader_seek_timeout c, cfg_retry_base c,
       cfg_max_retry_delay c, cfg_scheduler_max_wait c, cfg_monopolization_window c, cfg_defer_base c,
       cfg_defer_max_delay c, cfg_defer_failure_window c, cfg_timeout c, cfg_idempotence_ttl c,
       cfg_peer_registration_ttl c] \<and>
    cfg_idempotence_cache_size c \<noteq> Some 0 \<and> read_cache_valid (cfg_state_read_cache c) \<and>
    (case cfg_state_collections c of None \<Rightarrow> True | Some cols \<Rightarrow> list_all collection_valid cols)"
  by (simp only: accept_all consumer_accepts retry_accepts failure_topic_accepts scheduler_accepts
      monopolization_accepts deferral_accepts timeout_accepts dedup_accepts shared_accepts [OF assms]
      emitter_accepts [OF assms] keyed_accepts [OF assms] peer_accepts [OF assms] option_valid_iff
      list.pred_inject) blast

definition permissive_lib :: config_lib where
  "permissive_lib = \<lparr>lib_parse_span = (\<lambda>_. Inr 0), lib_parse_byte_size = (\<lambda>_. Inr 0),
     lib_subsystem = (\<lambda>_. Inr 0), lib_socket_addr = (\<lambda>_. Inr 0), lib_peer_endpoint = (\<lambda>_. Inr 0),
     lib_build_loader = (\<lambda>_. Inr 0), lib_build_telemetry = (\<lambda>_. Inr 0),
     lib_build_keyed = (\<lambda>_. Inr 0), lib_build_peer = (\<lambda>_. Inr 0)\<rparr>"

lemma permissive_lib [simp]: "permissive permissive_lib"
  by (simp add: permissive_def permissive_lib_def)

lemma accept_default: "\<exists>b. consumer_builders_of permissive_lib default_configuration = Inr b"
  unfolding accept_all consumer_accepts retry_accepts scheduler_accepts monopolization_accepts
    deferral_accepts timeout_accepts dedup_accepts shared_accepts [OF permissive_lib]
    keyed_accepts [OF permissive_lib] peer_accepts [OF permissive_lib]
  using emitter_accepts [OF permissive_lib] failure_topic_accepts
  by (simp add: default_configuration_def option_valid_def read_cache_valid_def)

definition sample_collection :: state_collection_config where
  "sample_collection = \<lparr>col_name = ''seen'', col_kind = ''set'', col_payload = Some ''json'',
     col_ttl_seconds = None, col_read_uncommitted = None, col_published = None,
     col_keyset_limit = None, col_capacity = None\<rparr>"

lemma sample_collection_invalid: "\<not> collection_valid sample_collection"
  by (simp add: collection_valid_def sample_collection_def)

subsection \<open>Properties\<close>

text \<open>
  Declared collections: all are registered, in the order declared and as the descriptors
  their options describe, exactly when each has one of the documented combinations of kind,
  payload, keyset limit and capacity; otherwise nothing is returned.
\<close>

theorem collections_registered_iff:
  "register_all keyed i cols = Inr k \<longleftrightarrow>
     list_all collection_valid cols \<and>
     k = keyed\<lparr>ks_registered := ks_registered keyed @ map collection_descriptor cols\<rparr>"
  using register_all_iff [of keyed i cols] register_all_valid [of cols keyed i] by auto

text \<open>
  The error for bad collections is about the first bad one: its text starts with
  \<open>state_collections[i].\<close> for the position of that collection.
\<close>

theorem collection_error_index:
  assumes "register_all keyed 0 cols = Inl e"
  shows "\<exists>i < length cols. \<not> collection_valid (cols ! i) \<and> list_all collection_valid (take i cols) \<and>
    (\<exists>rest. e = ''state_collections['' @ show_nat i @ ''].'' @ rest)"
proof -
  obtain pre col post rest where c: "cols = pre @ col # post" "list_all collection_valid pre"
      "\<not> collection_valid col" "e = at_collection (0 + length pre) rest"
    using register_all_invalid [OF assms] by blast
  then show ?thesis
    by (intro exI [of _ "length pre"]) (auto simp: nth_append at_collection_def)
qed

theorem collection_error_index_witness:
  "\<exists>e rest. register_all \<lparr>ks_base = 0, ks_registered = []\<rparr> 0 [sample_collection] = Inl e \<and>
     e = ''state_collections['' @ show_nat 0 @ ''].'' @ rest"
proof -
  obtain e where e: "register_all \<lparr>ks_base = 0, ks_registered = []\<rparr> 0 [sample_collection] = Inl e"
    using register_invalid [OF sample_collection_invalid, of "\<lparr>ks_base = 0, ks_registered = []\<rparr>" 0] by auto
  from collection_error_index [OF e] obtain rest where
    "e = ''state_collections['' @ show_nat 0 @ ''].'' @ rest" by auto
  with e show ?thesis by blast
qed

text \<open>
  Which configurations are accepted, as far as the extension itself decides (with a core
  that refuses nothing): every duration is a finite, non-negative number of seconds that fits
  64 bits, the idempotence cache is not empty, the read cache is not \<open>true\<close>, and every
  collection is valid. No other option can make the conversion fail.
\<close>

theorem configuration_accepted_iff:
  assumes "permissive lib"
  shows "(\<exists>b. consumer_builders_of lib c = Inr b) \<longleftrightarrow>
    list_all option_valid
      [cfg_stall_threshold c, cfg_shutdown_timeout c, cfg_poll_interval c, cfg_commit_interval c,
       cfg_statistics_interval c, cfg_slab_size c, cfg_loader_seek_timeout c, cfg_retry_base c,
       cfg_max_retry_delay c, cfg_scheduler_max_wait c, cfg_monopolization_window c, cfg_defer_base c,
       cfg_defer_max_delay c, cfg_defer_failure_window c, cfg_timeout c, cfg_idempotence_ttl c,
       cfg_peer_registration_ttl c] \<and>
    cfg_idempotence_cache_size c \<noteq> Some 0 \<and> read_cache_valid (cfg_state_read_cache c) \<and>
    (case cfg_state_collections c of None \<Rightarrow> True | Some cols \<Rightarrow> list_all collection_valid cols)"
  by (rule builders_accept [OF assms])

theorem configuration_accepted_iff_witness:
  "(\<exists>b. consumer_builders_of permissive_lib default_configuration = Inr b) \<and>
   \<not> (\<exists>b. consumer_builders_of permissive_lib
          (default_configuration\<lparr>cfg_idempotence_cache_size := Some 0\<rparr>) = Inr b)"
  by (subst (1 2) configuration_accepted_iff [OF permissive_lib])
     (simp add: default_configuration_def option_valid_def read_cache_valid_def)

text \<open>
  An untouched configuration changes nothing: no setter of any builder is called and no
  collection is registered, so every default is the core's own.
\<close>

theorem default_configuration_calls_nothing:
  assumes "consumer_builders_of lib default_configuration = Inr b"
  shows "cb_consumer b = [] \<and> cb_retry b = [] \<and> cb_failure_topic b = [] \<and> cb_scheduler b = [] \<and>
    cb_monopolization b = [] \<and> cb_defer b = [] \<and> cb_timeout b = [] \<and> cb_dedup b = [] \<and>
    ks_registered (cb_keyed_state b) = [] \<and> lib_build_telemetry lib [] = Inr (cb_emitter b) \<and>
    lib_build_keyed lib [] = Inr (ks_base (cb_keyed_state b)) \<and> lib_build_peer lib [] = Inr (cb_peer b)"
proof -
  have none: "plain name f None = (name, None)" "timed name opt None = (name, None)"
    "probe_step None = (''probe_port'', None)" "byte_size lib name opt None = (name, None)"
    "span_step lib name None = (name, None)" "dedup_capacity_step None = (''cache_capacity'', None)"
    "read_cache_step None = (''read_cache_ttl'', None)" for name opt and f :: "'z \<Rightarrow> setting"
    by (simp_all add: plain_def timed_def probe_step_def byte_size_def span_step_def
        dedup_capacity_step_def read_cache_step_def)
  have loader: "loader_step lib default_configuration = (''loader'', None)"
    by (simp add: loader_step_def default_configuration_def)
  have fields: "consumer_builder default_configuration = Inr []"
    "run_setters (shared_consumer_setters lib default_configuration) = Inr []"
    "retry_builder default_configuration = Inr []" "failure_topic_builder default_configuration = Inr []"
    "scheduler_builder default_configuration = Inr []"
    "monopolization_builder default_configuration = Inr []" "defer_builder default_configuration = Inr []"
    "timeout_builder default_configuration = Inr []" "dedup_builder default_configuration = Inr []"
    "telemetry_builder default_configuration = Inr []"
    "run_setters (keyed_setters lib default_configuration) = Inr []"
    "run_setters (peer_setters lib default_configuration) = Inr []"
    "cfg_state_collections default_configuration = None"
    by (simp_all add: consumer_builder_def shared_consumer_setters_def loader retry_builder_def
        failure_topic_builder_def scheduler_builder_def monopolization_builder_def defer_builder_def
        timeout_builder_def dedup_builder_def telemetry_builder_def keyed_setters_def peer_setters_def
        setters_defs none, simp_all add: default_configuration_def none)
  from assms show ?thesis
    by (auto simp: consumer_builders_of_def fields telemetry_config_def build_keyed_state_config_def
        build_peer_config_def res_bind_eq_Inr_iff Let_def)
qed

theorem default_configuration_calls_nothing_witness:
  "\<exists>b. consumer_builders_of permissive_lib default_configuration = Inr b \<and> cb_consumer b = []"
proof -
  obtain b where "consumer_builders_of permissive_lib default_configuration = Inr b"
    using accept_default by blast
  with default_configuration_calls_nothing [OF this] show ?thesis by blast
qed

end
