(* ===== verification/Client.thy ===== *)
theory Client
  imports Awaiting Config_State State_Handles Ruby_Hash
begin

text \<open>
  \<open>Prosody::Client\<close> (client/mod.rs, request.rs, readers.rs, support.rs) and the process-wide
  state its operations set up on first use (\<open>ensure_runtime_context\<close> of util.rs).

  The high-level client of the core is the record \<open>client_core\<close>. Every operation of a client
  first checks that it runs in the process that made the client; \<open>guarded\<close> is that check.
\<close>

subsection \<open>Process-wide state\<close>

text \<open>
  The statics \<open>RUNTIME\<close>, \<open>BRIDGE\<close> and \<open>TRACING_INIT\<close>: each is set once, and remembers here the
  process that set it. \<open>fork\<close> copies them.
\<close>

record statics =
  st_runtime :: "u32 option"
  st_bridge :: "u32 option"
  st_tracing :: "u32 option"

definition get_or_init :: "'a \<Rightarrow> 'a option \<Rightarrow> 'a option" where
  "get_or_init x slot = (case slot of None \<Rightarrow> Some x | Some y \<Rightarrow> Some y)"

text \<open>
  \<open>ensure_runtime_context\<close>: enters the runtime when the thread is in none (the result says
  whether a guard is returned), then sets up the bridge and tracing.
\<close>

definition ensure_runtime_context ::
  "'ctx rb_env \<Rightarrow> bool \<Rightarrow> statics \<Rightarrow> bool \<times> statics"
where
  "ensure_runtime_context env in_runtime st =
     (let guard = \<not> in_runtime;
          st = (if guard then st\<lparr>st_runtime := get_or_init (env_pid env) (st_runtime st)\<rparr> else st);
          st = st\<lparr>st_bridge := get_or_init (env_pid env) (st_bridge st)\<rparr>;
          st = st\<lparr>st_tracing := get_or_init (env_pid env) (st_tracing st)\<rparr>
      in (guard, st))"

definition no_statics :: statics where
  "no_statics = \<lparr>st_runtime = None, st_bridge = None, st_tracing = None\<rparr>"

text \<open>\<open>flush_telemetry\<close> and \<open>shutdown_telemetry\<close>: the core's error becomes a RuntimeError.\<close>

definition telemetry_call :: "('s, string, unit) op \<Rightarrow> ('s, rb_error, unit) op" where
  "telemetry_call m = op_map_err runtime_error m"

subsection \<open>The client of the core\<close>

datatype erased_consumer_state =
    Shut_down
  | Not_configured
  | Configuration_failed string
  | Is_configured
  | Running

datatype response_error =
    Handler_error string
  | Timed_out
  | Format_mismatch
  | Malformed

datatype reader_build_error = State_reader erased_error | Other_reader string

record ('s, 'e, 'j, 'h, 'r) client_core =
  hc_send :: "string \<Rightarrow> string \<Rightarrow> 'j \<Rightarrow> ('s, 'e, unit) op"
  hc_excise :: "string \<Rightarrow> string \<Rightarrow> ('s, 'e, unit) op"
  hc_subscribe :: "'h \<Rightarrow> ('s, 'e, unit) op"
  hc_unsubscribe :: "('s, 'e, unit) op"
  hc_shutdown :: "('s, 'e, unit) op"
  hc_consumer_state :: "'s \<Rightarrow> erased_consumer_state \<times> 's"
  hc_assigned_partition_count :: "'s \<Rightarrow> u32 \<times> 's"
  hc_is_stalled :: "'s \<Rightarrow> bool \<times> 's"
  hc_request :: "string \<Rightarrow> string \<Rightarrow> 'j \<Rightarrow> nat list \<Rightarrow> duration \<Rightarrow>
    ('s, 'e, (string \<times> (response_error + 'j)) list) op"
  hc_request_excise :: "string \<Rightarrow> string \<Rightarrow> nat list \<Rightarrow> duration \<Rightarrow>
    ('s, 'e, (string \<times> (response_error + 'j)) list) op"
  hc_open_reader :: "vended_kind \<Rightarrow> string \<Rightarrow> string \<Rightarrow> read_cache_policy \<Rightarrow>
    ('s, reader_build_error, 'r) op"
  hc_source_system :: string
  hc_show :: "'e \<Rightarrow> string" \<comment> \<open>the error's \<open>{:#}\<close> form\<close>
  hc_to_string :: "'e \<Rightarrow> string"

text \<open>
  The Ruby object, and the state it works on: the core's state and the shared shutdown
  future, whose result is kept once it has run.
\<close>

record client =
  cl_fork :: fork_guard

record 's client_state =
  cs_core :: 's
  cs_shutdown :: "(string + unit) option"

definition on_core :: "('s \<Rightarrow> 'a \<times> 's) \<Rightarrow> 's client_state \<Rightarrow> 'a \<times> 's client_state" where
  "on_core f st = (case f (cs_core st) of (x, s) \<Rightarrow> (x, st\<lparr>cs_core := s\<rparr>))"

definition guarded :: "fork_guard \<Rightarrow> 'ctx rb_env \<Rightarrow> ('s, rb_error, 'a) op \<Rightarrow> ('s, rb_error, 'a) op" where
  "guarded g env m = op_bind (op_lift (fork_check g env)) (\<lambda>_. m)"

lemma guarded_refuse: "env_pid env \<noteq> guard_pid g \<Longrightarrow> guarded g env m s = (Inl (fork_error g), s)"
  by (simp add: guarded_def fork_check_refuse)

lemma guarded_pass [simp]: "env_pid env = guard_pid g \<Longrightarrow> guarded g env m s = m s"
  by (simp add: guarded_def fork_check_pass)

lemma fork_guardedI:
  "(\<And>x env. call x env = guarded (g x) env (body x env)) \<Longrightarrow> fork_guarded g call"
  by unfold_locales (simp add: guarded_refuse)

subsection \<open>Making a client\<close>

text \<open>
  \<open>Client::new\<close>. \<open>config\<close> is the Ruby configuration after \<open>to_hash\<close> and deserialization,
  \<open>new_erased\<close> the core's constructor on the four converted configurations.
\<close>

definition client_new ::
  "'ctx rb_env \<Rightarrow> config_lib \<Rightarrow> mode \<Rightarrow> bool \<Rightarrow> statics \<Rightarrow> rb_error + unit \<Rightarrow>
    rb_error + native_configuration \<Rightarrow>
    (mode \<Rightarrow> setter_call list \<Rightarrow> consumer_builders \<Rightarrow> setter_call list \<Rightarrow> ('s, string, unit) op) \<Rightarrow>
    ('s, rb_error, client) op"
where
  "client_new env lib default_mode in_runtime st required config new_erased =
     op_bind (op_lift required) (\<lambda>_.
     let st = snd (ensure_runtime_context env in_runtime st) in
     op_bind (op_lift config) (\<lambda>c.
     op_bind (op_lift (map_err argument_error (mode_of default_mode c))) (\<lambda>mode.
     op_bind (op_lift (map_err argument_error (consumer_builders_of lib c))) (\<lambda>consumer.
     op_bind (op_lift (if st_bridge st = None then Inl (runtime_error ''Bridge not initialized'') else Inr ())) (\<lambda>_.
     op_bind (op_lift (map_err argument_error (cassandra_builder c))) (\<lambda>cassandra.
     op_bind (op_lift (map_err argument_error (producer_builder c))) (\<lambda>producer.
     op_bind (await_core env runtime_error (new_erased mode producer consumer cassandra)) (\<lambda>_.
       op_ok \<lparr>cl_fork = fork_guard_new env ''Prosody::Client''\<rparr>))))))))"

subsection \<open>Operations\<close>

fun consumer_state_symbol :: "erased_consumer_state \<Rightarrow> string + string" where
  "consumer_state_symbol Shut_down = Inr ''shut_down''"
| "consumer_state_symbol Not_configured = Inr ''unconfigured''"
| "consumer_state_symbol (Configuration_failed error) = Inl (''consumer configuration failed: '' @ error)"
| "consumer_state_symbol Is_configured = Inr ''configured''"
| "consumer_state_symbol Running = Inr ''running''"

definition consumer_state where
  "consumer_state C cl env = guarded (cl_fork cl) env
     (op_bind (wait_for env (on_core (hc_consumer_state C))) (\<lambda>state.
       op_lift (map_err runtime_error (consumer_state_symbol state))))"

text \<open>\<open>payload\<close> is the payload converted to JSON, or the error of the conversion.\<close>

definition client_send where
  "client_send C topic key payload cl env = guarded (cl_fork cl) env
     (op_bind (op_lift payload) (\<lambda>v.
       traced_call env (\<lambda>e. runtime_error (hc_show C e)) (on_core (hc_send C topic key v))))"

definition client_excise where
  "client_excise C topic key cl env = guarded (cl_fork cl) env
     (traced_call env (\<lambda>e. runtime_error (hc_show C e)) (on_core (hc_excise C topic key)))"

text \<open>
  \<open>validate_handler\<close> runs the Ruby method of the same name; \<open>handler\<close> is the wrapped handler
  that \<open>RubyHandler::new\<close> makes.
\<close>

definition validate_handler :: "'ctx rb_env \<Rightarrow> rb_error + unit \<Rightarrow> rb_error + unit" where
  "validate_handler env validated =
     (case env_const_get env ''EventHandler'' of Some e \<Rightarrow> Inl e | None \<Rightarrow> validated)"

definition client_subscribe where
  "client_subscribe C validated handler cl env = guarded (cl_fork cl) env
     (op_bind (op_lift (validate_handler env validated)) (\<lambda>_.
     op_bind (op_lift handler) (\<lambda>wrapper.
       await_core env (\<lambda>e. runtime_error (hc_to_string C e)) (on_core (hc_subscribe C wrapper)))))"

definition assigned_partition_count where
  "assigned_partition_count C cl env = guarded (cl_fork cl) env
     (wait_for env (on_core (hc_assigned_partition_count C)))"

definition is_stalled where
  "is_stalled C cl env = guarded (cl_fork cl) env (wait_for env (on_core (hc_is_stalled C)))"

definition client_unsubscribe where
  "client_unsubscribe C cl env = guarded (cl_fork cl) env
     (await_core env (\<lambda>e. runtime_error (hc_show C e)) (on_core (hc_unsubscribe C)))"

text \<open>\<open>support::shutdown\<close>: the shared future runs the core's shutdown once and keeps its result.\<close>

definition shutdown_future where
  "shutdown_future C st =
     (case cs_shutdown st of
        Some r \<Rightarrow> (r, st)
      | None \<Rightarrow>
          (case hc_shutdown C (cs_core st) of (r, s) \<Rightarrow>
             let r = map_err (hc_to_string C) r in (r, st\<lparr>cs_core := s, cs_shutdown := Some r\<rparr>)))"

definition client_shutdown where
  "client_shutdown C cl env = guarded (cl_fork cl) env (await_core env runtime_error (shutdown_future C))"

definition source_system where
  "source_system C = hc_source_system C"

subsection \<open>Requests\<close>

record 'j native_request =
  nr_topic :: string
  nr_key :: string
  nr_payload :: 'j
  nr_subsystems :: "string list"
  nr_timeout :: f64

record native_excise_request =
  nx_topic :: string
  nx_key :: string
  nx_subsystems :: "string list"
  nx_timeout :: f64

definition request_parameters ::
  "config_lib \<Rightarrow> string list \<Rightarrow> f64 \<Rightarrow> rb_error + nat list \<times> duration"
where
  "request_parameters lib subsystems timeout =
     res_bind (map_err argument_error (traverse (lib_subsystem lib) subsystems)) (\<lambda>subsystems.
       (case try_from_secs_f64 timeout of
          None \<Rightarrow> Inl (argument_error ''timeout must be a finite, non-negative duration'')
        | Some timeout \<Rightarrow> Inr (subsystems, timeout)))"

text \<open>The outcome objects of lib/prosody/request.rb.\<close>

datatype request_outcome =
    Success rvalue
  | Failure string "string option" \<comment> \<open>the error's class, and its message if it takes one\<close>

fun response_error_parts :: "response_error \<Rightarrow> string \<times> string option" where
  "response_error_parts (Handler_error message) = (''HandlerError'', Some message)"
| "response_error_parts Timed_out = (''Timeout'', None)"
| "response_error_parts Format_mismatch = (''FormatMismatch'', None)"
| "response_error_parts Malformed = (''MalformedResponse'', None)"

definition const_get :: "'ctx rb_env \<Rightarrow> string \<Rightarrow> rb_error + unit" where
  "const_get env name = (case env_const_get env name of None \<Rightarrow> Inr () | Some e \<Rightarrow> Inl e)"

definition response_error_object :: "'ctx rb_env \<Rightarrow> response_error \<Rightarrow> rb_error + request_outcome" where
  "response_error_object env e =
     (case response_error_parts e of (name, message) \<Rightarrow>
        res_map (\<lambda>_. Failure name message) (const_get env name))"

definition outcome_of ::
  "'ctx rb_env \<Rightarrow> ('j \<Rightarrow> rb_error + rvalue) \<Rightarrow> response_error + 'j \<Rightarrow> rb_error + request_outcome"
where
  "outcome_of env serialize result =
     (case result of
        Inr v \<Rightarrow> res_map Success (serialize v)
      | Inl e \<Rightarrow> response_error_object env e)"

fun collect_outcomes ::
  "'ctx rb_env \<Rightarrow> ('j \<Rightarrow> rb_error + rvalue) \<Rightarrow> (string \<times> (response_error + 'j)) list \<Rightarrow>
    (string \<times> request_outcome) list \<Rightarrow> rb_error + (string \<times> request_outcome) list"
where
  "collect_outcomes env serialize [] outcomes = Inr outcomes"
| "collect_outcomes env serialize ((subsystem, result) # results) outcomes =
     res_bind (outcome_of env serialize result) (\<lambda>outcome.
       collect_outcomes env serialize results (aset subsystem outcome outcomes))"

definition request_outcomes ::
  "'ctx rb_env \<Rightarrow> ('j \<Rightarrow> rb_error + rvalue) \<Rightarrow> (string \<times> (response_error + 'j)) list \<Rightarrow>
    rb_error + (string \<times> request_outcome) list"
where
  "request_outcomes env serialize results =
     res_bind (const_get env ''Success'') (\<lambda>_.
     res_bind (const_get env ''Failure'') (\<lambda>_.
       collect_outcomes env serialize results []))"

definition client_request where
  "client_request C lib serialize req cl env = guarded (cl_fork cl) env
     (op_bind (op_lift req) (\<lambda>r.
     op_bind (op_lift (request_parameters lib (nr_subsystems r) (nr_timeout r))) (\<lambda>(subsystems, timeout).
     op_bind (traced_call env (\<lambda>e. runtime_error (hc_to_string C e))
         (on_core (hc_request C (nr_topic r) (nr_key r) (nr_payload r) subsystems timeout))) (\<lambda>results.
       op_lift (request_outcomes env serialize results)))))"

definition client_request_excise where
  "client_request_excise C lib serialize req cl env = guarded (cl_fork cl) env
     (op_bind (op_lift req) (\<lambda>r.
     op_bind (op_lift (request_parameters lib (nx_subsystems r) (nx_timeout r))) (\<lambda>(subsystems, timeout).
     op_bind (traced_call env (\<lambda>e. runtime_error (hc_to_string C e))
         (on_core (hc_request_excise C (nx_topic r) (nx_key r) subsystems timeout))) (\<lambda>results.
       op_lift (request_outcomes env serialize results)))))"

subsection \<open>Readers of published state\<close>

record 'r published_reader =
  pr_inner :: 'r
  pr_fork :: fork_guard

definition reader_error :: "'ctx rb_env \<Rightarrow> reader_build_error \<Rightarrow> rb_error" where
  "reader_error env e = (case e of State_reader e \<Rightarrow> state_error env e | Other_reader m \<Rightarrow> runtime_error m)"

text \<open>\<open>open_reader\<close>, by the kind of collection; \<open>read_cache\<close> is the deserialized option.\<close>

definition open_reader where
  "open_reader C kind subsystem name read_cache cl env = guarded (cl_fork cl) env
     (op_bind (op_lift read_cache) (\<lambda>rc.
     op_bind (op_lift (map_err argument_error (read_cache_policy_of ''read_cache'' rc))) (\<lambda>cache.
     op_bind (await_core env (reader_error env) (on_core (hc_open_reader C kind subsystem name cache))) (\<lambda>reader.
       op_ok \<lparr>pr_inner = reader, pr_fork = cl_fork cl\<rparr>))))"

definition published_value where "published_value C = open_reader C Json_value"
definition published_map where "published_map C = open_reader C Json_map"
definition published_set where "published_set C = open_reader C Json_set"
definition published_deque where "published_deque C = open_reader C Json_deque"

end
