(* ===== verification/Client_Props.thy ===== *)
theory Client_Props
  imports Client
begin

text \<open>
  What a client promises: its operations refuse to run in another process than its own, its
  shutdown runs once, its requests report one outcome per subsystem; and what happens to the
  process-wide state across \<open>fork\<close>.
\<close>

subsection \<open>Every operation is guarded\<close>

lemmas client_op_defs = consumer_state_def client_send_def client_excise_def client_subscribe_def
  assigned_partition_count_def is_stalled_def client_unsubscribe_def client_shutdown_def
  client_request_def client_request_excise_def open_reader_def

interpretation state_guard: fork_guarded cl_fork "consumer_state C" for C
  by (rule fork_guardedI) (rule consumer_state_def)

interpretation send_guard: fork_guarded cl_fork "client_send C topic key payload"
  for C topic key payload
  by (rule fork_guardedI) (rule client_send_def)

interpretation excise_guard: fork_guarded cl_fork "client_excise C topic key" for C topic key
  by (rule fork_guardedI) (rule client_excise_def)

interpretation subscribe_guard: fork_guarded cl_fork "client_subscribe C validated handler"
  for C validated handler
  by (rule fork_guardedI) (rule client_subscribe_def)

interpretation partitions_guard: fork_guarded cl_fork "assigned_partition_count C" for C
  by (rule fork_guardedI) (rule assigned_partition_count_def)

interpretation stalled_guard: fork_guarded cl_fork "is_stalled C" for C
  by (rule fork_guardedI) (rule is_stalled_def)

interpretation unsubscribe_guard: fork_guarded cl_fork "client_unsubscribe C" for C
  by (rule fork_guardedI) (rule client_unsubscribe_def)

interpretation shutdown_guard: fork_guarded cl_fork "client_shutdown C" for C
  by (rule fork_guardedI) (rule client_shutdown_def)

interpretation request_guard: fork_guarded cl_fork "client_request C lib serialize req"
  for C lib serialize req
  by (rule fork_guardedI) (rule client_request_def)

interpretation request_excise_guard: fork_guarded cl_fork "client_request_excise C lib serialize req"
  for C lib serialize req
  by (rule fork_guardedI) (rule client_request_excise_def)

interpretation reader_guard: fork_guarded cl_fork "open_reader C kind subsystem name read_cache"
  for C kind subsystem name read_cache
  by (rule fork_guardedI) (rule open_reader_def)

subsection \<open>Requests\<close>

text \<open>The last result for a subsystem decides its outcome.\<close>

fun last_result :: "string \<Rightarrow> (string \<times> 'a) list \<Rightarrow> 'a option" where
  "last_result k [] = None"
| "last_result k ((k', x) # xs) =
     (case last_result k xs of Some y \<Rightarrow> Some y | None \<Rightarrow> if k' = k then Some x else None)"

lemma collect_outcomes_lookup:
  "collect_outcomes env serialize results h = Inr h' \<Longrightarrow> distinct (map fst h) \<Longrightarrow>
     distinct (map fst h') \<and>
     (case last_result k results of
        None \<Rightarrow> map_of h' k = map_of h k
      | Some r \<Rightarrow> \<exists>outcome. outcome_of env serialize r = Inr outcome \<and> map_of h' k = Some outcome)"
proof (induction results arbitrary: h)
  case Nil
  then show ?case by simp
next
  case (Cons x results)
  obtain subsystem r where x: "x = (subsystem, r)" by (cases x)
  obtain outcome where o: "outcome_of env serialize r = Inr outcome"
      "collect_outcomes env serialize results (aset subsystem outcome h) = Inr h'"
    using Cons.prems(1) by (auto simp: x res_bind_eq_Inr_iff)
  from Cons.IH [OF o(2) aset_distinct [OF Cons.prems(2)]] show ?case
    by (auto simp: x aset_lookup o(1) split: option.splits)
qed

subsection \<open>Samples\<close>

definition sample_client :: client where
  "sample_client = \<lparr>cl_fork = \<lparr>guard_pid = 100, guard_class = ''Prosody::Client''\<rparr>\<rparr>"

definition counting_core :: "(nat, string, int, unit, unit) client_core" where
  "counting_core = \<lparr>hc_send = (\<lambda>_ _ _ s. (Inr (), Suc s)), hc_excise = (\<lambda>_ _ s. (Inr (), Suc s)),
     hc_subscribe = (\<lambda>_ s. (Inr (), Suc s)), hc_unsubscribe = (\<lambda>s. (Inr (), Suc s)),
     hc_shutdown = (\<lambda>s. (Inl ''already stopping'', Suc s)), hc_consumer_state = (\<lambda>s. (Running, s)),
     hc_assigned_partition_count = (\<lambda>s. (0, s)), hc_is_stalled = (\<lambda>s. (False, s)),
     hc_request = (\<lambda>_ _ _ _ _ s. (Inr [], s)), hc_request_excise = (\<lambda>_ _ _ _ s. (Inr [], s)),
     hc_open_reader = (\<lambda>_ _ _ _ s. (Inr (), s)), hc_source_system = ''test'', hc_show = id,
     hc_to_string = id\<rparr>"

definition sample_client_state :: "nat client_state" where
  "sample_client_state = \<lparr>cs_core = 0, cs_shutdown = None\<rparr>"

subsection \<open>Properties\<close>



text \<open>
  Setting up a process: the bridge and the tracing of a process that used the extension
  are inherited over \<open>fork\<close>, not set up anew: a child that makes its first client finds the
  bridge of its parent, whose Ruby thread it does not have.
\<close>

theorem statics_inherited_over_fork:
  "st_bridge (snd (ensure_runtime_context child b (snd (ensure_runtime_context parent a no_statics)))) =
     Some (env_pid parent) \<and>
   st_tracing (snd (ensure_runtime_context child b (snd (ensure_runtime_context parent a no_statics)))) =
     Some (env_pid parent) \<and>
   st_bridge (snd (ensure_runtime_context child b no_statics)) = Some (env_pid child)"
  by (simp add: ensure_runtime_context_def get_or_init_def no_statics_def Let_def)

text \<open>
  Shutting down runs the core's shutdown once: after a first call, even one interrupted
  while it waited, every later call in the client's process returns the outcome of that one
  run and leaves the core alone.
\<close>

theorem shutdown_runs_once:
  fixes C :: "('s, 'e, 'j, 'h, 'r) client_core" and st :: "'s client_state"
  assumes "env_pid env = guard_pid (cl_fork cl)" and "env_queue_new env = None"
    and "env_pid env' = guard_pid (cl_fork cl)" and "calm env'" and "cs_shutdown st = None"
  defines "after \<equiv> snd (client_shutdown C cl env st)"
  shows "cs_core after = snd (hc_shutdown C (cs_core st)) \<and>
    client_shutdown C cl env' after =
      (map_err (\<lambda>e. runtime_error (hc_to_string C e)) (fst (hc_shutdown C (cs_core st))), after)"
proof -
  have "after = snd (shutdown_future C st)"
    using assms(1,2) by (simp add: after_def client_shutdown_def await_core_state)
  then have "cs_core after = snd (hc_shutdown C (cs_core st))"
    and "cs_shutdown after = Some (map_err (hc_to_string C) (fst (hc_shutdown C (cs_core st))))"
    using assms(5) by (simp_all add: shutdown_future_def Let_def split: prod.splits)
  then show ?thesis
    using assms(3,4)
    by (cases "fst (hc_shutdown C (cs_core st))") (simp_all add: client_shutdown_def shutdown_future_def)
qed

theorem shutdown_runs_once_witness:
  "client_shutdown counting_core sample_client sample_env
     (snd (client_shutdown counting_core sample_client (sample_env\<lparr>env_pop := Some (runtime_error ''interrupt'')\<rparr>)
        sample_client_state)) =
     (Inl (runtime_error ''already stopping''), snd (client_shutdown counting_core sample_client
        (sample_env\<lparr>env_pop := Some (runtime_error ''interrupt'')\<rparr>) sample_client_state))"
  using shutdown_runs_once [of "sample_env\<lparr>env_pop := Some (runtime_error ''interrupt'')\<rparr>" sample_client
      sample_env sample_client_state counting_core]
  by (simp add: sample_env_def sample_client_def calm_def sample_client_state_def counting_core_def)

text \<open>
  A request reports one outcome per subsystem: the entries have distinct names, a name has
  an entry exactly when a result came from it, and the entry is made from the last such result.
\<close>

theorem request_outcomes_by_subsystem:
  assumes "request_outcomes env serialize results = Inr outcomes"
  shows "distinct (map fst outcomes) \<and>
    (case last_result k results of
       None \<Rightarrow> map_of outcomes k = None
     | Some r \<Rightarrow> \<exists>outcome. outcome_of env serialize r = Inr outcome \<and> map_of outcomes k = Some outcome)"
proof -
  have "collect_outcomes env serialize results [] = Inr outcomes"
    using assms by (auto simp: request_outcomes_def res_bind_eq_Inr_iff)
  from collect_outcomes_lookup [OF this, of k] show ?thesis
    by (cases "last_result k results") auto
qed

theorem request_outcomes_by_subsystem_witness:
  "map_of [(''a'', Failure ''Timeout'' None), (''b'', Success (RInteger 2))] ''a'' = Some (Failure ''Timeout'' None)"
proof -
  have "request_outcomes sample_env (\<lambda>n. Inr (RInteger n)) [(''a'', Inl Timed_out), (''b'', Inr 2)] =
      Inr [(''a'', Failure ''Timeout'' None), (''b'', Success (RInteger 2))]"
    by (simp add: request_outcomes_def const_get_def sample_env_def outcome_of_def
        response_error_object_def)
  from request_outcomes_by_subsystem [OF this, of "''a''"] show ?thesis
    by (simp add: outcome_of_def response_error_object_def const_get_def sample_env_def)
qed

end
