(* ===== verification/State_Definitions.thy ===== *)
theory State_Definitions
  imports Config_Props Client_Props
begin

text \<open>
  The collection definitions of lib/prosody/state.rb: the constructors of \<open>StateDefinition\<close>,
  what a definition registers (\<open>to_state_config\<close>), the handle the context vends for it
  (\<open>Vending#state\<close>, cached per definition) and the reader a client opens for it
  (\<open>Reading#state\<close>). Options have the types that the native layer reads them with; \<open>nil\<close>
  is \<open>None\<close>.
\<close>

subsection \<open>Definitions\<close>

text \<open>How a definition opens its handle and its reader: Ruby method and class names.\<close>

record state_access =
  sa_vend_method :: string
  sa_wrapper :: string
  sa_reader :: "(string \<times> string) option"

definition VALUE_ACCESS :: state_access where
  "VALUE_ACCESS = \<lparr>sa_vend_method = ''value_state'', sa_wrapper = ''ValueState'',
     sa_reader = Some (''published_value'', ''PublishedValue'')\<rparr>"

definition MAP_ACCESS :: state_access where
  "MAP_ACCESS = \<lparr>sa_vend_method = ''map_state'', sa_wrapper = ''MapState'',
     sa_reader = Some (''published_map'', ''PublishedMap'')\<rparr>"

definition SET_ACCESS :: state_access where
  "SET_ACCESS = \<lparr>sa_vend_method = ''set_state'', sa_wrapper = ''SetState'',
     sa_reader = Some (''published_set'', ''PublishedSet'')\<rparr>"

definition DEQUE_ACCESS :: state_access where
  "DEQUE_ACCESS = \<lparr>sa_vend_method = ''deque_state'', sa_wrapper = ''DequeState'',
     sa_reader = Some (''published_deque'', ''PublishedDeque'')\<rparr>"

definition MESSAGE_VALUE_ACCESS :: state_access where
  "MESSAGE_VALUE_ACCESS = \<lparr>sa_vend_method = ''message_value_state'', sa_wrapper = ''ValueState'',
     sa_reader = None\<rparr>"

definition MESSAGE_MAP_ACCESS :: state_access where
  "MESSAGE_MAP_ACCESS = \<lparr>sa_vend_method = ''message_map_state'', sa_wrapper = ''MapState'',
     sa_reader = None\<rparr>"

definition MESSAGE_DEQUE_ACCESS :: state_access where
  "MESSAGE_DEQUE_ACCESS = \<lparr>sa_vend_method = ''message_deque_state'', sa_wrapper = ''DequeState'',
     sa_reader = None\<rparr>"

record state_definition =
  sd_name :: string
  sd_kind :: string
  sd_payload :: "string option"
  sd_ttl_seconds :: "u32 option"
  sd_read_uncommitted :: "bool option"
  sd_published :: "bool option"
  sd_read_cache :: rvalue
  sd_keyset_limit :: "usize option"
  sd_capacity :: "usize option"
  sd_access :: state_access

text \<open>\<open>StateDefinition#initialize\<close>: every option defaults to \<open>nil\<close>.\<close>

definition state_definition_new :: "string \<Rightarrow> string \<Rightarrow> state_access \<Rightarrow> state_definition" where
  "state_definition_new name kind access = \<lparr>sd_name = name, sd_kind = kind, sd_payload = None,
     sd_ttl_seconds = None, sd_read_uncommitted = None, sd_published = None, sd_read_cache = RNil,
     sd_keyset_limit = None, sd_capacity = None, sd_access = access\<rparr>"

text \<open>A call of one of the seven constructors of module \<open>Prosody\<close>, with its keywords.\<close>

datatype state_declaration =
    Declare_value string "u32 option" "bool option" "bool option" rvalue
  | Declare_map string "u32 option" "usize option" "bool option" "bool option" rvalue
  | Declare_set string "u32 option" "usize option" "bool option" "bool option" rvalue
  | Declare_deque string "u32 option" "usize option" "bool option" "bool option" rvalue
  | Declare_message_value string "u32 option" "bool option"
  | Declare_message_map string "u32 option" "usize option" "bool option"
  | Declare_message_deque string "u32 option" "usize option" "bool option"

fun declare_state :: "state_declaration \<Rightarrow> state_definition" where
  "declare_state (Declare_value name ttl ru pub cache) =
     (state_definition_new name ''value'' VALUE_ACCESS)
       \<lparr>sd_payload := Some ''json'', sd_ttl_seconds := ttl, sd_read_uncommitted := ru,
        sd_published := pub, sd_read_cache := cache\<rparr>"
| "declare_state (Declare_map name ttl limit ru pub cache) =
     (state_definition_new name ''map'' MAP_ACCESS)
       \<lparr>sd_payload := Some ''json'', sd_ttl_seconds := ttl, sd_keyset_limit := limit,
        sd_read_uncommitted := ru, sd_published := pub, sd_read_cache := cache\<rparr>"
| "declare_state (Declare_set name ttl limit ru pub cache) =
     (state_definition_new name ''set'' SET_ACCESS)
       \<lparr>sd_ttl_seconds := ttl, sd_keyset_limit := limit,
        sd_read_uncommitted := ru, sd_published := pub, sd_read_cache := cache\<rparr>"
| "declare_state (Declare_deque name ttl cap ru pub cache) =
     (state_definition_new name ''deque'' DEQUE_ACCESS)
       \<lparr>sd_payload := Some ''json'', sd_ttl_seconds := ttl, sd_capacity := cap,
        sd_read_uncommitted := ru, sd_published := pub, sd_read_cache := cache\<rparr>"
| "declare_state (Declare_message_value name ttl ru) =
     (state_definition_new name ''value'' MESSAGE_VALUE_ACCESS)
       \<lparr>sd_payload := Some ''message'', sd_ttl_seconds := ttl, sd_read_uncommitted := ru\<rparr>"
| "declare_state (Declare_message_map name ttl limit ru) =
     (state_definition_new name ''map'' MESSAGE_MAP_ACCESS)
       \<lparr>sd_payload := Some ''message'', sd_ttl_seconds := ttl, sd_keyset_limit := limit,
        sd_read_uncommitted := ru\<rparr>"
| "declare_state (Declare_message_deque name ttl cap ru) =
     (state_definition_new name ''deque'' MESSAGE_DEQUE_ACCESS)
       \<lparr>sd_payload := Some ''message'', sd_ttl_seconds := ttl, sd_capacity := cap,
        sd_read_uncommitted := ru\<rparr>"

definition to_state_config :: "state_definition \<Rightarrow> state_collection_config" where
  "to_state_config d = \<lparr>col_name = sd_name d, col_kind = sd_kind d, col_payload = sd_payload d,
     col_ttl_seconds = sd_ttl_seconds d, col_read_uncommitted = sd_read_uncommitted d,
     col_published = sd_published d, col_keyset_limit = sd_keyset_limit d,
     col_capacity = sd_capacity d\<rparr>"

subsection \<open>Handles\<close>

text \<open>The kind of handle each vending method of the native context makes.\<close>

definition vend_kinds :: "(string \<times> vended_kind) list" where
  "vend_kinds = [(''value_state'', Json_value), (''map_state'', Json_map), (''set_state'', Json_set),
     (''deque_state'', Json_deque), (''message_value_state'', Message_value),
     (''message_map_state'', Message_map), (''message_deque_state'', Message_deque)]"

definition no_method :: "string \<Rightarrow> rb_error" where
  "no_method name = Rb_error (Core_class ''NoMethodError'') (''undefined method '' @ name)"

definition send_vend ::
  "'ctx rb_env \<Rightarrow> (vended_kind \<Rightarrow> string \<Rightarrow> erased_error + 'h) \<Rightarrow> string \<Rightarrow> string \<Rightarrow> rb_error + 'h"
where
  "send_vend env registry method_name name =
     (case map_of vend_kinds method_name of
        None \<Rightarrow> Inl (no_method method_name)
      | Some kind \<Rightarrow> vend_state env registry kind (Inr name))"

record 'h state_handle =
  sh_object :: nat \<comment> \<open>the identity of the wrapper\<close>
  sh_wrapper :: string
  sh_native :: 'h

record 'h state_vending =
  sv_handles :: "state_definition \<Rightarrow> 'h state_handle option" \<comment> \<open>\<open>@state_handles\<close>\<close>
  sv_next :: nat

definition vending_start :: "'h state_vending" where
  "vending_start = \<lparr>sv_handles = Map.empty, sv_next = 0\<rparr>"

definition context_state ::
  "'ctx rb_env \<Rightarrow> (vended_kind \<Rightarrow> string \<Rightarrow> erased_error + 'h) \<Rightarrow> state_definition \<Rightarrow>
    ('h state_vending, rb_error, 'h state_handle) op"
where
  "context_state env registry d v =
     (case sv_handles v d of
        Some handle \<Rightarrow> (Inr handle, v)
      | None \<Rightarrow>
          (case send_vend env registry (sa_vend_method (sd_access d)) (sd_name d) of
             Inl e \<Rightarrow> (Inl e, v)
           | Inr native \<Rightarrow>
               let handle = \<lparr>sh_object = sv_next v, sh_wrapper = sa_wrapper (sd_access d), sh_native = native\<rparr>
               in (Inr handle, v\<lparr>sv_handles := (sv_handles v)(d \<mapsto> handle), sv_next := Suc (sv_next v)\<rparr>)))"

subsection \<open>Readers\<close>

text \<open>\<open>Float(cache)\<close> is Ruby's (\<open>to_float\<close>).\<close>

definition cache_argument :: "(rvalue \<Rightarrow> rb_error + f64) \<Rightarrow> rvalue \<Rightarrow> rb_error + read_cache_config option" where
  "cache_argument to_float cache =
     (case cache of
        RNil \<Rightarrow> Inr None
      | RBool b \<Rightarrow> Inr (Some (Cache_disabled b))
      | _ \<Rightarrow> res_map (Some \<circ> Cache_ttl) (to_float cache))"

definition reader_kinds :: "(string \<times> vended_kind) list" where
  "reader_kinds = [(''published_value'', Json_value), (''published_map'', Json_map),
     (''published_set'', Json_set), (''published_deque'', Json_deque)]"

definition send_reader where
  "send_reader C method_name subsystem name cache cl env =
     (if method_name = ''published_value'' then published_value C subsystem name (Inr cache) cl env
      else if method_name = ''published_map'' then published_map C subsystem name (Inr cache) cl env
      else if method_name = ''published_set'' then published_set C subsystem name (Inr cache) cl env
      else if method_name = ''published_deque'' then published_deque C subsystem name (Inr cache) cl env
      else op_err (no_method method_name))"

definition client_state_reader where
  "client_state_reader C to_float subsystem d cl env =
     (case sa_reader (sd_access d) of
        None \<Rightarrow> op_err (argument_error ''published state readers support JSON and set collections only'')
      | Some (open_method, reader) \<Rightarrow>
          op_bind (op_lift (cache_argument to_float (sd_read_cache d))) (\<lambda>cache.
          op_bind (send_reader C open_method subsystem (sd_name d) cache cl env) (\<lambda>native.
            op_ok (reader, native))))"

subsection \<open>What a declaration is about\<close>

fun declared_name :: "state_declaration \<Rightarrow> string" where
  "declared_name (Declare_value name _ _ _ _) = name"
| "declared_name (Declare_map name _ _ _ _ _) = name"
| "declared_name (Declare_set name _ _ _ _ _) = name"
| "declared_name (Declare_deque name _ _ _ _ _) = name"
| "declared_name (Declare_message_value name _ _) = name"
| "declared_name (Declare_message_map name _ _ _) = name"
| "declared_name (Declare_message_deque name _ _ _) = name"

fun declared_kind :: "state_declaration \<Rightarrow> vended_kind" where
  "declared_kind (Declare_value _ _ _ _ _) = Json_value"
| "declared_kind (Declare_map _ _ _ _ _ _) = Json_map"
| "declared_kind (Declare_set _ _ _ _ _ _) = Json_set"
| "declared_kind (Declare_deque _ _ _ _ _ _) = Json_deque"
| "declared_kind (Declare_message_value _ _ _) = Message_value"
| "declared_kind (Declare_message_map _ _ _ _) = Message_map"
| "declared_kind (Declare_message_deque _ _ _ _) = Message_deque"

fun declared_cache :: "state_declaration \<Rightarrow> rvalue" where
  "declared_cache (Declare_value _ _ _ _ cache) = cache"
| "declared_cache (Declare_map _ _ _ _ _ cache) = cache"
| "declared_cache (Declare_set _ _ _ _ _ cache) = cache"
| "declared_cache (Declare_deque _ _ _ _ _ cache) = cache"
| "declared_cache _ = RNil"

text \<open>The refining calls of a declaration's descriptor: exactly the options given.\<close>

definition common_calls :: "u32 option \<Rightarrow> bool option \<Rightarrow> bool option \<Rightarrow> descriptor_call list" where
  "common_calls ttl ru pub = opt_list D_ttl ttl @ (if ru = Some True then [D_read_uncommitted] else []) @
     opt_list D_published pub"

fun declared_calls :: "state_declaration \<Rightarrow> descriptor_call list" where
  "declared_calls (Declare_value _ ttl ru pub _) = common_calls ttl ru pub"
| "declared_calls (Declare_map _ ttl limit ru pub _) = common_calls ttl ru pub @ opt_list D_keyset_limit limit"
| "declared_calls (Declare_set _ ttl limit ru pub _) = common_calls ttl ru pub @ opt_list D_keyset_limit limit"
| "declared_calls (Declare_deque _ ttl cap ru pub _) = common_calls ttl ru pub @ opt_list D_capacity cap"
| "declared_calls (Declare_message_value _ ttl ru) = common_calls ttl ru None"
| "declared_calls (Declare_message_map _ ttl limit ru) = common_calls ttl ru None @ opt_list D_keyset_limit limit"
| "declared_calls (Declare_message_deque _ ttl cap ru) = common_calls ttl ru None @ opt_list D_capacity cap"

text \<open>The descriptor kind the core knows a kind of handle by.\<close>

fun kind_descriptor :: "vended_kind \<Rightarrow> descriptor_kind" where
  "kind_descriptor Json_value = Value_state"
| "kind_descriptor Json_map = Map_state"
| "kind_descriptor Json_set = Set_state"
| "kind_descriptor Json_deque = Deque_state"
| "kind_descriptor Message_value = Message_state"
| "kind_descriptor Message_map = Message_map_state"
| "kind_descriptor Message_deque = Message_deque_state"

lemmas access_defs = VALUE_ACCESS_def MAP_ACCESS_def SET_ACCESS_def DEQUE_ACCESS_def
  MESSAGE_VALUE_ACCESS_def MESSAGE_MAP_ACCESS_def MESSAGE_DEQUE_ACCESS_def

lemma declared_registers:
  "register_state_collection keyed i (to_state_config (declare_state d)) =
     Inr (register \<lparr>desc_kind = kind_descriptor (declared_kind d), desc_name = declared_name d,
       desc_calls = declared_calls d\<rparr> keyed)"
  by (cases d)
     (simp_all add: to_state_config_def state_definition_new_def register_state_collection_def
       parse_kind_def parse_payload_def keyset_limit_def capacity_def with_def_def desc_call_def
       common_calls_def Let_def)

lemma declared_vends:
  "send_vend env registry (sa_vend_method (sd_access (declare_state d))) (sd_name (declare_state d)) =
     vend_state env registry (declared_kind d) (Inr (declared_name d))"
  by (cases d) (simp_all add: state_definition_new_def access_defs send_vend_def vend_kinds_def)

lemma declared_reads:
  "client_state_reader C to_float subsystem (declare_state d) cl env =
     (if declared_kind d \<in> {Message_value, Message_map, Message_deque}
      then op_err (argument_error ''published state readers support JSON and set collections only'')
      else op_bind (op_lift (cache_argument to_float (declared_cache d))) (\<lambda>cache.
        op_map (Pair ((snd \<circ> the) (sa_reader (sd_access (declare_state d)))))
          (open_reader C (declared_kind d) subsystem (declared_name d) (Inr cache) cl env)))"
  by (cases d)
     (simp_all add: state_definition_new_def access_defs client_state_reader_def send_reader_def
       published_value_def published_map_def published_set_def published_deque_def op_map_def
       op_bind_def fun_eq_iff split: prod.split sum.split)

subsection \<open>The cache of handles\<close>

fun vend_states ::
  "'ctx rb_env \<Rightarrow> (vended_kind \<Rightarrow> string \<Rightarrow> erased_error + 'h) \<Rightarrow> state_definition list \<Rightarrow>
    'h state_vending \<Rightarrow> (rb_error + 'h state_handle) list \<times> 'h state_vending"
where
  "vend_states env registry [] v = ([], v)"
| "vend_states env registry (d # ds) v =
     (case context_state env registry d v of (r, v) \<Rightarrow>
      case vend_states env registry ds v of (rs, v) \<Rightarrow> (r # rs, v))"

definition vending_ok :: "'h state_vending \<Rightarrow> bool" where
  "vending_ok v \<longleftrightarrow>
     (\<forall>d h. sv_handles v d = Some h \<longrightarrow> sh_object h < sv_next v \<and> sh_wrapper h = sa_wrapper (sd_access d)) \<and>
     (\<forall>d e h k. sv_handles v d = Some h \<longrightarrow> sv_handles v e = Some k \<longrightarrow> sh_object h = sh_object k \<longrightarrow> d = e)"

lemma vending_ok_step:
  assumes "vending_ok v" and "context_state env registry d v = (r, w)"
  shows "vending_ok w" and "sv_handles v \<subseteq>\<^sub>m sv_handles w"
    and "r = Inr h \<Longrightarrow> sv_handles w d = Some h"
  using assms
  by (auto simp: vending_ok_def context_state_def Let_def map_le_def less_Suc_eq
      split: option.splits sum.splits if_splits) (metis less_irrefl)+

lemma vend_states_ok:
  assumes "vending_ok v" and "vend_states env registry ds v = (rs, w)"
  shows "vending_ok w \<and> length rs = length ds \<and> sv_handles v \<subseteq>\<^sub>m sv_handles w \<and>
    (\<forall>i < length ds. \<forall>h. rs ! i = Inr h \<longrightarrow> sv_handles w (ds ! i) = Some h)"
  using assms
proof (induction ds arbitrary: v rs)
  case (Cons d ds)
  obtain r u where step: "context_state env registry d v = (r, u)" by fastforce
  obtain rs' where rest: "vend_states env registry ds u = (rs', w)" and rs: "rs = r # rs'"
    using Cons.prems(2) step by (auto split: prod.splits)
  note ok = vending_ok_step [OF Cons.prems(1) step]
  note IH = Cons.IH [OF ok(1) rest]
  have "sv_handles w d = Some h" if "r = Inr h" for h
    using ok(3) [OF that] IH by (metis domI map_le_def)
  with IH ok(2) rs show ?case
    by (auto simp: nth_Cons less_Suc_eq_0_disj intro: map_le_trans split: nat.split)
qed simp

subsection \<open>Properties\<close>


text \<open>
  C22: Within one context a definition has one handle: however often and in whatever order
  definitions are vended, two successful vends give the same wrapper object exactly when the
  definitions are equal, and each wrapper is of its definition's class.
\<close>

theorem vended_handles_identity:
  assumes "vend_states env registry ds vending_start = (rs, v)"
    and "i < length ds" and "j < length ds" and "rs ! i = Inr a" and "rs ! j = Inr b"
  shows "(sh_object a = sh_object b \<longleftrightarrow> ds ! i = ds ! j) \<and> (ds ! i = ds ! j \<longrightarrow> a = b) \<and>
    sh_wrapper a = sa_wrapper (sd_access (ds ! i))"
proof -
  have "vending_ok vending_start" by (simp add: vending_ok_def vending_start_def)
  from vend_states_ok [OF this assms(1)] assms(2-5)
  have ok: "vending_ok v" and ab: "sv_handles v (ds ! i) = Some a" "sv_handles v (ds ! j) = Some b"
    by auto
  then show ?thesis unfolding vending_ok_def by (metis option.inject)
qed

theorem vended_handles_identity_witness:
  "\<exists>a b v. vend_states sample_env (\<lambda>kind name. Inr ()) [declare_state (Declare_message_value ''m'' None None),
      declare_state (Declare_set ''s'' None None None None RNil)] vending_start = ([Inr a, Inr b], v) \<and>
    sh_object a \<noteq> sh_object b"
proof -
  let ?ds = "[declare_state (Declare_message_value ''m'' None None),
      declare_state (Declare_set ''s'' None None None None RNil)]"
  obtain a b v where run: "vend_states sample_env (\<lambda>kind name. Inr ()) ?ds vending_start = ([Inr a, Inr b], v)"
    by (simp add: context_state_def vending_start_def send_vend_def vend_kinds_def vend_state_def
        vend_def access_defs Let_def state_definition_new_def)
  moreover have "?ds ! 0 \<noteq> ?ds ! 1" by (simp add: state_definition_new_def)
  ultimately show ?thesis
    using vended_handles_identity [OF run, of 0 1 a b] by auto
qed

end
