(* ===== verification/Ruby_Handles.thy ===== *)
theory Ruby_Handles
  imports State_Sets State_Definitions
begin

text \<open>
  The Ruby handles as handlers call them: any sequence of calls by name, aliases included, of
  \<open>ValueState\<close>, \<open>DequeState\<close> and \<open>MapState\<close> (lib/prosody/state/value.rb, deque.rb, map.rb), down
  through the wrappers and the native handles to the store; against a register, an Array and a
  Hash. Traversals, \<open>fetch\<close> and the readers of several keys are in State_Scans and
  State_Wrappers.
\<close>

subsection \<open>Calls\<close>

type_synonym ruby_call = "string \<times> rvalue list"

definition arity_error :: "nat \<Rightarrow> nat \<Rightarrow> rb_error" where
  "arity_error given expected =
     argument_error (''wrong number of arguments (given '' @ show_nat given @ '', expected '' @ show_nat expected @ '')'')"

text \<open>A call finds its method by name; \<open>alias_method\<close> gives one method several names.\<close>

definition send_named ::
  "(string \<times> 'm) list \<Rightarrow> ('m \<Rightarrow> rvalue list \<Rightarrow> ('s, rb_error, rvalue) op) \<Rightarrow> ruby_call \<Rightarrow> ('s, rb_error, rvalue) op"
where
  "send_named names call c =
     (case map_of names (fst c) of None \<Rightarrow> op_err (no_method (fst c)) | Some m \<Rightarrow> call m (snd c))"

fun send_all :: "('c \<Rightarrow> ('s, rb_error, rvalue) op) \<Rightarrow> 'c list \<Rightarrow> ('s, rb_error, rvalue list) op" where
  "send_all f [] = op_ok []"
| "send_all f (c # cs) = op_bind (f c) (\<lambda>v. op_map ((#) v) (send_all f cs))"

text \<open>The same calls on an abstract object, whose answers and next states a relation gives.\<close>

fun spec_all :: "('c \<Rightarrow> 'a \<Rightarrow> rvalue \<Rightarrow> 'a \<Rightarrow> bool) \<Rightarrow> 'c list \<Rightarrow> 'a \<Rightarrow> rvalue list \<Rightarrow> 'a \<Rightarrow> bool" where
  "spec_all spec [] a rs b \<longleftrightarrow> rs = [] \<and> b = a"
| "spec_all spec (c # cs) a rs b \<longleftrightarrow>
     (\<exists>r rs' d. rs = r # rs' \<and> spec c a r d \<and> spec_all spec cs d rs' b)"

lemma send_all_refines:
  assumes "\<And>c s r t. f c s = (Inr r, t) \<Longrightarrow> spec c (rep s) r (rep t)"
  shows "send_all f cs s = (Inr rs, t) \<Longrightarrow> spec_all spec cs (rep s) rs (rep t)"
proof (induction cs arbitrary: s rs)
  case (Cons c cs)
  then obtain r u rs' where "f c s = (Inr r, u)" "send_all f cs u = (Inr rs', t)" "rs = r # rs'"
    by (auto simp: op_bind_eq_Inr_iff op_map_eq_Inr_iff)
  with Cons.IH assms show ?case by (auto intro!: exI [of _ "rep u"])
qed simp

definition spec_named ::
  "(string \<times> 'm) list \<Rightarrow> ('m \<Rightarrow> rvalue list \<Rightarrow> 'a \<Rightarrow> rvalue \<Rightarrow> 'a \<Rightarrow> bool) \<Rightarrow> ruby_call \<Rightarrow> 'a \<Rightarrow> rvalue \<Rightarrow> 'a \<Rightarrow> bool"
where
  "spec_named names spec c a r b \<longleftrightarrow> (\<exists>m. map_of names (fst c) = Some m \<and> spec m (snd c) a r b)"

lemma send_named_refines:
  assumes "\<And>m args s r t. call m args s = (Inr r, t) \<Longrightarrow> spec m args (rep s) r (rep t)"
    and "send_all (send_named names call) cs s = (Inr rs, t)"
  shows "spec_all (spec_named names spec) cs (rep s) rs (rep t)"
  by (rule send_all_refines [OF _ assms(2)])
     (auto simp: send_named_def spec_named_def split: option.splits intro: assms(1))

text \<open>The argument lists the methods tell apart.\<close>

lemma call_args:
  "(args = [] \<Longrightarrow> P) \<Longrightarrow> (\<And>v. args = [v] \<Longrightarrow> P) \<Longrightarrow> (\<And>v w. args = [v, w] \<Longrightarrow> P) \<Longrightarrow>
     (\<And>v w x vs. args = v # w # x # vs \<Longrightarrow> P) \<Longrightarrow> P"
  by (metis list.exhaust)

subsection \<open>ValueState\<close>

datatype value_method = V_get | V_set | V_clear

definition value_names :: "(string \<times> value_method) list" where
  "value_names = [(''get'', V_get), (''value'', V_get), (''set'', V_set), (''value='', V_set), (''clear'', V_clear)]"

fun value_arity :: "value_method \<Rightarrow> nat" where
  "value_arity V_set = 1"
| "value_arity _ = 0"

fun value_call ::
  "'ctx rb_env \<Rightarrow> 'i codec \<Rightarrow> ('s, 'i) value_core \<Rightarrow> value_method \<Rightarrow> rvalue list \<Rightarrow> ('s, rb_error, rvalue) op"
where
  "value_call env cd C V_get [] = value_get env cd C"
| "value_call env cd C V_set [v] = op_map (\<lambda>_. RNil) (value_set env cd C v)"
| "value_call env cd C V_clear [] = op_map (\<lambda>_. RNil) (value_clear env C)"
| "value_call env cd C m args = op_err (arity_error (length args) (value_arity m))"

definition value_send where
  "value_send env cd C = send_named value_names (value_call env cd C)"

text \<open>A register that may be empty, and the core's promises about one.\<close>

fun register_call :: "'i codec \<Rightarrow> value_method \<Rightarrow> rvalue list \<Rightarrow> 'i option \<Rightarrow> rvalue \<Rightarrow> 'i option \<Rightarrow> bool" where
  "register_call cd V_get [] x r y \<longleftrightarrow> restore cd x = Inr r \<and> y = x"
| "register_call cd V_set [v] x r y \<longleftrightarrow> (\<exists>i. prepare cd v = Inr i \<and> y = Some i) \<and> r = RNil"
| "register_call cd V_clear [] x r y \<longleftrightarrow> r = RNil \<and> y = None"
| "register_call cd m args x r y \<longleftrightarrow> False"

definition value_laws :: "('s, 'i) value_core \<Rightarrow> ('s \<Rightarrow> 'i option) \<Rightarrow> bool" where
  "value_laws C g \<longleftrightarrow>
     (\<forall>x s t. vc_get C s = (Inr x, t) \<longrightarrow> x = g s \<and> g t = g s) \<and>
     (\<forall>i s t. vc_set C i s = (Inr (), t) \<longrightarrow> g t = Some i) \<and>
     (\<forall>s t. vc_clear C s = (Inr (), t) \<longrightarrow> g t = None)"

lemma value_lawsD:
  assumes "value_laws C g"
  shows "vc_get C s = (Inr x, t) \<Longrightarrow> x = g s \<and> g t = g s"
    and "vc_set C i s = (Inr (), t) \<Longrightarrow> g t = Some i"
    and "vc_clear C s = (Inr (), t) \<Longrightarrow> g t = None"
  by (insert assms) (unfold value_laws_def, meson+)

lemma value_call_register:
  assumes "value_laws C g" and "value_call env cd C m args s = (Inr r, t)"
  shows "register_call cd m args (g s) r (g t)"
  using assms(2)
  by (cases m; cases args rule: call_args)
     (auto simp: op_map_eq_Inr_iff value_get_def value_set_def value_clear_def write_item_Inr_iff
       read_item_Inr_iff run_state_Inr_iff dest: value_lawsD [OF assms(1)])

text \<open>
  A value handle is a register: any sequence of \<open>get\<close>, \<open>set\<close>, \<open>clear\<close> and their aliases that
  all return answers as a register does, which the store then holds.
\<close>

theorem value_calls_refine_register:
  assumes "value_laws C g" and "send_all (value_send env cd C) calls s = (Inr rs, t)"
  shows "spec_all (spec_named value_names (register_call cd)) calls (g s) rs (g t)"
  by (rule send_named_refines [where rep = g, OF _ assms(2) [unfolded value_send_def]])
     (rule value_call_register [OF assms(1)])

subsection \<open>DequeState\<close>

datatype deque_method =
    D_push | D_append | D_unshift | D_prepend | D_pop | D_shift | D_length | D_empty | D_clear
  | D_get | D_first | D_last

definition deque_names :: "(string \<times> deque_method) list" where
  "deque_names =
     [(''push'', D_push), (''append'', D_append), (''<<'', D_append), (''unshift'', D_unshift),
      (''prepend'', D_prepend), (''pop'', D_pop), (''shift'', D_shift), (''length'', D_length),
      (''size'', D_length), (''empty?'', D_empty), (''clear'', D_clear), (''get'', D_get),
      (''first'', D_first), (''last'', D_last)]"

fun deque_arity :: "deque_method \<Rightarrow> nat" where
  "deque_arity m = (if m \<in> {D_push, D_append, D_unshift, D_prepend, D_get} then 1 else 0)"

fun deque_call ::
  "rvalue \<Rightarrow> 'ctx rb_env \<Rightarrow> (rvalue \<Rightarrow> string) \<Rightarrow> 'i codec \<Rightarrow> ('s, 'i, 'c) deque_core \<Rightarrow> deque_method \<Rightarrow>
    rvalue list \<Rightarrow> ('s, rb_error, rvalue) op"
where
  "deque_call self env inspect cd C D_push [v] = op_map (\<lambda>_. RNil) (deque_push_back env cd C v)"
| "deque_call self env inspect cd C D_append [v] = deque_append self env cd C v"
| "deque_call self env inspect cd C D_unshift [v] = op_map (\<lambda>_. RNil) (deque_push_front env cd C v)"
| "deque_call self env inspect cd C D_prepend [v] = deque_prepend self env cd C v"
| "deque_call self env inspect cd C D_pop [] = deque_pop_back env cd C"
| "deque_call self env inspect cd C D_shift [] = deque_pop_front env cd C"
| "deque_call self env inspect cd C D_length [] = op_map (\<lambda>n. RInteger (uint n)) (deque_len env C)"
| "deque_call self env inspect cd C D_empty [] = op_map RBool (deque_is_empty env C)"
| "deque_call self env inspect cd C D_clear [] = op_map (\<lambda>_. RNil) (deque_clear env C)"
| "deque_call self env inspect cd C D_get [v] = ruby_deque_get env inspect cd C v"
| "deque_call self env inspect cd C D_first [] = deque_peek_front env cd C"
| "deque_call self env inspect cd C D_last [] = deque_peek_back env cd C"
| "deque_call self env inspect cd C m args = op_err (arity_error (length args) (deque_arity m))"

definition deque_send where
  "deque_send self env inspect cd C = send_named deque_names (deque_call self env inspect cd C)"

text \<open>The same methods of an Array of items.\<close>

fun array_call :: "'i codec \<Rightarrow> rvalue \<Rightarrow> deque_method \<Rightarrow> rvalue list \<Rightarrow> 'i list \<Rightarrow> rvalue \<Rightarrow> 'i list \<Rightarrow> bool" where
  "array_call cd self D_push [v] xs r ys \<longleftrightarrow> (\<exists>i. prepare cd v = Inr i \<and> ys = xs @ [i]) \<and> r = RNil"
| "array_call cd self D_append [v] xs r ys \<longleftrightarrow> (\<exists>i. prepare cd v = Inr i \<and> ys = xs @ [i]) \<and> r = self"
| "array_call cd self D_unshift [v] xs r ys \<longleftrightarrow> (\<exists>i. prepare cd v = Inr i \<and> ys = i # xs) \<and> r = RNil"
| "array_call cd self D_prepend [v] xs r ys \<longleftrightarrow> (\<exists>i. prepare cd v = Inr i \<and> ys = i # xs) \<and> r = self"
| "array_call cd self D_pop [] xs r ys \<longleftrightarrow> restore cd (array_at xs (- 1)) = Inr r \<and> ys = butlast xs"
| "array_call cd self D_shift [] xs r ys \<longleftrightarrow> restore cd (array_at xs 0) = Inr r \<and> ys = tl xs"
| "array_call cd self D_length [] xs r ys \<longleftrightarrow> r = RInteger (int (length xs)) \<and> ys = xs"
| "array_call cd self D_empty [] xs r ys \<longleftrightarrow> r = RBool (xs = []) \<and> ys = xs"
| "array_call cd self D_clear [] xs r ys \<longleftrightarrow> r = RNil \<and> ys = []"
| "array_call cd self D_get [RInteger n] xs r ys \<longleftrightarrow>
     (restore cd (array_at xs n) = Inr r \<or> array_at xs n = None \<and> r = RNil) \<and> ys = xs"
| "array_call cd self D_first [] xs r ys \<longleftrightarrow> restore cd (array_at xs 0) = Inr r \<and> ys = xs"
| "array_call cd self D_last [] xs r ys \<longleftrightarrow> restore cd (array_at xs (- 1)) = Inr r \<and> ys = xs"
| "array_call cd self m args xs r ys \<longleftrightarrow> False"

text \<open>What the core documents of the two reads that \<open>deque_laws\<close> leaves out.\<close>

definition deque_front_laws :: "('s, 'i, 'c) deque_core \<Rightarrow> ('s \<Rightarrow> 'i list) \<Rightarrow> bool" where
  "deque_front_laws C q \<longleftrightarrow>
     (\<forall>b s t. dc_is_empty C s = (Inr b, t) \<longrightarrow> b = (q s = []) \<and> q t = q s) \<and>
     (\<forall>x s t. dc_peek_front C s = (Inr x, t) \<longrightarrow>
        x = (if q s = [] then None else Some (hd (q s))) \<and> q t = q s)"

lemma deque_front_lawsD:
  assumes "deque_front_laws C q"
  shows "dc_is_empty C s = (Inr b, t) \<Longrightarrow> b = (q s = []) \<and> q t = q s"
    and "dc_peek_front C s = (Inr x, t) \<Longrightarrow> x = (if q s = [] then None else Some (hd (q s))) \<and> q t = q s"
  using assms unfolding deque_front_laws_def by blast+

lemma deque_len_int: "deque_laws C q \<Longrightarrow> dc_len C s = (Inr n, t) \<Longrightarrow> uint n = int (length (q s)) \<and> q t = q s"
  by (metis deque_lawsD(6) int_nat_eq unat_eq_nat_uint unsigned_greater_eq)

lemma array_at_first: "array_at xs 0 = (if xs = [] then None else Some (hd xs))"
  by (simp add: array_at_def hd_conv_nth)

lemma ruby_deque_get_list:
  assumes "deque_laws C q" and "ruby_deque_get env inspect cd C v s = (Inr r, t)"
  shows "array_call cd self D_get [v] (q s) r (q t)"
proof -
  obtain n where v: "v = RInteger n"
    using assms(2) by (cases v) (simp_all add: ruby_deque_get_def)
  have "deque_writes env cd C [] s = (Inr [], s)" by simp
  note read = deque_handle_refines [OF assms(1) this assms(2) [unfolded v], THEN conjunct2]
  have native: "q t = q u" if "native_deque_get env cd C k u = (Inr r, t)" "\<not> k < 0" for k u
    using native_deque_get_at [OF assms(1) _ that(1)] that(2) by simp
  consider "0 \<le> n" | "n = - 1" | "n < 0" "n \<noteq> - 1" by linarith
  then have "q t = q s"
  proof cases
    case 1
    with assms(2) native [of n s] show ?thesis by (simp add: v ruby_deque_get_def)
  next
    case 2
    with assms(2) show ?thesis
      by (auto simp: v ruby_deque_get_def at_negative_def deque_peek_back_def read_item_Inr_iff
          dest: deque_lawsD(7) [OF assms(1)])
  next
    case 3
    with assms(2) obtain len u where len: "dc_len C s = (Inr len, u)"
      and get: "(if uint len + n < 0 then op_ok RNil else native_deque_get env cd C (uint len + n)) u = (Inr r, t)"
      by (auto simp: v ruby_deque_get_def at_negative_def deque_len_def op_bind_eq_Inr_iff
          run_state_Inr_iff Let_def)
    have "q t = q u" using get native by (cases "uint len + n < 0") auto
    with deque_lawsD(6) [OF assms(1) len] show ?thesis by simp
  qed
  with read v show ?thesis by auto
qed

lemma deque_call_array:
  assumes "deque_laws C q" and "deque_front_laws C q"
    and "deque_call self env inspect cd C m args s = (Inr r, t)"
  shows "array_call cd self m args (q s) r (q t)"
proof (cases "m = D_get \<and> (\<exists>v. args = [v])")
  case True
  with assms(3) ruby_deque_get_list [OF assms(1)] show ?thesis by auto
next
  case False
  then show ?thesis
    using assms(3)
    by (cases m; cases args rule: call_args)
       (auto simp: op_map_eq_Inr_iff deque_append_def deque_prepend_def deque_push_back_def
         deque_push_front_def deque_pop_back_def deque_pop_front_def deque_clear_def deque_len_def
         deque_is_empty_def deque_peek_front_def deque_peek_back_def write_item_Inr_iff
         read_item_Inr_iff run_state_Inr_iff array_at_first array_at_last
         dest: deque_lawsD(1-5,7,8) [OF assms(1)] deque_len_int [OF assms(1)] deque_front_lawsD [OF assms(2)])
qed


lemma list_deque_core_front_laws: "deque_front_laws list_deque_core id"
  by (auto simp: deque_front_laws_def list_deque_core_def)


subsection \<open>MapState\<close>

datatype map_method = M_get | M_set | M_store | M_delete | M_clear | M_key | M_empty

definition map_names :: "(string \<times> map_method) list" where
  "map_names =
     [(''get'', M_get), (''[]'', M_get), (''set'', M_set), (''[]='', M_set), (''store'', M_store),
      (''delete'', M_delete), (''clear'', M_clear), (''key?'', M_key), (''has_key?'', M_key),
      (''include?'', M_key), (''member?'', M_key), (''empty?'', M_empty)]"

fun map_arity :: "map_method \<Rightarrow> nat" where
  "map_arity m =
     (if m \<in> {M_set, M_store} then 2 else if m \<in> {M_get, M_delete, M_key} then 1 else 0)"

text \<open>The native methods take the key as a \<open>String\<close>, and convert it before anything else.\<close>

definition with_key :: "rvalue \<Rightarrow> (string \<Rightarrow> ('s, rb_error, 'a) op) \<Rightarrow> ('s, rb_error, 'a) op" where
  "with_key k f = op_bind (op_lift (string_try_convert k)) f"

lemma with_key_Inr_iff: "with_key k f s = (Inr r, t) \<longleftrightarrow> (\<exists>key. k = RString key \<and> f key s = (Inr r, t))"
  by (cases k) (simp_all add: with_key_def op_bind_def)

fun map_call ::
  "'ctx rb_env \<Rightarrow> 'i codec \<Rightarrow> ('s, 'i, 'c, 'k) map_core \<Rightarrow> map_method \<Rightarrow> rvalue list \<Rightarrow> ('s, rb_error, rvalue) op"
where
  "map_call env cd C M_get [k] = with_key k (map_get env cd C)"
| "map_call env cd C M_set [k, v] = with_key k (\<lambda>key. op_map (\<lambda>_. RNil) (map_set env cd C key v))"
| "map_call env cd C M_store [k, v] = with_key k (\<lambda>key. map_store env cd C key v)"
| "map_call env cd C M_delete [k] = with_key k (map_delete env C)"
| "map_call env cd C M_clear [] = op_map (\<lambda>_. RNil) (map_clear env C)"
| "map_call env cd C M_key [k] = with_key k (\<lambda>key. op_map RBool (map_contains_key env C key))"
| "map_call env cd C M_empty [] = op_map RBool (map_is_empty env C)"
| "map_call env cd C m args = op_err (arity_error (length args) (map_arity m))"

definition map_send where
  "map_send env cd C = send_named map_names (map_call env cd C)"

text \<open>The same methods of a Hash of items.\<close>

fun hash_call ::
  "'i codec \<Rightarrow> map_method \<Rightarrow> rvalue list \<Rightarrow> (string \<Rightarrow> 'i option) \<Rightarrow> rvalue \<Rightarrow> (string \<Rightarrow> 'i option) \<Rightarrow> bool"
where
  "hash_call cd M_get [RString k] m r m' \<longleftrightarrow> restore cd (m k) = Inr r \<and> m' = m"
| "hash_call cd M_set [RString k, v] m r m' \<longleftrightarrow> (\<exists>i. prepare cd v = Inr i \<and> m' = m(k \<mapsto> i)) \<and> r = RNil"
| "hash_call cd M_store [RString k, v] m r m' \<longleftrightarrow> (\<exists>i. prepare cd v = Inr i \<and> m' = m(k \<mapsto> i)) \<and> r = v"
| "hash_call cd M_delete [RString k] m r m' \<longleftrightarrow> r = RNil \<and> m' = m(k := None)"
| "hash_call cd M_clear [] m r m' \<longleftrightarrow> r = RNil \<and> m' = Map.empty"
| "hash_call cd M_key [RString k] m r m' \<longleftrightarrow> r = RBool (m k \<noteq> None) \<and> m' = m"
| "hash_call cd M_empty [] m r m' \<longleftrightarrow> r = RBool (m = Map.empty) \<and> m' = m"
| "hash_call cd f args m r m' \<longleftrightarrow> False"

definition map_empty_law :: "('s, 'i, 'c, 'k) map_core \<Rightarrow> ('s \<Rightarrow> string \<Rightarrow> 'i option) \<Rightarrow> bool" where
  "map_empty_law C m \<longleftrightarrow> (\<forall>b s t. mc_is_empty C s = (Inr b, t) \<longrightarrow> b = (m s = Map.empty) \<and> m t = m s)"

lemma map_lawsD:
  assumes "map_laws C m"
  shows "mc_set C k i s = (Inr (), t) \<Longrightarrow> m t = (m s)(k \<mapsto> i)"
    and "mc_remove C k s = (Inr (), t) \<Longrightarrow> m t = (m s)(k := None)"
    and "mc_clear C s = (Inr (), t) \<Longrightarrow> m t = Map.empty"
    and "mc_get C k s = (Inr x, t) \<Longrightarrow> x = m s k \<and> m t = m s"
    and "mc_contains_key C k s = (Inr b, t) \<Longrightarrow> b = (m s k \<noteq> None) \<and> m t = m s"
  by (insert assms) (unfold map_laws_def, meson+)

lemma map_call_hash:
  assumes "map_laws C m" and "map_empty_law C m" and "map_call env cd C f args s = (Inr r, t)"
  shows "hash_call cd f args (m s) r (m t)"
  using assms(3)
  by (cases f; cases args rule: call_args)
     (auto simp: with_key_Inr_iff op_map_eq_Inr_iff map_get_def map_set_def map_store_def map_delete_def
       map_remove_def map_clear_def map_contains_key_def map_is_empty_def write_item_Inr_iff op_bind_eq_Inr_iff
       read_item_Inr_iff run_state_Inr_iff
       dest: map_lawsD [OF assms(1)] assms(2) [unfolded map_empty_law_def, rule_format])


definition hash_map_core :: "(string \<Rightarrow> int option, int, unit, unit) map_core" where
  "hash_map_core = fun_map_core\<lparr>mc_is_empty := (\<lambda>s. (Inr (s = Map.empty), s))\<rparr>"

lemma hash_map_core_laws: "map_laws hash_map_core id" "map_empty_law hash_map_core id"
  by (auto simp: map_laws_def map_empty_law_def hash_map_core_def fun_map_core_def)


end
