(* ===== verification/Published.thy ===== *)
theory Published
  imports Client
begin

text \<open>
  published.rs: the readers of other services' published state. Every read goes through
  \<open>Reads\<close>, which refuses a forked child and raises the same state errors as an owned handle.
  The core's readers are parameters; a key selects the owner's instance of the collection.
\<close>

text \<open>
  Items of the readers are JSON; \<open>serialize\<close> converts a result to Ruby, absent as \<open>nil\<close>, as
  serde_magnus does.
\<close>

record ('s, 'j, 'c, 'k) map_reader =
  mr_get :: "string \<Rightarrow> string \<Rightarrow> ('s, erased_error, 'j option) op"
  mr_get_many :: "string \<Rightarrow> string list \<Rightarrow> ('s, erased_error, 'j option list) op"
  mr_contains_key :: "string \<Rightarrow> string \<Rightarrow> ('s, erased_error, bool) op"
  mr_contains_many :: "string \<Rightarrow> string list \<Rightarrow> ('s, erased_error, bool list) op"
  mr_is_empty :: "string \<Rightarrow> ('s, erased_error, bool) op"
  mr_entries :: "string \<Rightarrow> string builder_call list \<Rightarrow> 'c"
  mr_keys :: "string \<Rightarrow> string builder_call list \<Rightarrow> 'k"

record ('s, 'k) set_reader =
  sr_contains :: "string \<Rightarrow> string \<Rightarrow> ('s, erased_error, bool) op"
  sr_contains_many :: "string \<Rightarrow> string list \<Rightarrow> ('s, erased_error, bool list) op"
  sr_is_empty :: "string \<Rightarrow> ('s, erased_error, bool) op"
  sr_keys :: "string \<Rightarrow> string builder_call list \<Rightarrow> 'k"

record ('s, 'j, 'c) deque_reader =
  dr_get :: "string \<Rightarrow> usize \<Rightarrow> ('s, erased_error, 'j option) op"
  dr_len :: "string \<Rightarrow> ('s, erased_error, usize) op"
  dr_is_empty :: "string \<Rightarrow> ('s, erased_error, bool) op"
  dr_peek_front :: "string \<Rightarrow> ('s, erased_error, 'j option) op"
  dr_peek_back :: "string \<Rightarrow> ('s, erased_error, 'j option) op"
  dr_values :: "string \<Rightarrow> usize builder_call list \<Rightarrow> 'c"

subsection \<open>Reads\<close>

definition reads_read where
  "reads_read m reads env = guarded reads env (run_state env m)"

definition serialize_option :: "('j \<Rightarrow> rb_error + rvalue) \<Rightarrow> 'j option \<Rightarrow> rb_error + rvalue" where
  "serialize_option serialize item = (case item of None \<Rightarrow> Inr RNil | Some j \<Rightarrow> serialize j)"

definition reads_json where
  "reads_json serialize m reads env =
     op_bind (reads_read m reads env) (\<lambda>item. op_lift (serialize_option serialize item))"

definition scan_parts :: "fork_guard \<Rightarrow> 'ctx rb_env \<Rightarrow> rb_error + unit" where
  "scan_parts reads env = fork_check reads env"

subsection \<open>The readers' methods\<close>

definition published_value_get where
  "published_value_get serialize get key reads env = reads_json serialize (get key) reads env"

definition published_map_get where
  "published_map_get serialize C key map_key reads env = reads_json serialize (mr_get C key map_key) reads env"

definition published_map_get_many where
  "published_map_get_many serialize C key wanted reads env =
     op_bind (reads_read (mr_get_many C key wanted) reads env) (\<lambda>values.
       op_lift (traverse (serialize_option serialize) values))"

definition published_map_contains_many where
  "published_map_contains_many C key wanted reads env = reads_read (mr_contains_many C key wanted) reads env"

definition published_map_is_empty where
  "published_map_is_empty C key reads env = reads_read (mr_is_empty C key) reads env"

definition published_map_contains_key where
  "published_map_contains_key C key map_key reads env = reads_read (mr_contains_key C key map_key) reads env"

definition published_map_scan where
  "published_map_scan inspect C key direction options reads env =
     res_bind (key_query env inspect direction options) (\<lambda>query.
       res_map (\<lambda>_. mr_entries C key query) (scan_parts reads env))"

definition published_map_keys where
  "published_map_keys inspect C key direction options reads env =
     res_bind (key_query env inspect direction options) (\<lambda>query.
       res_map (\<lambda>_. mr_keys C key query) (scan_parts reads env))"

definition published_set_contains where
  "published_set_contains C key member reads env = reads_read (sr_contains C key member) reads env"

definition published_set_contains_many where
  "published_set_contains_many C key members reads env = reads_read (sr_contains_many C key members) reads env"

definition published_set_is_empty where
  "published_set_is_empty C key reads env = reads_read (sr_is_empty C key) reads env"

definition published_set_keys where
  "published_set_keys inspect C key direction options reads env =
     res_bind (key_query env inspect direction options) (\<lambda>query.
       res_map (\<lambda>_. sr_keys C key query) (scan_parts reads env))"

definition published_deque_get where
  "published_deque_get serialize C key index reads env = reads_json serialize (dr_get C key index) reads env"

definition published_deque_length where
  "published_deque_length C key reads env = reads_read (dr_len C key) reads env"

definition published_deque_is_empty where
  "published_deque_is_empty C key reads env = reads_read (dr_is_empty C key) reads env"

definition published_deque_peek_front where
  "published_deque_peek_front serialize C key reads env = reads_json serialize (dr_peek_front C key) reads env"

definition published_deque_peek_back where
  "published_deque_peek_back serialize C key reads env = reads_json serialize (dr_peek_back C key) reads env"

definition published_deque_scan where
  "published_deque_scan inspect C key direction options reads env =
     res_bind (position_query env inspect direction options) (\<lambda>query.
       res_map (\<lambda>_. dr_values C key query) (scan_parts reads env))"

subsection \<open>Readers are guarded\<close>

interpretation read_guard: fork_guarded "\<lambda>g. g" "reads_read m" for m
  by (rule fork_guardedI) (rule reads_read_def)

interpretation json_guard: fork_guarded "\<lambda>g. g" "reads_json serialize m" for serialize m
  by unfold_locales (simp add: reads_json_def read_guard.refuse)

interpretation get_many_guard: fork_guarded "\<lambda>g. g" "published_map_get_many serialize C key wanted"
  for serialize C key wanted
  by unfold_locales (simp add: published_map_get_many_def read_guard.refuse)

lemmas read_defs = published_value_get_def published_map_get_def published_map_contains_many_def
  published_map_is_empty_def published_map_contains_key_def published_set_contains_def
  published_set_contains_many_def published_set_is_empty_def published_deque_get_def
  published_deque_length_def published_deque_is_empty_def published_deque_peek_front_def
  published_deque_peek_back_def

text \<open>
  In a forked child no published reader waits: every read raises the fork error, and no
  scan is opened (a bad query is reported first).
\<close>

theorem published_refuses_fork:
  assumes "env_pid env \<noteq> guard_pid g"
  shows "published_value_get ser get k g env s = (Inl (fork_error g), s) \<and>
    published_map_get ser M k mk g env s = (Inl (fork_error g), s) \<and>
    published_map_get_many ser M k mks g env s = (Inl (fork_error g), s) \<and>
    published_map_contains_key M k mk g env s = (Inl (fork_error g), s) \<and>
    published_map_contains_many M k mks g env s = (Inl (fork_error g), s) \<and>
    published_map_is_empty M k g env s = (Inl (fork_error g), s) \<and>
    published_set_contains S k mk g env s = (Inl (fork_error g), s) \<and>
    published_set_contains_many S k mks g env s = (Inl (fork_error g), s) \<and>
    published_set_is_empty S k g env s = (Inl (fork_error g), s) \<and>
    published_deque_get ser D k i g env s = (Inl (fork_error g), s) \<and>
    published_deque_length D k g env s = (Inl (fork_error g), s) \<and>
    published_deque_is_empty D k g env s = (Inl (fork_error g), s) \<and>
    published_deque_peek_front ser D k g env s = (Inl (fork_error g), s) \<and>
    published_deque_peek_back ser D k g env s = (Inl (fork_error g), s) \<and>
    published_map_scan inspect M k d opts g env \<noteq> Inr c \<and>
    published_map_keys inspect M k d opts g env \<noteq> Inr c' \<and>
    published_set_keys inspect S k d opts g env \<noteq> Inr c'' \<and>
    published_deque_scan inspect D k d opts g env \<noteq> Inr c'''"
  using assms
  by (simp add: read_defs read_guard.refuse json_guard.refuse get_many_guard.refuse
      published_map_scan_def published_map_keys_def published_set_keys_def published_deque_scan_def
      scan_parts_def fork_check_refuse res_bind_eq_Inr_iff)

theorem published_refuses_fork_witness:
  "published_value_get (\<lambda>n. Inr (RInteger n)) (\<lambda>_ n. (Inr (Some n), n + 1)) ''k''
     \<lparr>guard_pid = 1, guard_class = ''Prosody::Client''\<rparr> sample_env 5 =
     (Inl (fork_error \<lparr>guard_pid = 1, guard_class = ''Prosody::Client''\<rparr>), 5)"
  by (rule published_refuses_fork [THEN conjunct1]) (simp add: sample_env_def)

end
