(* ===== verification/State_Scans.thy ===== *)
theory State_Scans
  imports State_Wrappers Published
begin

text \<open>
  The traversals of lib/prosody/state.rb with the block they run (\<open>Scanning#traverse\<close> and
  \<open>traverse_values\<close>), and \<open>PublishedDeque#get\<close> of lib/prosody/state/deque.rb, which reads a
  deque that another process goes on writing.
\<close>

subsection \<open>Traversals\<close>

text \<open>
  \<open>chunk.each(&block)\<close>: a block that raises ends it. The block works on the handler's own
  state, which is apart from the cursor's.
\<close>

fun each_item :: "('a \<Rightarrow> ('w, rb_error, unit) op) \<Rightarrow> 'a list \<Rightarrow> ('w, rb_error, unit) op" where
  "each_item block [] = op_ok ()"
| "each_item block (v # vs) = op_bind (block v) (\<lambda>_. each_item block vs)"

text \<open>The loop; the number bounds its iterations, and \<open>None\<close> is a loop that has not ended by then.\<close>

fun scan_each ::
  "'ctx rb_env \<Rightarrow> ('i \<Rightarrow> rb_error + rvalue) \<Rightarrow> ('s, 'i) cursor_core \<Rightarrow>
    (rvalue \<Rightarrow> ('w, rb_error, unit) op) \<Rightarrow> nat \<Rightarrow> 's \<Rightarrow> 'w \<Rightarrow> (rb_error + unit) option \<times> 's \<times> 'w"
where
  "scan_each env convert C block 0 s w = (None, s, w)"
| "scan_each env convert C block (Suc n) s w =
     (case next_chunk env convert C s of
        (Inl e, s) \<Rightarrow> (Some (Inl e), s, w)
      | (Inr None, s) \<Rightarrow> (Some (Inr ()), s, w)
      | (Inr (Some chunk), s) \<Rightarrow>
          (case each_item block chunk w of
             (Inl e, w) \<Rightarrow> (Some (Inl e), s, w)
           | (Inr _, w) \<Rightarrow> scan_each env convert C block n s w))"

text \<open>
  The whole traversal: \<open>opened\<close> is the cursor, or what opening it raised (a bad query, say).
  The \<open>ensure\<close> closes a cursor there is; an exception raised by that wins. Without a block the
  code returns an Enumerator, which is this function without its last arguments: each use of
  it opens a cursor of its own.
\<close>

definition traverse_each ::
  "'ctx rb_env \<Rightarrow> ('i \<Rightarrow> rb_error + rvalue) \<Rightarrow> ('s, 'i) cursor_core \<Rightarrow> nat \<Rightarrow> rb_error + 's \<Rightarrow>
    (rvalue \<Rightarrow> ('w, rb_error, unit) op) \<Rightarrow> 'w \<Rightarrow> (rb_error + unit) option \<times> 's option \<times> 'w"
where
  "traverse_each env convert C n opened block w =
     (case opened of
        Inl e \<Rightarrow> (Some (Inl e), None, w)
      | Inr s \<Rightarrow>
          (case scan_each env convert C block n s w of
             (None, s, w) \<Rightarrow> (None, Some s, w)
           | (Some r, s, w) \<Rightarrow>
               (case close_cursor env C s of
                  (Inl e, s) \<Rightarrow> (Some (Inl e), Some s, w)
                | (Inr _, s) \<Rightarrow> (Some r, Some s, w))))"

text \<open>\<open>traverse_values\<close>: the block gets \<open>entry[1]\<close> of each pair.\<close>

definition traverse_values ::
  "'ctx rb_env \<Rightarrow> (rvalue \<Rightarrow> rvalue) \<Rightarrow> ('i \<Rightarrow> rb_error + rvalue) \<Rightarrow> ('s, 'i) cursor_core \<Rightarrow> nat \<Rightarrow>
    rb_error + 's \<Rightarrow> (rvalue \<Rightarrow> ('w, rb_error, unit) op) \<Rightarrow> 'w \<Rightarrow>
    (rb_error + unit) option \<times> 's option \<times> 'w"
where
  "traverse_values env second convert C n opened block =
     traverse_each env convert C n opened (\<lambda>entry. block (second entry))"

lemma each_item_append:
  "each_item block (xs @ ys) = op_bind (each_item block xs) (\<lambda>_. each_item block ys)"
  by (induction xs) (auto simp: op_bind_def op_ok_def fun_eq_iff split: prod.splits sum.splits)

lemma each_item_map: "each_item block (map f xs) = each_item (\<lambda>x. block (f x)) xs"
  by (induction xs) simp_all

lemma scan_each_items:
  assumes env: "traced env" and laws: "cursor_laws C rest" and convert: "\<And>x. convert x = Inr (g x)"
    and "length (rest s) < n"
  shows "\<exists>t. scan_each env convert C block n s w =
    (Some (fst (each_item block (map g (rest s)) w)), t, snd (each_item block (map g (rest s)) w))"
  using assms(4)
proof (induction n arbitrary: s w)
  case (Suc n)
  have "0 < SCAN_READY_CHUNK_SIZE" by (simp add: SCAN_READY_CHUNK_SIZE_def)
  with laws obtain t where
    "cu_next_ready_chunk C SCAN_READY_CHUNK_SIZE s = (Inr None, t) \<and> rest s = [] \<and> rest t = [] \<or>
     (\<exists>xs. cu_next_ready_chunk C SCAN_READY_CHUNK_SIZE s = (Inr (Some xs), t) \<and>
        xs \<noteq> [] \<and> length xs \<le> unat SCAN_READY_CHUNK_SIZE \<and> rest s = xs @ rest t)"
    unfolding cursor_laws_def by blast
  then consider
      (empty) "cu_next_ready_chunk C SCAN_READY_CHUNK_SIZE s = (Inr None, t)" "rest s = []"
    | (chunk) xs where "cu_next_ready_chunk C SCAN_READY_CHUNK_SIZE s = (Inr (Some xs), t)"
        "xs \<noteq> []" "rest s = xs @ rest t"
    by blast
  then show ?case
  proof cases
    case empty
    then show ?thesis using next_chunk_traced [OF env empty(1), of convert g] by simp
  next
    case chunk
    have next_chunk: "next_chunk env convert C s = (Inr (map_option (map g) (Some xs)), t)"
      by (rule next_chunk_traced [OF env chunk(1)]) (simp add: convert)
    have "length (rest t) < n" using Suc.prems chunk by (cases xs) auto
    from Suc.IH [OF this] show ?thesis
      by (auto simp: next_chunk chunk(3) each_item_append op_bind_def split: prod.splits sum.splits)
  qed
qed simp

text \<open>
  C19: A traversal runs its block on every remaining item, in order and once each, as \<open>each\<close>
  on the list of them would: it ends, with the block's exception if there is one, after which
  no further item is read; and in every case the cursor is closed. A traversal that could not
  be opened runs nothing and has nothing to close.
\<close>

theorem traversal_runs_block:
  assumes "traced env" and "cursor_laws C rest" and "\<And>x. convert x = Inr (g x)"
  defines "block_on_items \<equiv> (\<lambda>block s. each_item block (map g (rest s)))"
  shows "(\<exists>t. traverse_each env convert C (Suc (length (rest s))) (Inr s) block w =
      (Some (fst (block_on_items block s w)), Some (snd (cu_close C t)), snd (block_on_items block s w))) \<and>
    (\<exists>t. traverse_values env second convert C (Suc (length (rest s))) (Inr s) block w =
      (Some (fst (each_item block (map (second \<circ> g) (rest s)) w)), Some (snd (cu_close C t)),
       snd (each_item block (map (second \<circ> g) (rest s)) w))) \<and>
    traverse_each env convert C n (Inl e) block w = (Some (Inl e), None, w)"
proof -
  have close: "close_cursor env C t = (Inr (fst (cu_close C t)), snd (cu_close C t))" for t
    using assms(1) by (simp add: close_cursor_def traced_def)
  have run: "\<exists>t. traverse_each env convert C (Suc (length (rest s))) (Inr s) b w =
      (Some (fst (each_item b (map g (rest s)) w)), Some (snd (cu_close C t)), snd (each_item b (map g (rest s)) w))" for b
  proof -
    have "\<exists>t. scan_each env convert C b (Suc (length (rest s))) s w =
        (Some (fst (each_item b (map g (rest s)) w)), t, snd (each_item b (map g (rest s)) w))"
      by (rule scan_each_items [OF assms(1,2)]) (simp_all add: assms(3))
    then show ?thesis by (auto simp: traverse_each_def close simp del: scan_each.simps)
  qed
  have entries: "each_item (\<lambda>entry. block (second entry)) (map g (rest s)) =
      each_item block (map (second \<circ> g) (rest s))"
    by (simp add: each_item_map)
  show ?thesis
    using run [of block] run [of "\<lambda>entry. block (second entry)"]
    by (simp add: block_on_items_def traverse_values_def entries) (simp add: traverse_each_def)
qed

definition collect_until :: "rvalue \<Rightarrow> rvalue \<Rightarrow> (rvalue list, rb_error, unit) op" where
  "collect_until stop v =
     (\<lambda>seen. if v = stop then (Inl (runtime_error ''enough''), seen) else (Inr (), seen @ [v]))"

theorem traversal_runs_block_witness:
  "\<exists>t. traverse_each sample_env (\<lambda>n. Inr (RInteger n)) list_cursor 4 (Inr [5, 6, 7])
      (collect_until (RInteger 6)) [] =
     (Some (Inl (runtime_error ''enough'')), Some t, [RInteger 5])"
proof -
  let ?block = "collect_until (RInteger 6)"
  have items: "each_item ?block (map RInteger (id [5, 6, 7])) [] = (Inl (runtime_error ''enough''), [RInteger 5])"
    by (simp add: collect_until_def op_bind_def)
  have len: "Suc (length (id [5, 6, 7 :: int])) = 4" by simp
  from traversal_runs_block [OF sample_env_traced list_cursor_laws, of "\<lambda>n. Inr (RInteger n)" RInteger
      "[5, 6, 7]" ?block "[]", THEN conjunct1]
  show ?thesis unfolding items len by auto
qed

subsection \<open>Negative indexes of published deques\<close>

definition published_deque_at where
  "published_deque_at serialize C key index reads env =
     op_bind (op_lift (usize_argument index)) (\<lambda>i. published_deque_get serialize C key i reads env)"

text \<open>
  \<open>PublishedDeque#get\<close>. The deque belongs to another process: \<open>between\<close> is what is committed
  to it after the length has been read.
\<close>

definition ruby_published_deque_get where
  "ruby_published_deque_get inspect serialize C key index between reads env =
     (case index of
        RInteger n \<Rightarrow>
          if \<not> n < 0 then published_deque_at serialize C key n reads env
          else if n = - 1 then published_deque_peek_back serialize C key reads env
          else op_bind (published_deque_length C key reads env) (\<lambda>len.
            op_bind (\<lambda>s. (Inr (), between s)) (\<lambda>_.
              let resolved = uint len + n
              in if resolved < 0 then op_ok RNil
                 else published_deque_at serialize C key resolved reads env))
      | _ \<Rightarrow> op_err (Rb_error (Prosody_class ''TransientStateError'')
               (''get: index must be an Integer, got '' @ inspect index)))"

text \<open>What a reader's calls say of the committed deque, a list by user key.\<close>

definition deque_reader_laws :: "('s, 'j, 'c) deque_reader \<Rightarrow> ('s \<Rightarrow> string \<Rightarrow> 'j list) \<Rightarrow> bool" where
  "deque_reader_laws C q \<longleftrightarrow>
     (\<forall>k n s t. dr_len C k s = (Inr n, t) \<longrightarrow> unat n = length (q s k) \<and> q t = q s) \<and>
     (\<forall>k x s t. dr_peek_back C k s = (Inr x, t) \<longrightarrow>
        x = (if q s k = [] then None else Some (last (q s k))) \<and> q t = q s) \<and>
     (\<forall>k i x s t. dr_get C k i s = (Inr x, t) \<longrightarrow>
        x = (if unat i < length (q s k) then Some (q s k ! unat i) else None) \<and> q t = q s)"

lemma reads_read_Inr_iff:
  "reads_read m reads env s = (Inr v, t) \<longleftrightarrow> env_pid env = guard_pid reads \<and> traced env \<and> m s = (Inr v, t)"
  by (cases "env_pid env = guard_pid reads") (simp_all add: reads_read_def run_state_Inr_iff guarded_refuse)

lemma reads_json_Inr:
  "reads_json serialize m reads env s = (Inr v, t) \<Longrightarrow> \<exists>x. m s = (Inr x, t) \<and> serialize_option serialize x = Inr v"
  by (auto simp: reads_json_def op_bind_eq_Inr_iff reads_read_Inr_iff)

lemma published_deque_at_value:
  assumes "deque_reader_laws C q" "0 \<le> n" "published_deque_at serialize C key n reads env s = (Inr v, t)"
  shows "serialize_option serialize (array_at (q s key) n) = Inr v"
proof -
  obtain i x where i: "usize_try_from n = Some i"
    and get: "dr_get C key i s = (Inr x, t)" and v: "serialize_option serialize x = Inr v"
    using assms(3)
    by (auto simp: published_deque_at_def usize_argument_def published_deque_get_def op_bind_eq_Inr_iff
        split: option.splits dest!: reads_json_Inr)
  have n: "n = int (unat i)" using usize_try_from_SomeD [OF i] by simp
  from assms(1) get have "x = (if unat i < length (q s key) then Some (q s key ! unat i) else None)"
    by (simp add: deque_reader_laws_def)
  with v show ?thesis unfolding n array_at_nat by simp
qed

text \<open>
  C32: What a published deque gives for an index, when the read succeeds. A non-negative index
  and \<open>-1\<close> read one committed version of it, as \<open>Array#[]\<close> does. Any other negative index is
  resolved against the length of the version before the owner's next commits, and read from
  the version after them: that is the element \<open>Array#[]\<close> gives only when those commits leave
  the deque as it was.
\<close>

theorem published_deque_reads:
  assumes laws: "deque_reader_laws C q" and owner: "\<And>s. q (between s) key = f (q s key)"
    and get: "ruby_published_deque_get inspect serialize C key (RInteger n) between reads env s = (Inr v, u)"
  shows "(- 1 \<le> n \<longrightarrow> serialize_option serialize (array_at (q s key) n) = Inr v) \<and>
    (n < - 1 \<longrightarrow> (let resolved = int (length (q s key)) + n in
       serialize_option serialize (if resolved < 0 then None else array_at (f (q s key)) resolved) = Inr v)) \<and>
    (f (q s key) = q s key \<longrightarrow> serialize_option serialize (array_at (q s key) n) = Inr v)"
proof (cases "n < - 1")
  case False
  then have "serialize_option serialize (array_at (q s key) n) = Inr v"
  proof (cases "n = - 1")
    case True
    with get obtain x where "dr_peek_back C key s = (Inr x, u)" "serialize_option serialize x = Inr v"
      by (auto simp: ruby_published_deque_get_def published_deque_peek_back_def dest!: reads_json_Inr)
    with laws True show ?thesis by (auto simp: deque_reader_laws_def array_at_last)
  next
    case other: False
    with False have "0 \<le> n" by simp
    with get published_deque_at_value [OF laws this] show ?thesis by (simp add: ruby_published_deque_get_def)
  qed
  with False show ?thesis by simp
next
  case True
  with get obtain len t where len: "dr_len C key s = (Inr len, t)"
    and read: "(if uint len + n < 0 then op_ok RNil
        else published_deque_at serialize C key (uint len + n) reads env) (between t) = (Inr v, u)"
    by (auto simp: ruby_published_deque_get_def published_deque_length_def op_bind_eq_Inr_iff
        reads_read_Inr_iff Let_def)
  from laws len have l: "unat len = length (q s key)" and t: "q t = q s"
    by (auto simp: deque_reader_laws_def)
  from l have resolved: "uint len = int (length (q s key))" by (simp flip: l)
  have "serialize_option serialize
      (if int (length (q s key)) + n < 0 then None else array_at (f (q s key)) (int (length (q s key)) + n)) = Inr v"
  proof (cases "int (length (q s key)) + n < 0")
    case lt: True
    with read resolved show ?thesis by (simp add: serialize_option_def)
  next
    case ge: False
    with read resolved have "published_deque_at serialize C key (int (length (q s key)) + n) reads env (between t) = (Inr v, u)"
      by simp
    from published_deque_at_value [OF laws _ this] ge show ?thesis by (simp add: owner t)
  qed
  moreover have "array_at (q s key) n =
      (if int (length (q s key)) + n < 0 then None else array_at (q s key) (int (length (q s key)) + n))"
    using True by (simp add: array_at_def Let_def)
  ultimately show ?thesis using True by (cases "f (q s key) = q s key"; cases "int (length (q s key)) + n < 0") (simp_all add: Let_def)
qed

definition list_deque_reader :: "(int list, int, unit) deque_reader" where
  "list_deque_reader = \<lparr>dr_get = (\<lambda>_ i s. (Inr (if unat i < length s then Some (s ! unat i) else None), s)),
     dr_len = (\<lambda>_ s. if length s < 2 ^ 64 then (Inr (of_nat (length s)), s)
       else (Inl \<lparr>er_category = Erased_transient, er_message = ''too long''\<rparr>, s)),
     dr_is_empty = (\<lambda>_ s. (Inr (s = []), s)),
     dr_peek_front = (\<lambda>_ s. (Inr (if s = [] then None else Some (hd s)), s)),
     dr_peek_back = (\<lambda>_ s. (Inr (if s = [] then None else Some (last s)), s)),
     dr_values = (\<lambda>_ _. ())\<rparr>"

lemma list_deque_reader_laws: "deque_reader_laws list_deque_reader (\<lambda>s _. s)"
  by (auto simp: deque_reader_laws_def list_deque_reader_def unat_of_nat take_bit_nat_eq_self split: if_splits)

text \<open>
  The owner shifts an element between the two reads: the second element from the back is 2
  before and after, and 3 is read.
\<close>

theorem published_deque_reads_witness:
  "array_at [1, 2, 3 :: int] (- 2) = Some 2 \<and> array_at (tl [1, 2, 3 :: int]) (- 2) = Some 2 \<and>
   ruby_published_deque_get (\<lambda>_. []) (\<lambda>i. Inr (RInteger i)) list_deque_reader ''k'' (RInteger (- 2)) tl
      \<lparr>guard_pid = env_pid sample_env, guard_class = ''Prosody::Client''\<rparr> sample_env [1, 2, 3] =
     (Inr (RInteger 3), [2, 3]) \<and>
   serialize_option (\<lambda>i. Inr (RInteger i)) (array_at (tl [1, 2, 3]) 1) = Inr (RInteger 3)"
proof -
  let ?reads = "\<lparr>guard_pid = env_pid sample_env, guard_class = ''Prosody::Client''\<rparr>"
  have get: "ruby_published_deque_get (\<lambda>_. []) (\<lambda>i. Inr (RInteger i)) list_deque_reader ''k'' (RInteger (- 2)) tl
      ?reads sample_env [1, 2, 3] = (Inr (RInteger 3), [2, 3])"
    by (simp add: ruby_published_deque_get_def published_deque_length_def published_deque_at_def
        published_deque_get_def reads_json_def reads_read_def usize_argument_def usize_try_from_def
        list_deque_reader_def serialize_option_def sample_env_traced op_bind_def)
  from published_deque_reads [OF list_deque_reader_laws refl get]
  have "serialize_option (\<lambda>i. Inr (RInteger i)) (array_at (tl [1, 2, 3 :: int]) 1) = Inr (RInteger 3)"
    by (simp add: Let_def)
  with get show ?thesis by (simp add: array_at_def)
qed

end
