(* ===== verification/Ruby_Config.thy ===== *)
theory Ruby_Config
  imports State_Definitions
begin

text \<open>
  The configuration object of lib/prosody/configuration.rb, and the way of its options into
  the native configuration: the converter of each option, the assignments, \<open>to_hash\<close>, and
  the deserialization into \<open>NativeConfiguration\<close> that \<open>Client::new\<close> makes (client/mod.rs; the
  table of fields is the struct of client/config/mod.rs).

  Parameters: what Ruby makes of user-defined objects and of numbers written as strings
  (\<open>ruby_conv\<close>), and serde_magnus's conversions of single values (\<open>serde_lib\<close>).
\<close>

subsection \<open>Converted values\<close>

datatype collection_value = Serialized state_collection_config | Raw rvalue

datatype config_value =
    CV_strings "string list"
  | CV_bool bool
  | CV_float f64
  | CV_int int
  | CV_string string
  | CV_symbol string
  | CV_collections "collection_value list"

record ruby_conv =
  rc_to_s :: "rvalue \<Rightarrow> string"
  rc_inspect :: "rvalue \<Rightarrow> string"
  rc_to_a :: "rvalue \<Rightarrow> (string list) option" \<comment> \<open>\<open>to_a.map(&:to_s)\<close> of a Range or another object\<close>
  rc_int_to_f :: "int \<Rightarrow> f64" \<comment> \<open>\<open>Integer#to_f\<close>\<close>
  rc_parse_int :: "string \<Rightarrow> int option"
  rc_parse_float :: "string \<Rightarrow> f64 option"
  rc_object_int :: "nat \<Rightarrow> rb_error + int"
  rc_object_float :: "nat \<Rightarrow> rb_error + f64"
  rc_object_seconds :: "nat \<Rightarrow> f64 option" \<comment> \<open>\<open>to_f\<close> of an \<open>ActiveSupport::Duration\<close> or other \<open>Numeric\<close>\<close>
  rc_elements :: "rvalue \<Rightarrow> rvalue list" \<comment> \<open>\<open>[v]\<close> of a Hash, else \<open>Array(v)\<close>\<close>
  rc_definition :: "rvalue \<Rightarrow> state_definition option" \<comment> \<open>responds to \<open>to_state_config\<close>\<close>

text \<open>\<open>Kernel#Integer\<close> and \<open>Kernel#Float\<close>; a float is truncated towards zero.\<close>

definition truncate_rat :: "rat \<Rightarrow> int" where
  "truncate_rat r = (if 0 \<le> r then \<lfloor>r\<rfloor> else \<lceil>r\<rceil>)"

fun kernel_integer :: "ruby_conv \<Rightarrow> rvalue \<Rightarrow> rb_error + int" where
  "kernel_integer conv (RInteger n) = Inr n"
| "kernel_integer conv (RFloat (F64 r)) = Inr (truncate_rat r)"
| "kernel_integer conv (RFloat x) = Inl (Rb_error (Core_class ''FloatDomainError'') (rc_inspect conv (RFloat x)))"
| "kernel_integer conv (RString s) =
     (case rc_parse_int conv s of
        Some n \<Rightarrow> Inr n
      | None \<Rightarrow> Inl (argument_error (''invalid value for Integer(): '' @ rc_inspect conv (RString s))))"
| "kernel_integer conv (RObject k) = rc_object_int conv k"
| "kernel_integer conv v = Inl (Rb_error type_error_class ''can't convert into Integer'')"

fun kernel_float :: "ruby_conv \<Rightarrow> rvalue \<Rightarrow> rb_error + f64" where
  "kernel_float conv (RInteger n) = Inr (rc_int_to_f conv n)"
| "kernel_float conv (RFloat x) = Inr x"
| "kernel_float conv (RString s) =
     (case rc_parse_float conv s of
        Some x \<Rightarrow> Inr x
      | None \<Rightarrow> Inl (argument_error (''invalid value for Float(): '' @ rc_inspect conv (RString s))))"
| "kernel_float conv (RObject k) = rc_object_float conv k"
| "kernel_float conv v = Inl (Rb_error type_error_class ''can't convert into Float'')"

subsection \<open>Converters\<close>

datatype config_kind =
    K_strings | K_bool | K_duration | K_integer | K_string | K_float | K_collections
  | K_read_cache | K_mode | K_probe_port

fun strings_converter :: "ruby_conv \<Rightarrow> string \<Rightarrow> rvalue \<Rightarrow> rb_error + string list" where
  "strings_converter conv name (RString s) = Inr [s]"
| "strings_converter conv name v =
     (case rc_to_a conv v of
        Some xs \<Rightarrow> Inr xs
      | None \<Rightarrow> Inl (argument_error (''Invalid type for '' @ name)))"

fun duration_converter :: "ruby_conv \<Rightarrow> rvalue \<Rightarrow> rb_error + f64" where
  "duration_converter conv (RInteger n) = Inr (rc_int_to_f conv n)"
| "duration_converter conv (RFloat x) = Inr x"
| "duration_converter conv v =
     (case (case v of RObject k \<Rightarrow> rc_object_seconds conv k | _ \<Rightarrow> None) of
        Some x \<Rightarrow> Inr x
      | None \<Rightarrow> Inl (argument_error (''Invalid type for duration: '' @ rc_inspect conv v)))"

definition collections_converter :: "ruby_conv \<Rightarrow> rvalue \<Rightarrow> collection_value list" where
  "collections_converter conv v =
     map (\<lambda>d. case rc_definition conv d of Some sd \<Rightarrow> Serialized (to_state_config sd) | None \<Rightarrow> Raw d)
       (rc_elements conv v)"

text \<open>
  \<open>String#downcase\<close> on the ASCII letters: no other letter is lowered to one of the three names.
\<close>

definition downcase :: "string \<Rightarrow> string" where
  "downcase s =
     map (\<lambda>c. let n = (of_char c :: nat) in if 65 \<le> n \<and> n \<le> 90 then char_of (n + 32) else c) s"

definition mode_converter :: "ruby_conv \<Rightarrow> rvalue \<Rightarrow> rb_error + string" where
  "mode_converter conv v =
     (let s = downcase (rc_to_s conv v) in
      if s = ''pipeline'' then Inr ''pipeline''
      else if s = ''low_latency'' then Inr ''low_latency''
      else if s = ''best_effort'' then Inr ''best_effort''
      else Inl (argument_error (''Invalid mode: '' @ rc_to_s conv v)))"

definition probe_port_converter :: "ruby_conv \<Rightarrow> rvalue \<Rightarrow> rb_error + config_value" where
  "probe_port_converter conv v =
     (if v = RBool False \<or> v = RSymbol ''disabled'' \<or> v = RString ''disabled'' then Inr (CV_bool False)
      else res_bind (kernel_integer conv v) (\<lambda>port.
        if 0 \<le> port \<and> port \<le> 65535 then Inr (CV_int port)
        else Inl (argument_error ''Invalid port number'')))"

text \<open>A converter of the named option; it is not called on \<open>nil\<close>.\<close>

fun convert_option :: "ruby_conv \<Rightarrow> string \<Rightarrow> config_kind \<Rightarrow> rvalue \<Rightarrow> rb_error + config_value" where
  "convert_option conv name K_strings v = res_map CV_strings (strings_converter conv name v)"
| "convert_option conv name K_bool v = Inr (CV_bool (truthy v))"
| "convert_option conv name K_duration v = res_map CV_float (duration_converter conv v)"
| "convert_option conv name K_integer v = res_map CV_int (kernel_integer conv v)"
| "convert_option conv name K_string v = Inr (CV_string (rc_to_s conv v))"
| "convert_option conv name K_float v = res_map CV_float (kernel_float conv v)"
| "convert_option conv name K_collections v = Inr (CV_collections (collections_converter conv v))"
| "convert_option conv name K_read_cache v =
     (case v of RBool b \<Rightarrow> Inr (CV_bool b) | _ \<Rightarrow> res_map CV_float (kernel_float conv v))"
| "convert_option conv name K_mode v = res_map CV_symbol (mode_converter conv v)"
| "convert_option conv name K_probe_port v = probe_port_converter conv v"

definition config_params :: "(string \<times> config_kind) list" where
  "config_params =
     [(''bootstrap_servers'', K_strings), (''subscribed_topics'', K_strings),
      (''allowed_events'', K_strings), (''mock'', K_bool), (''send_timeout'', K_duration),
      (''stall_threshold'', K_duration), (''shutdown_timeout'', K_duration),
      (''poll_interval'', K_duration), (''commit_interval'', K_duration),
      (''statistics_interval'', K_duration), (''retry_base'', K_duration),
      (''max_retry_delay'', K_duration), (''idempotence_cache_size'', K_integer),
      (''idempotence_version'', K_string), (''idempotence_ttl'', K_duration),
      (''max_concurrency'', K_integer), (''max_uncommitted'', K_integer),
      (''max_retries'', K_integer), (''group_id'', K_string), (''source_system'', K_string),
      (''peer_bind_address'', K_string), (''peer_advertised_connect'', K_string),
      (''peer_network_name'', K_string), (''peer_cache_capacity'', K_integer),
      (''peer_registration_ttl'', K_duration), (''failure_topic'', K_string),
      (''cassandra_nodes'', K_strings), (''cassandra_keyspace'', K_string),
      (''cassandra_datacenter'', K_string), (''cassandra_rack'', K_string),
      (''cassandra_user'', K_string), (''cassandra_password'', K_string),
      (''cassandra_retention'', K_duration), (''slab_size'', K_duration),
      (''scheduler_failure_weight'', K_float), (''scheduler_max_wait'', K_duration),
      (''scheduler_wait_weight'', K_float), (''scheduler_cache_size'', K_integer),
      (''monopolization_enabled'', K_bool), (''monopolization_threshold'', K_float),
      (''monopolization_window'', K_duration), (''monopolization_cache_size'', K_integer),
      (''defer_enabled'', K_bool), (''defer_base'', K_duration),
      (''defer_max_delay'', K_duration), (''defer_failure_threshold'', K_float),
      (''defer_failure_window'', K_duration), (''defer_store_cache_size'', K_integer),
      (''loader_cache_size'', K_integer), (''loader_seek_timeout'', K_duration),
      (''loader_discard_threshold'', K_integer), (''timeout'', K_duration),
      (''telemetry_topic'', K_string), (''telemetry_enabled'', K_bool),
      (''message_spans'', K_string), (''timer_spans'', K_string),
      (''state_collections'', K_collections), (''subsystem'', K_string),
      (''state_cache_dir'', K_string), (''state_owned_cache_size'', K_string),
      (''state_memtable_size'', K_string), (''state_read_cache_size'', K_string),
      (''state_read_cache'', K_read_cache), (''mode'', K_mode), (''probe_port'', K_probe_port)]"

subsection \<open>The configuration object\<close>

text \<open>\<open>@config\<close>: an option assigned \<open>nil\<close> has an entry \<open>None\<close>.\<close>

type_synonym configuration = "(string \<times> config_value option) list"

text \<open>
  The setter of an option, by name: \<open>public_send(:"name=", v)\<close>. The names that make an
  operator every object has (\<open>==\<close>, \<open>!=\<close>, \<open>===\<close>) call that and change nothing.
\<close>

definition config_set :: "ruby_conv \<Rightarrow> string \<Rightarrow> rvalue \<Rightarrow> (configuration, rb_error, unit) op" where
  "config_set conv name v config =
     (case map_of config_params name of
        None \<Rightarrow>
          if name \<in> {''='', ''!'', ''==''} then (Inr (), config)
          else (Inl (no_method (name @ ''='')), config)
      | Some kind \<Rightarrow>
          if is_nil v then (Inr (), aset name None config)
          else (case convert_option conv name kind v of
              Inl e \<Rightarrow> (Inl e, config)
            | Inr x \<Rightarrow> (Inr (), aset name (Some x) config)))"

text \<open>A getter: no option has a default, so an unset one reads \<open>nil\<close>.\<close>

definition config_get :: "string \<Rightarrow> configuration \<Rightarrow> config_value option" where
  "config_get name config = (case map_of config name of Some v \<Rightarrow> v | None \<Rightarrow> None)"

fun config_assign :: "ruby_conv \<Rightarrow> (string \<times> rvalue) list \<Rightarrow> (configuration, rb_error, unit) op" where
  "config_assign conv [] = op_ok ()"
| "config_assign conv ((k, v) # kwargs) = op_bind (config_set conv k v) (\<lambda>_. config_assign conv kwargs)"

definition configuration_new ::
  "ruby_conv \<Rightarrow> (string \<times> rvalue) list \<Rightarrow> (configuration, rb_error, unit) op option \<Rightarrow> rb_error + configuration"
where
  "configuration_new conv kwargs block =
     (case op_bind (config_assign conv kwargs) (\<lambda>_. case block of None \<Rightarrow> op_ok () | Some f \<Rightarrow> f) [] of
        (Inl e, _) \<Rightarrow> Inl e
      | (Inr _, config) \<Rightarrow> Inr config)"

definition config_to_hash :: "configuration \<Rightarrow> (string \<times> config_value) list" where
  "config_to_hash config = map (\<lambda>(k, v). (k, the v)) (filter (\<lambda>(_, v). v \<noteq> None) config)"

subsection \<open>The native configuration\<close>

record serde_lib =
  sl_strings :: "config_value \<Rightarrow> string + string list"
  sl_bool :: "config_value \<Rightarrow> string + bool"
  sl_f64 :: "config_value \<Rightarrow> string + f64"
  sl_string :: "config_value \<Rightarrow> string + string"
  sl_u32 :: "config_value \<Rightarrow> string + u32"
  sl_usize :: "config_value \<Rightarrow> string + usize"
  sl_i64 :: "config_value \<Rightarrow> string + i64"
  sl_collections :: "config_value \<Rightarrow> string + state_collection_config list"

datatype field_type =
    T_strings | T_bool | T_f64 | T_string | T_u32 | T_usize | T_i64 | T_collections
  | T_read_cache | T_probe_port

text \<open>\<open>ProbePort::deserialize\<close> on the value, and the untagged \<open>ReadCacheConfig\<close>.\<close>

definition decode_probe_port :: "config_value \<Rightarrow> string + probe_port" where
  "decode_probe_port v =
     (case (case v of
              CV_int n \<Rightarrow> deserialize_probe_port (Untagged_int n)
            | CV_bool b \<Rightarrow> deserialize_probe_port (Untagged_bool b)
            | _ \<Rightarrow> None) of
        Some p \<Rightarrow> Inr p
      | None \<Rightarrow> Inl ''invalid probe port'')"

definition decode_read_cache :: "serde_lib \<Rightarrow> config_value \<Rightarrow> string + read_cache_config" where
  "decode_read_cache L v =
     (case sl_bool L v of
        Inr b \<Rightarrow> Inr (Cache_disabled b)
      | Inl _ \<Rightarrow>
          (case sl_f64 L v of
             Inr x \<Rightarrow> Inr (Cache_ttl x)
           | Inl _ \<Rightarrow> Inl ''data did not match any variant of untagged enum ReadCacheConfig''))"

fun decodes :: "serde_lib \<Rightarrow> field_type \<Rightarrow> config_value \<Rightarrow> string + unit" where
  "decodes L T_strings v = res_map (\<lambda>_. ()) (sl_strings L v)"
| "decodes L T_bool v = res_map (\<lambda>_. ()) (sl_bool L v)"
| "decodes L T_f64 v = res_map (\<lambda>_. ()) (sl_f64 L v)"
| "decodes L T_string v = res_map (\<lambda>_. ()) (sl_string L v)"
| "decodes L T_u32 v = res_map (\<lambda>_. ()) (sl_u32 L v)"
| "decodes L T_usize v = res_map (\<lambda>_. ()) (sl_usize L v)"
| "decodes L T_i64 v = res_map (\<lambda>_. ()) (sl_i64 L v)"
| "decodes L T_collections v = res_map (\<lambda>_. ()) (sl_collections L v)"
| "decodes L T_read_cache v = res_map (\<lambda>_. ()) (decode_read_cache L v)"
| "decodes L T_probe_port v = res_map (\<lambda>_. ()) (decode_probe_port v)"

text \<open>The fields of the struct; each is an \<open>Option\<close>, so an absent one is \<open>None\<close>.\<close>

definition native_fields :: "(string \<times> field_type) list" where
  "native_fields =
     [(''bootstrap_servers'', T_strings), (''mock'', T_bool), (''send_timeout'', T_f64),
      (''group_id'', T_string), (''idempotence_cache_size'', T_u32),
      (''idempotence_version'', T_string), (''idempotence_ttl'', T_f64),
      (''subscribed_topics'', T_strings), (''allowed_events'', T_strings),
      (''source_system'', T_string), (''max_concurrency'', T_u32), (''max_uncommitted'', T_u32),
      (''stall_threshold'', T_f64), (''shutdown_timeout'', T_f64), (''poll_interval'', T_f64),
      (''commit_interval'', T_f64), (''statistics_interval'', T_f64), (''mode'', T_string),
      (''retry_base'', T_f64), (''max_retries'', T_u32), (''max_retry_delay'', T_f64),
      (''failure_topic'', T_string), (''probe_port'', T_probe_port),
      (''cassandra_nodes'', T_strings), (''cassandra_keyspace'', T_string),
      (''cassandra_datacenter'', T_string), (''cassandra_rack'', T_string),
      (''cassandra_user'', T_string), (''cassandra_password'', T_string),
      (''cassandra_retention'', T_f64), (''slab_size'', T_f64),
      (''scheduler_failure_weight'', T_f64), (''scheduler_max_wait'', T_f64),
      (''scheduler_wait_weight'', T_f64), (''scheduler_cache_size'', T_u32),
      (''monopolization_enabled'', T_bool), (''monopolization_threshold'', T_f64),
      (''monopolization_window'', T_f64), (''monopolization_cache_size'', T_u32),
      (''defer_enabled'', T_bool), (''defer_base'', T_f64), (''defer_max_delay'', T_f64),
      (''defer_failure_threshold'', T_f64), (''defer_failure_window'', T_f64),
      (''loader_cache_size'', T_u32), (''defer_store_cache_size'', T_u32),
      (''loader_seek_timeout'', T_f64), (''loader_discard_threshold'', T_i64),
      (''timeout'', T_f64), (''telemetry_topic'', T_string), (''telemetry_enabled'', T_bool),
      (''message_spans'', T_string), (''timer_spans'', T_string),
      (''peer_bind_address'', T_string), (''peer_advertised_connect'', T_string),
      (''peer_network_name'', T_string), (''peer_cache_capacity'', T_usize),
      (''peer_registration_ttl'', T_f64), (''state_collections'', T_collections),
      (''subsystem'', T_string), (''state_cache_dir'', T_string),
      (''state_owned_cache_size'', T_string), (''state_memtable_size'', T_string),
      (''state_read_cache_size'', T_string), (''state_read_cache'', T_read_cache)]"

text \<open>The entries are decoded in the hash's order; the first that does not fit ends it.\<close>

fun decode_entries :: "serde_lib \<Rightarrow> (string \<times> config_value) list \<Rightarrow> string + unit" where
  "decode_entries L [] = Inr ()"
| "decode_entries L ((k, v) # h) =
     (case map_of native_fields k of
        None \<Rightarrow> decode_entries L h
      | Some ty \<Rightarrow> res_bind (decodes L ty v) (\<lambda>_. decode_entries L h))"

definition decoded :: "(config_value \<Rightarrow> string + 'a) \<Rightarrow> (string \<times> config_value) list \<Rightarrow> string \<Rightarrow> 'a option" where
  "decoded f h name =
     (case map_of h name of
        None \<Rightarrow> None
      | Some v \<Rightarrow> (case f v of Inr x \<Rightarrow> Some x | Inl _ \<Rightarrow> None))"

definition deserialize_configuration ::
  "serde_lib \<Rightarrow> (string \<times> config_value) list \<Rightarrow> string + native_configuration"
where
  "deserialize_configuration L h =
     res_map (\<lambda>_. \<lparr>
        cfg_bootstrap_servers = decoded (sl_strings L) h ''bootstrap_servers'',
        cfg_mock = decoded (sl_bool L) h ''mock'',
        cfg_send_timeout = decoded (sl_f64 L) h ''send_timeout'',
        cfg_group_id = decoded (sl_string L) h ''group_id'',
        cfg_idempotence_cache_size = decoded (sl_u32 L) h ''idempotence_cache_size'',
        cfg_idempotence_version = decoded (sl_string L) h ''idempotence_version'',
        cfg_idempotence_ttl = decoded (sl_f64 L) h ''idempotence_ttl'',
        cfg_subscribed_topics = decoded (sl_strings L) h ''subscribed_topics'',
        cfg_allowed_events = decoded (sl_strings L) h ''allowed_events'',
        cfg_source_system = decoded (sl_string L) h ''source_system'',
        cfg_max_concurrency = decoded (sl_u32 L) h ''max_concurrency'',
        cfg_max_uncommitted = decoded (sl_u32 L) h ''max_uncommitted'',
        cfg_stall_threshold = decoded (sl_f64 L) h ''stall_threshold'',
        cfg_shutdown_timeout = decoded (sl_f64 L) h ''shutdown_timeout'',
        cfg_poll_interval = decoded (sl_f64 L) h ''poll_interval'',
        cfg_commit_interval = decoded (sl_f64 L) h ''commit_interval'',
        cfg_statistics_interval = decoded (sl_f64 L) h ''statistics_interval'',
        cfg_mode = decoded (sl_string L) h ''mode'',
        cfg_retry_base = decoded (sl_f64 L) h ''retry_base'',
        cfg_max_retries = decoded (sl_u32 L) h ''max_retries'',
        cfg_max_retry_delay = decoded (sl_f64 L) h ''max_retry_delay'',
        cfg_failure_topic = decoded (sl_string L) h ''failure_topic'',
        cfg_probe_port = decoded decode_probe_port h ''probe_port'',
        cfg_cassandra_nodes = decoded (sl_strings L) h ''cassandra_nodes'',
        cfg_cassandra_keyspace = decoded (sl_string L) h ''cassandra_keyspace'',
        cfg_cassandra_datacenter = decoded (sl_string L) h ''cassandra_datacenter'',
        cfg_cassandra_rack = decoded (sl_string L) h ''cassandra_rack'',
        cfg_cassandra_user = decoded (sl_string L) h ''cassandra_user'',
        cfg_cassandra_password = decoded (sl_string L) h ''cassandra_password'',
        cfg_cassandra_retention = decoded (sl_f64 L) h ''cassandra_retention'',
        cfg_slab_size = decoded (sl_f64 L) h ''slab_size'',
        cfg_scheduler_failure_weight = decoded (sl_f64 L) h ''scheduler_failure_weight'',
        cfg_scheduler_max_wait = decoded (sl_f64 L) h ''scheduler_max_wait'',
        cfg_scheduler_wait_weight = decoded (sl_f64 L) h ''scheduler_wait_weight'',
        cfg_scheduler_cache_size = decoded (sl_u32 L) h ''scheduler_cache_size'',
        cfg_monopolization_enabled = decoded (sl_bool L) h ''monopolization_enabled'',
        cfg_monopolization_threshold = decoded (sl_f64 L) h ''monopolization_threshold'',
        cfg_monopolization_window = decoded (sl_f64 L) h ''monopolization_window'',
        cfg_monopolization_cache_size = decoded (sl_u32 L) h ''monopolization_cache_size'',
        cfg_defer_enabled = decoded (sl_bool L) h ''defer_enabled'',
        cfg_defer_base = decoded (sl_f64 L) h ''defer_base'',
        cfg_defer_max_delay = decoded (sl_f64 L) h ''defer_max_delay'',
        cfg_defer_failure_threshold = decoded (sl_f64 L) h ''defer_failure_threshold'',
        cfg_defer_failure_window = decoded (sl_f64 L) h ''defer_failure_window'',
        cfg_loader_cache_size = decoded (sl_u32 L) h ''loader_cache_size'',
        cfg_defer_store_cache_size = decoded (sl_u32 L) h ''defer_store_cache_size'',
        cfg_loader_seek_timeout = decoded (sl_f64 L) h ''loader_seek_timeout'',
        cfg_loader_discard_threshold = decoded (sl_i64 L) h ''loader_discard_threshold'',
        cfg_timeout = decoded (sl_f64 L) h ''timeout'',
        cfg_telemetry_topic = decoded (sl_string L) h ''telemetry_topic'',
        cfg_telemetry_enabled = decoded (sl_bool L) h ''telemetry_enabled'',
        cfg_message_spans = decoded (sl_string L) h ''message_spans'',
        cfg_timer_spans = decoded (sl_string L) h ''timer_spans'',
        cfg_peer_bind_address = decoded (sl_string L) h ''peer_bind_address'',
        cfg_peer_advertised_connect = decoded (sl_string L) h ''peer_advertised_connect'',
        cfg_peer_network_name = decoded (sl_string L) h ''peer_network_name'',
        cfg_peer_cache_capacity = decoded (sl_usize L) h ''peer_cache_capacity'',
        cfg_peer_registration_ttl = decoded (sl_f64 L) h ''peer_registration_ttl'',
        cfg_state_collections = decoded (sl_collections L) h ''state_collections'',
        cfg_subsystem = decoded (sl_string L) h ''subsystem'',
        cfg_state_cache_dir = decoded (sl_string L) h ''state_cache_dir'',
        cfg_state_owned_cache_size = decoded (sl_string L) h ''state_owned_cache_size'',
        cfg_state_memtable_size = decoded (sl_string L) h ''state_memtable_size'',
        cfg_state_read_cache_size = decoded (sl_string L) h ''state_read_cache_size'',
        cfg_state_read_cache = decoded (decode_read_cache L) h ''state_read_cache''\<rparr>)
       (decode_entries L h)"

end
