(* ===== verification/Ruby_Config_Props.thy ===== *)
theory Ruby_Config_Props
  imports Ruby_Config
begin

text \<open>
  What a configuration reads after its assignments, which values its options hold, and that
  the native configuration holds the same ones: the two tables of options, one in Ruby and
  one in Rust, agree.
\<close>

subsection \<open>Assignments\<close>

text \<open>What one assignment stores: the converted value or \<open>nil\<close>; or what it raises.\<close>

definition entry_value :: "ruby_conv \<Rightarrow> string \<Rightarrow> rvalue \<Rightarrow> rb_error + config_value option" where
  "entry_value conv name v =
     (case map_of config_params name of
        None \<Rightarrow> if name \<in> {''='', ''!'', ''==''} then Inr None else Inl (no_method (name @ ''=''))
      | Some kind \<Rightarrow> if is_nil v then Inr None else res_map Some (convert_option conv name kind v))"

lemma no_operator_option: "map_of config_params name = Some kind \<Longrightarrow> name \<notin> {''='', ''!'', ''==''}"
  by (auto simp: config_params_def)

lemma config_set_eq:
  "config_set conv name v config =
     (case entry_value conv name v of
        Inl e \<Rightarrow> (Inl e, config)
      | Inr x \<Rightarrow> (Inr (), if name \<in> fst ` set config_params then aset name x config else config))"
proof (cases "map_of config_params name")
  case None
  then have "name \<notin> fst ` set config_params" by (simp add: map_of_eq_None_iff)
  with None show ?thesis by (simp add: config_set_def entry_value_def)
next
  case (Some kind)
  then have "name \<in> fst ` set config_params" by (meson domI domIff map_of_eq_None_iff)
  with Some show ?thesis
    by (simp add: config_set_def entry_value_def res_map_def split: sum.split)
qed

text \<open>The writes that assignments make, when none raises.\<close>

definition writes :: "ruby_conv \<Rightarrow> (string \<times> rvalue) list \<Rightarrow> (string \<times> config_value option) list" where
  "writes conv kwargs =
     map (\<lambda>(k, v). (k, projr (entry_value conv k v)))
       (filter (\<lambda>(k, _). k \<in> fst ` set config_params) kwargs)"

lemma config_assign_eq:
  assumes "\<forall>(k, v) \<in> set kwargs. \<not> isl (entry_value conv k v)"
  shows "config_assign conv kwargs config = (Inr (), fold (\<lambda>(k, v). aset k v) (writes conv kwargs) config)"
  using assms
proof (induction kwargs arbitrary: config)
  case (Cons kv kwargs)
  obtain k v where kv: "kv = (k, v)" by (cases kv)
  with Cons.prems obtain x where x: "entry_value conv k v = Inr x" by (auto simp: isl_def split: sum.splits) (metis sum.exhaust)
  have "config_set conv k v config = (Inr (), if k \<in> fst ` set config_params then aset k x config else config)"
    by (simp add: config_set_eq x)
  with Cons kv x show ?case by (simp add: writes_def)
qed (simp add: writes_def)

lemma config_assign_fails:
  assumes "\<forall>(k, v) \<in> set pre. \<not> isl (entry_value conv k v)" "entry_value conv k v = Inl e"
  shows "config_assign conv (pre @ (k, v) # post) config =
    (Inl e, fold (\<lambda>(k, v). aset k v) (writes conv pre) config)"
  using assms(1)
proof (induction pre arbitrary: config)
  case Nil
  then show ?case by (simp add: config_set_eq assms(2) writes_def)
next
  case (Cons kv pre)
  obtain k' v' where kv: "kv = (k', v')" by (cases kv)
  with Cons.prems obtain x where x: "entry_value conv k' v' = Inr x" by (auto simp: isl_def split: sum.splits) (metis sum.exhaust)
  have "config_set conv k' v' config = (Inr (), if k' \<in> fst ` set config_params then aset k' x config else config)"
    by (simp add: config_set_eq x)
  with Cons kv x show ?case by (simp add: writes_def)
qed

text \<open>The hash that \<open>new\<close> leaves behind, and the first entry that makes it raise.\<close>

lemma configuration_new_ok:
  assumes "\<forall>(k, v) \<in> set kwargs. \<not> isl (entry_value conv k v)"
  shows "configuration_new conv kwargs None = Inr (pairs_to_h (writes conv kwargs))"
  by (simp add: configuration_new_def op_bind_def config_assign_eq [OF assms] pairs_to_h_def)

lemma configuration_new_fails:
  assumes "\<forall>(k, v) \<in> set pre. \<not> isl (entry_value conv k v)" "entry_value conv k v = Inl e"
  shows "configuration_new conv (pre @ (k, v) # post) None = Inl e"
  by (simp add: configuration_new_def op_bind_def config_assign_fails [OF assms])

lemma configuration_new_split:
  obtains "\<forall>(k, v) \<in> set kwargs. \<not> isl (entry_value conv k v)"
  | pre k v e post where "kwargs = pre @ (k, v) # post" "\<forall>(k, v) \<in> set pre. \<not> isl (entry_value conv k v)"
      "entry_value conv k v = Inl e"
proof (cases "\<exists>kv \<in> set kwargs. isl (entry_value conv (fst kv) (snd kv))")
  case True
  from split_list_first_prop [OF this] obtain pre kv post where
    "kwargs = pre @ kv # post" "isl (entry_value conv (fst kv) (snd kv))"
    "\<forall>kv \<in> set pre. \<not> isl (entry_value conv (fst kv) (snd kv))" by blast
  with that(2) [of pre "fst kv" "snd kv" post] show ?thesis by (auto simp: isl_def split_beta)
next
  case False
  with that(1) show ?thesis by (auto simp: split_beta)
qed

lemma configuration_new_Inr_iff:
  "configuration_new conv kwargs None = Inr config \<longleftrightarrow>
     (\<forall>(k, v) \<in> set kwargs. \<not> isl (entry_value conv k v)) \<and> config = pairs_to_h (writes conv kwargs)"
  by (rule configuration_new_split [of kwargs conv])
     (auto simp: configuration_new_ok configuration_new_fails)


lemma configuration_new_Inl_iff:
  "configuration_new conv kwargs None = Inl e \<longleftrightarrow>
     (\<exists>pre k v post. kwargs = pre @ (k, v) # post \<and>
        (\<forall>(k, v) \<in> set pre. \<not> isl (entry_value conv k v)) \<and> entry_value conv k v = Inl e)"
    (is "?new \<longleftrightarrow> ?first")
proof
  assume "?first" then show "?new" by (elim exE conjE) (simp add: configuration_new_fails)
next
  assume new: "?new"
  show "?first"
  proof (rule configuration_new_split [of kwargs conv])
    assume "\<forall>(k, v) \<in> set kwargs. \<not> isl (entry_value conv k v)"
    with new show ?thesis by (simp add: configuration_new_ok)
  next
    fix pre k v d post
    assume kwargs: "kwargs = pre @ (k, v) # post"
      and pre: "\<forall>(k, v) \<in> set pre. \<not> isl (entry_value conv k v)" and d: "entry_value conv k v = Inl d"
    from new have "d = e" unfolding kwargs by (simp add: configuration_new_fails [OF pre d])
    with kwargs pre d show ?thesis by blast
  qed
qed

lemma option_names: "distinct (map fst config_params)"
  by (simp add: config_params_def)

lemma map_of_rev_writes:
  assumes "name \<in> fst ` set config_params"
  shows "map_of (rev (writes conv kwargs)) name =
    map_option (\<lambda>v. projr (entry_value conv name v)) (map_of (rev kwargs) name)"
proof -
  have w: "rev (writes conv kwargs) =
      map (\<lambda>(k, v). (k, projr (entry_value conv k v))) (filter (\<lambda>(k, _). k \<in> fst ` set config_params) (rev kwargs))"
    by (simp add: writes_def rev_map rev_filter)
  have "name \<in> S \<Longrightarrow> map_of (map (\<lambda>(k, v). (k, projr (entry_value conv k v)))
      (filter (\<lambda>(k, _). k \<in> S) kvs)) name =
    map_option (\<lambda>v. projr (entry_value conv name v)) (map_of kvs name)" for kvs S
    by (induction kvs) auto
  from this [OF assms] show ?thesis unfolding w .
qed

lemma config_get_new:
  assumes "configuration_new conv kwargs None = Inr config" "name \<in> fst ` set config_params"
  shows "config_get name config =
    (case map_of (rev kwargs) name of None \<Rightarrow> None | Some v \<Rightarrow> projr (entry_value conv name v))"
  using assms
  by (auto simp: configuration_new_Inr_iff config_get_def pairs_to_h_spec map_of_rev_writes split: option.split)

lemma new_keys:
  assumes "configuration_new conv kwargs None = Inr config"
  shows "distinct (map fst config)" "fst ` set config \<subseteq> fst ` set config_params"
proof -
  have "fst ` set (pairs_to_h (writes conv kwargs)) = fst ` set (writes conv kwargs)"
    using hash.keys_writes [of "writes conv kwargs" "[]"] by (simp add: pairs_to_h_def)
  then show "distinct (map fst config)" "fst ` set config \<subseteq> fst ` set config_params"
    using assms by (auto simp: configuration_new_Inr_iff pairs_to_h_spec) (auto simp: writes_def)
qed

lemma config_to_hash_simps [simp]:
  "config_to_hash [] = []"
  "config_to_hash ((k, None) # h) = config_to_hash h"
  "config_to_hash ((k, Some v) # h) = (k, v) # config_to_hash h"
  by (simp_all add: config_to_hash_def)

lemma to_hash_keys:
  "fst ` set (config_to_hash config) \<subseteq> fst ` set config"
  "distinct (map fst config) \<Longrightarrow> distinct (map fst (config_to_hash config))"
proof -
  show keys: "fst ` set (config_to_hash h) \<subseteq> fst ` set h" for h
  proof (induction h)
    case (Cons x h)
    then show ?case by (cases x; cases "snd x") auto
  qed simp
  show "distinct (map fst config) \<Longrightarrow> distinct (map fst (config_to_hash config))"
  proof (induction config)
    case (Cons x h)
    with keys [of h] have "fst x \<notin> fst ` set (config_to_hash h)" by auto
    with Cons show ?case by (cases x; cases "snd x") auto
  qed simp
qed

lemma to_hash_lookup:
  "distinct (map fst config) \<Longrightarrow> map_of (config_to_hash config) name = config_get name config"
proof (induction config)
  case (Cons x h)
  obtain k v where x: "x = (k, v)" by (cases x)
  have "map_of h k = None" "map_of (config_to_hash h) k = None"
    using Cons.prems x to_hash_keys(1) [of h] by (auto simp: map_of_eq_None_iff)
  with Cons x show ?case by (cases v) (auto simp: config_get_def)
qed (simp add: config_get_def)

lemma entry_value_option:
  assumes "(name, kind) \<in> set config_params"
  shows "entry_value conv name v = (if is_nil v then Inr None else res_map Some (convert_option conv name kind v))"
  using map_of_is_SomeI [OF option_names assms] by (simp add: entry_value_def)

text \<open>
  C39: A configuration made from an option hash. The first entry that has no option of its
  name, or whose value the option's converter refuses, raises that error and no configuration
  is made. Otherwise an option is the converted value of its last entry, \<open>nil\<close> when that entry
  is \<open>nil\<close> or there is none; and \<open>to_hash\<close> has each option once, exactly those that are not
  \<open>nil\<close>.
\<close>

theorem configuration_reads_assignments:
  "(\<forall>e. configuration_new conv kwargs None = Inl e \<longleftrightarrow>
      (\<exists>pre k v post. kwargs = pre @ (k, v) # post \<and>
         (\<forall>(k, v) \<in> set pre. \<not> isl (entry_value conv k v)) \<and> entry_value conv k v = Inl e)) \<and>
   (\<forall>config. configuration_new conv kwargs None = Inr config \<longrightarrow>
      distinct (map fst (config_to_hash config)) \<and>
      map_of (config_to_hash config) = (\<lambda>name. config_get name config) \<and>
      (\<forall>(name, kind) \<in> set config_params.
         case map_of (rev kwargs) name of
           None \<Rightarrow> config_get name config = None
         | Some v \<Rightarrow>
             if is_nil v then config_get name config = None
             else \<exists>x. convert_option conv name kind v = Inr x \<and> config_get name config = Some x))"
proof (intro conjI allI impI)
  show "configuration_new conv kwargs None = Inl e \<longleftrightarrow>
      (\<exists>pre k v post. kwargs = pre @ (k, v) # post \<and>
         (\<forall>(k, v) \<in> set pre. \<not> isl (entry_value conv k v)) \<and> entry_value conv k v = Inl e)" for e
    by (rule configuration_new_Inl_iff)
next
  fix config assume new: "configuration_new conv kwargs None = Inr config"
  show "distinct (map fst (config_to_hash config))"
    "map_of (config_to_hash config) = (\<lambda>name. config_get name config)"
    by (simp_all add: to_hash_keys to_hash_lookup new_keys(1) [OF new] fun_eq_iff)
  show "\<forall>(name, kind) \<in> set config_params.
         case map_of (rev kwargs) name of
           None \<Rightarrow> config_get name config = None
         | Some v \<Rightarrow>
             if is_nil v then config_get name config = None
             else \<exists>x. convert_option conv name kind v = Inr x \<and> config_get name config = Some x"
  proof (clarify, goal_cases)
    case (1 name kind)
    have get: "config_get name config =
        (case map_of (rev kwargs) name of None \<Rightarrow> None | Some v \<Rightarrow> projr (entry_value conv name v))"
      by (rule config_get_new [OF new]) (use 1 in force)
    have "\<not> isl (entry_value conv name v)" if "map_of (rev kwargs) name = Some v" for v
      using new map_of_SomeD [OF that] by (auto simp: configuration_new_Inr_iff)
    with get show ?case
      by (auto simp: entry_value_option [OF 1] isl_def split: option.split sum.split)
         (metis res_map_simps(2) sum.exhaust_sel sum.sel(2))+
  qed
qed


definition sample_conv :: ruby_conv where
  "sample_conv = \<lparr>rc_to_s = (\<lambda>v. case v of RString s \<Rightarrow> s | RSymbol s \<Rightarrow> s | _ \<Rightarrow> ''an object''),
     rc_inspect = (\<lambda>_. ''a value''), rc_to_a = (\<lambda>_. None), rc_int_to_f = (\<lambda>n. F64 (of_int n)),
     rc_parse_int = (\<lambda>_. None), rc_parse_float = (\<lambda>_. None),
     rc_object_int = (\<lambda>_. Inl (argument_error ''not a number'')),
     rc_object_float = (\<lambda>_. Inl (argument_error ''not a number'')), rc_object_seconds = (\<lambda>_. None),
     rc_elements = (\<lambda>_. []), rc_definition = (\<lambda>_. None)\<rparr>"

theorem configuration_reads_assignments_witness:
  "configuration_new sample_conv [(''colour'', RNil)] None = Inl (no_method ''colour='') \<and>
   (\<exists>config. configuration_new sample_conv
        [(''mock'', RBool True), (''max_retries'', RInteger 3), (''mock'', RNil)] None = Inr config \<and>
      map_of (config_to_hash config) ''max_retries'' = Some (CV_int 3) \<and>
      map_of (config_to_hash config) ''mock'' = None)"
proof (intro conjI exI)
  show "configuration_new sample_conv [(''colour'', RNil)] None = Inl (no_method ''colour='')"
    using configuration_reads_assignments [of sample_conv "[(''colour'', RNil)]", THEN conjunct1,
        rule_format, of "no_method ''colour=''"]
    by (force simp: entry_value_def config_params_def)
  let ?kwargs = "[(''mock'', RBool True), (''max_retries'', RInteger 3), (''mock'', RNil)]"
  let ?config = "[(''mock'', None), (''max_retries'', Some (CV_int 3))]"
  show new: "configuration_new sample_conv ?kwargs None = Inr ?config" by code_simp
  have "map_of (config_to_hash ?config) = (\<lambda>name. config_get name ?config)"
    using configuration_reads_assignments [of sample_conv ?kwargs] new by blast
  then show "map_of (config_to_hash ?config) ''max_retries'' = Some (CV_int 3)"
    "map_of (config_to_hash ?config) ''mock'' = None"
    by (simp_all add: config_get_def)
qed

subsection \<open>The values of the options\<close>

text \<open>The values a converter makes.\<close>

fun value_of_kind :: "config_kind \<Rightarrow> config_value \<Rightarrow> bool" where
  "value_of_kind K_strings v = (case v of CV_strings _ \<Rightarrow> True | _ \<Rightarrow> False)"
| "value_of_kind K_bool v = (case v of CV_bool _ \<Rightarrow> True | _ \<Rightarrow> False)"
| "value_of_kind K_duration v = (case v of CV_float _ \<Rightarrow> True | _ \<Rightarrow> False)"
| "value_of_kind K_integer v = (case v of CV_int _ \<Rightarrow> True | _ \<Rightarrow> False)"
| "value_of_kind K_string v = (case v of CV_string _ \<Rightarrow> True | _ \<Rightarrow> False)"
| "value_of_kind K_float v = (case v of CV_float _ \<Rightarrow> True | _ \<Rightarrow> False)"
| "value_of_kind K_collections v = (case v of CV_collections _ \<Rightarrow> True | _ \<Rightarrow> False)"
| "value_of_kind K_read_cache v = (case v of CV_bool _ \<Rightarrow> True | CV_float _ \<Rightarrow> True | _ \<Rightarrow> False)"
| "value_of_kind K_mode v =
     (case v of CV_symbol s \<Rightarrow> s \<in> {''pipeline'', ''low_latency'', ''best_effort''} | _ \<Rightarrow> False)"
| "value_of_kind K_probe_port v =
     (case v of CV_bool b \<Rightarrow> \<not> b | CV_int n \<Rightarrow> 0 \<le> n \<and> n \<le> 65535 | _ \<Rightarrow> False)"

lemma convert_option_kind: "convert_option conv name kind v = Inr x \<Longrightarrow> value_of_kind kind x"
  by (cases kind)
     (auto simp: res_map_eq_Inr_iff res_bind_eq_Inr_iff mode_converter_def probe_port_converter_def Let_def
       split: if_splits rvalue.splits)

lemma option_kind:
  assumes "configuration_new conv kwargs None = Inr config" "(name, kind) \<in> set config_params"
    "config_get name config = Some x"
  shows "value_of_kind kind x"
proof -
  have "name \<in> fst ` set config_params" using assms(2) by force
  from config_get_new [OF assms(1) this] assms(3) obtain v where
    v: "map_of (rev kwargs) name = Some v" "projr (entry_value conv name v) = Some x"
    by (auto split: option.splits)
  have "\<not> isl (entry_value conv name v)"
    using assms(1) map_of_SomeD [OF v(1)] by (auto simp: configuration_new_Inr_iff)
  with v(2) have "convert_option conv name kind v = Inr x"
    by (cases "convert_option conv name kind v") (auto simp: entry_value_option [OF assms(2)] split: if_splits)
  then show ?thesis by (rule convert_option_kind)
qed

text \<open>Which fields take the values of which options: the two tables agree.\<close>

fun field_takes :: "field_type \<Rightarrow> config_kind \<Rightarrow> bool" where
  "field_takes T_strings k = (k = K_strings)"
| "field_takes T_bool k = (k = K_bool)"
| "field_takes T_f64 k = (k = K_duration \<or> k = K_float)"
| "field_takes T_string k = (k = K_string \<or> k = K_mode)"
| "field_takes T_u32 k = (k = K_integer)"
| "field_takes T_usize k = (k = K_integer)"
| "field_takes T_i64 k = (k = K_integer)"
| "field_takes T_collections k = (k = K_collections)"
| "field_takes T_read_cache k = (k = K_read_cache)"
| "field_takes T_probe_port k = (k = K_probe_port)"

lemma tables_agree:
  "list_all (\<lambda>(name, ty). case map_of config_params name of Some k \<Rightarrow> field_takes ty k | None \<Rightarrow> False) native_fields"
  by code_simp

lemma tables_agree_back: "list_all (\<lambda>(name, k). map_of native_fields name \<noteq> None) config_params"
  by code_simp

lemma field_names: "distinct (map fst native_fields)"
  by (simp add: native_fields_def)

subsection \<open>The native configuration\<close>

text \<open>
  What serde_magnus makes of a value of the kind a field has: the value itself, a symbol as
  its name, an Integer when the field's type holds it. A Float is no \<open>bool\<close>.
\<close>

definition int_decoder :: "(config_value \<Rightarrow> string + 'w) \<Rightarrow> ('w \<Rightarrow> int) \<Rightarrow> int \<Rightarrow> int \<Rightarrow> bool" where
  "int_decoder f val lo hi \<longleftrightarrow>
     (\<forall>n. if lo \<le> n \<and> n < hi then \<exists>w. f (CV_int n) = Inr w \<and> val w = n else isl (f (CV_int n)))"

definition serde_laws :: "serde_lib \<Rightarrow> bool" where
  "serde_laws L \<longleftrightarrow>
     (\<forall>xs. sl_strings L (CV_strings xs) = Inr xs) \<and>
     (\<forall>b. sl_bool L (CV_bool b) = Inr b) \<and> (\<forall>x. isl (sl_bool L (CV_float x))) \<and>
     (\<forall>x. sl_f64 L (CV_float x) = Inr x) \<and>
     (\<forall>s. sl_string L (CV_string s) = Inr s \<and> sl_string L (CV_symbol s) = Inr s) \<and>
     int_decoder (sl_u32 L) uint 0 (2 ^ 32) \<and> int_decoder (sl_usize L) uint 0 (2 ^ 64) \<and>
     int_decoder (sl_i64 L) sint (- (2 ^ 63)) (2 ^ 63) \<and>
     (\<forall>cs. sl_collections L (CV_collections (map Serialized cs)) = Inr cs)"

text \<open>The option values that the fields of a native configuration stand for.\<close>

fun port_value :: "probe_port \<Rightarrow> config_value" where
  "port_value Unconfigured = CV_bool True"
| "port_value Disabled = CV_bool False"
| "port_value (Configured w) = CV_int (uint w)"

fun cache_value :: "read_cache_config \<Rightarrow> config_value" where
  "cache_value (Cache_disabled b) = CV_bool b"
| "cache_value (Cache_ttl x) = CV_float x"

definition native_options :: "native_configuration \<Rightarrow> (string \<times> config_value option) list" where
  "native_options c =
     [(''bootstrap_servers'', map_option CV_strings (cfg_bootstrap_servers c)),
      (''mock'', map_option CV_bool (cfg_mock c)),
      (''send_timeout'', map_option CV_float (cfg_send_timeout c)),
      (''group_id'', map_option CV_string (cfg_group_id c)),
      (''idempotence_cache_size'', map_option (\<lambda>w. CV_int (uint w)) (cfg_idempotence_cache_size c)),
      (''idempotence_version'', map_option CV_string (cfg_idempotence_version c)),
      (''idempotence_ttl'', map_option CV_float (cfg_idempotence_ttl c)),
      (''subscribed_topics'', map_option CV_strings (cfg_subscribed_topics c)),
      (''allowed_events'', map_option CV_strings (cfg_allowed_events c)),
      (''source_system'', map_option CV_string (cfg_source_system c)),
      (''max_concurrency'', map_option (\<lambda>w. CV_int (uint w)) (cfg_max_concurrency c)),
      (''max_uncommitted'', map_option (\<lambda>w. CV_int (uint w)) (cfg_max_uncommitted c)),
      (''stall_threshold'', map_option CV_float (cfg_stall_threshold c)),
      (''shutdown_timeout'', map_option CV_float (cfg_shutdown_timeout c)),
      (''poll_interval'', map_option CV_float (cfg_poll_interval c)),
      (''commit_interval'', map_option CV_float (cfg_commit_interval c)),
      (''statistics_interval'', map_option CV_float (cfg_statistics_interval c)),
      (''mode'', map_option CV_string (cfg_mode c)),
      (''retry_base'', map_option CV_float (cfg_retry_base c)),
      (''max_retries'', map_option (\<lambda>w. CV_int (uint w)) (cfg_max_retries c)),
      (''max_retry_delay'', map_option CV_float (cfg_max_retry_delay c)),
      (''failure_topic'', map_option CV_string (cfg_failure_topic c)),
      (''probe_port'', map_option port_value (cfg_probe_port c)),
      (''cassandra_nodes'', map_option CV_strings (cfg_cassandra_nodes c)),
      (''cassandra_keyspace'', map_option CV_string (cfg_cassandra_keyspace c)),
      (''cassandra_datacenter'', map_option CV_string (cfg_cassandra_datacenter c)),
      (''cassandra_rack'', map_option CV_string (cfg_cassandra_rack c)),
      (''cassandra_user'', map_option CV_string (cfg_cassandra_user c)),
      (''cassandra_password'', map_option CV_string (cfg_cassandra_password c)),
      (''cassandra_retention'', map_option CV_float (cfg_cassandra_retention c)),
      (''slab_size'', map_option CV_float (cfg_slab_size c)),
      (''scheduler_failure_weight'', map_option CV_float (cfg_scheduler_failure_weight c)),
      (''scheduler_max_wait'', map_option CV_float (cfg_scheduler_max_wait c)),
      (''scheduler_wait_weight'', map_option CV_float (cfg_scheduler_wait_weight c)),
      (''scheduler_cache_size'', map_option (\<lambda>w. CV_int (uint w)) (cfg_scheduler_cache_size c)),
      (''monopolization_enabled'', map_option CV_bool (cfg_monopolization_enabled c)),
      (''monopolization_threshold'', map_option CV_float (cfg_monopolization_threshold c)),
      (''monopolization_window'', map_option CV_float (cfg_monopolization_window c)),
      (''monopolization_cache_size'', map_option (\<lambda>w. CV_int (uint w)) (cfg_monopolization_cache_size c)),
      (''defer_enabled'', map_option CV_bool (cfg_defer_enabled c)),
      (''defer_base'', map_option CV_float (cfg_defer_base c)),
      (''defer_max_delay'', map_option CV_float (cfg_defer_max_delay c)),
      (''defer_failure_threshold'', map_option CV_float (cfg_defer_failure_threshold c)),
      (''defer_failure_window'', map_option CV_float (cfg_defer_failure_window c)),
      (''loader_cache_size'', map_option (\<lambda>w. CV_int (uint w)) (cfg_loader_cache_size c)),
      (''defer_store_cache_size'', map_option (\<lambda>w. CV_int (uint w)) (cfg_defer_store_cache_size c)),
      (''loader_seek_timeout'', map_option CV_float (cfg_loader_seek_timeout c)),
      (''loader_discard_threshold'', map_option (\<lambda>w. CV_int (sint w)) (cfg_loader_discard_threshold c)),
      (''timeout'', map_option CV_float (cfg_timeout c)),
      (''telemetry_topic'', map_option CV_string (cfg_telemetry_topic c)),
      (''telemetry_enabled'', map_option CV_bool (cfg_telemetry_enabled c)),
      (''message_spans'', map_option CV_string (cfg_message_spans c)),
      (''timer_spans'', map_option CV_string (cfg_timer_spans c)),
      (''peer_bind_address'', map_option CV_string (cfg_peer_bind_address c)),
      (''peer_advertised_connect'', map_option CV_string (cfg_peer_advertised_connect c)),
      (''peer_network_name'', map_option CV_string (cfg_peer_network_name c)),
      (''peer_cache_capacity'', map_option (\<lambda>w. CV_int (uint w)) (cfg_peer_cache_capacity c)),
      (''peer_registration_ttl'', map_option CV_float (cfg_peer_registration_ttl c)),
      (''state_collections'', map_option (\<lambda>cs. CV_collections (map Serialized cs)) (cfg_state_collections c)),
      (''subsystem'', map_option CV_string (cfg_subsystem c)),
      (''state_cache_dir'', map_option CV_string (cfg_state_cache_dir c)),
      (''state_owned_cache_size'', map_option CV_string (cfg_state_owned_cache_size c)),
      (''state_memtable_size'', map_option CV_string (cfg_state_memtable_size c)),
      (''state_read_cache_size'', map_option CV_string (cfg_state_read_cache_size c)),
      (''state_read_cache'', map_option cache_value (cfg_state_read_cache c))]"

text \<open>A symbol stands for its name.\<close>

fun plain_value :: "config_value \<Rightarrow> config_value" where
  "plain_value (CV_symbol s) = CV_string s"
| "plain_value v = v"

fun field_fits :: "serde_lib \<Rightarrow> field_type \<Rightarrow> config_value \<Rightarrow> bool" where
  "field_fits L T_u32 (CV_int n) = (0 \<le> n \<and> n < 2 ^ 32)"
| "field_fits L T_usize (CV_int n) = (0 \<le> n \<and> n < 2 ^ 64)"
| "field_fits L T_i64 (CV_int n) = (- (2 ^ 63) \<le> n \<and> n < 2 ^ 63)"
| "field_fits L T_collections v = (\<not> isl (sl_collections L v))"
| "field_fits L _ _ = True"

lemma int_decoder_iff:
  "int_decoder f val lo hi \<Longrightarrow> res_map (\<lambda>_. ()) (f (CV_int n)) = Inr () \<longleftrightarrow> lo \<le> n \<and> n < hi"
  unfolding int_decoder_def
  by (drule spec [of _ n], cases "f (CV_int n)") (auto split: if_splits)

lemma int_decoder_value: "int_decoder f val lo hi \<Longrightarrow> f (CV_int n) = Inr w \<Longrightarrow> val w = n"
  unfolding int_decoder_def
  by (drule spec [of _ n]) (auto split: if_splits)

lemma probe_port_decodes:
  "value_of_kind K_probe_port v \<Longrightarrow> \<exists>p. decode_probe_port v = Inr p \<and> port_value p = v"
  by (auto simp: decode_probe_port_def uint_word_of_int take_bit_int_eq_self split: config_value.splits)

lemma read_cache_decodes:
  "serde_laws L \<Longrightarrow> value_of_kind K_read_cache v \<Longrightarrow> \<exists>c. decode_read_cache L v = Inr c \<and> cache_value c = v"
  by (auto simp: decode_read_cache_def serde_laws_def isl_def split: config_value.splits sum.splits)
     (metis sum.distinct(1))+

lemma field_decodes_iff:
  assumes "serde_laws L" "field_takes ty k" "value_of_kind k v"
  shows "decodes L ty v = Inr () \<longleftrightarrow> field_fits L ty v"
proof (cases ty)
  case T_read_cache
  with read_cache_decodes [OF assms(1)] assms show ?thesis by fastforce
next
  case T_probe_port
  with probe_port_decodes assms show ?thesis by fastforce
next
  case T_collections
  then show ?thesis by (cases "sl_collections L v") auto
qed (use assms in \<open>auto simp: serde_laws_def int_decoder_iff split: config_value.splits\<close>)

lemma decode_entries_iff:
  "decode_entries L h = Inr () \<longleftrightarrow>
     (\<forall>(k, v) \<in> set h. case map_of native_fields k of None \<Rightarrow> True | Some ty \<Rightarrow> decodes L ty v = Inr ())"
proof (induction h)
  case (Cons x h)
  obtain k v where x: "x = (k, v)" by (cases x)
  show ?case
  proof (cases "map_of native_fields k")
    case None
    with Cons.IH x show ?thesis by simp
  next
    case (Some ty)
    with Cons.IH x show ?thesis by (simp add: res_bind_eq_Inr_iff)
  qed
qed simp

lemma field_kind:
  assumes "(name, ty) \<in> set native_fields"
  obtains k where "(name, k) \<in> set config_params" "field_takes ty k"
proof -
  from tables_agree assms obtain k where "map_of config_params name = Some k" "field_takes ty k"
    by (auto simp: list_all_iff split: option.splits dest!: bspec)
  with that show ?thesis by (blast dest: map_of_SomeD)
qed

text \<open>A field's option, as \<open>to_hash\<close> hands it over.\<close>

lemma field_option:
  assumes "configuration_new conv kwargs None = Inr config" "(name, ty) \<in> set native_fields"
    "config_get name config = Some v"
  obtains k where "field_takes ty k" "value_of_kind k v"
  using field_kind [OF assms(2)] option_kind [OF assms(1) _ assms(3)] that by metis

lemma accepted_iff:
  assumes "configuration_new conv kwargs None = Inr config" "serde_laws L"
  shows "(\<exists>native. deserialize_configuration L (config_to_hash config) = Inr native) \<longleftrightarrow>
    (\<forall>(name, ty) \<in> set native_fields. \<forall>v. config_get name config = Some v \<longrightarrow> field_fits L ty v)"
proof -
  note new = assms(1)
  have lookup: "map_of (config_to_hash config) name = config_get name config" for name
    by (rule to_hash_lookup [OF new_keys(1) [OF new]])
  have entry: "(name, v) \<in> set (config_to_hash config) \<longleftrightarrow> config_get name config = Some v" for name v
    using map_of_eq_Some_iff [OF to_hash_keys(2) [OF new_keys(1) [OF new]], of name v] lookup by simp
  have field: "map_of native_fields name = Some ty \<longleftrightarrow> (name, ty) \<in> set native_fields" for name ty
    by (rule map_of_eq_Some_iff [OF field_names])
  have decodes: "decodes L ty v = Inr () \<longleftrightarrow> field_fits L ty v"
    if "(name, ty) \<in> set native_fields" "config_get name config = Some v" for name ty v
    using field_option [OF new that] field_decodes_iff [OF assms(2)] by metis
  have "(\<exists>native. deserialize_configuration L (config_to_hash config) = Inr native) \<longleftrightarrow>
      decode_entries L (config_to_hash config) = Inr ()"
    by (auto simp: deserialize_configuration_def res_map_eq_Inr_iff)
  also have "\<dots> \<longleftrightarrow> (\<forall>name ty v. (name, ty) \<in> set native_fields \<longrightarrow> config_get name config = Some v \<longrightarrow>
      decodes L ty v = Inr ())"
    unfolding decode_entries_iff Ball_def split_paired_All
    by (auto simp: entry field split: option.splits)
  finally show ?thesis using decodes by (auto simp: split_beta)
qed

text \<open>
  Which configurations the extension can read: every value that a converter lets into a
  configuration is one that the native field of the same name takes, except that an Integer
  has to fit the field (32 bits; 64 for the peer cache; 64 with a sign for the discard
  threshold), and that a collection given as a hash has to be a valid registration.
\<close>

theorem converted_options_deserialize:
  assumes "configuration_new conv kwargs None = Inr config" "serde_laws L"
  shows "(\<exists>native. deserialize_configuration L (config_to_hash config) = Inr native) \<longleftrightarrow>
    (\<forall>(name, ty) \<in> set native_fields.
       case (ty, config_get name config) of
         (T_u32, Some (CV_int n)) \<Rightarrow> 0 \<le> n \<and> n < 2 ^ 32
       | (T_usize, Some (CV_int n)) \<Rightarrow> 0 \<le> n \<and> n < 2 ^ 64
       | (T_i64, Some (CV_int n)) \<Rightarrow> - (2 ^ 63) \<le> n \<and> n < 2 ^ 63
       | (T_collections, Some v) \<Rightarrow> \<not> isl (sl_collections L v)
       | _ \<Rightarrow> True)"
proof -
  have fits: "(\<forall>v. x = Some v \<longrightarrow> field_fits L ty v) \<longleftrightarrow>
      (case (ty, x) of
         (T_u32, Some (CV_int n)) \<Rightarrow> 0 \<le> n \<and> n < 2 ^ 32
       | (T_usize, Some (CV_int n)) \<Rightarrow> 0 \<le> n \<and> n < 2 ^ 64
       | (T_i64, Some (CV_int n)) \<Rightarrow> - (2 ^ 63) \<le> n \<and> n < 2 ^ 63
       | (T_collections, Some v) \<Rightarrow> \<not> isl (sl_collections L v)
       | _ \<Rightarrow> True)" for x ty
    by (cases x; cases ty; simp split: config_value.split)
  show ?thesis unfolding accepted_iff [OF assms] fits ..
qed

text \<open>The value of one field, by its type.\<close>

fun field_back :: "serde_lib \<Rightarrow> (string \<times> config_value) list \<Rightarrow> field_type \<Rightarrow> string \<Rightarrow> config_value option" where
  "field_back L h T_strings n = map_option CV_strings (decoded (sl_strings L) h n)"
| "field_back L h T_bool n = map_option CV_bool (decoded (sl_bool L) h n)"
| "field_back L h T_f64 n = map_option CV_float (decoded (sl_f64 L) h n)"
| "field_back L h T_string n = map_option CV_string (decoded (sl_string L) h n)"
| "field_back L h T_u32 n = map_option (\<lambda>w. CV_int (uint w)) (decoded (sl_u32 L) h n)"
| "field_back L h T_usize n = map_option (\<lambda>w. CV_int (uint w)) (decoded (sl_usize L) h n)"
| "field_back L h T_i64 n = map_option (\<lambda>w. CV_int (sint w)) (decoded (sl_i64 L) h n)"
| "field_back L h T_collections n =
     map_option (\<lambda>cs. CV_collections (map Serialized cs)) (decoded (sl_collections L) h n)"
| "field_back L h T_read_cache n = map_option cache_value (decoded (decode_read_cache L) h n)"
| "field_back L h T_probe_port n = map_option port_value (decoded decode_probe_port h n)"

lemma native_options_eq:
  "deserialize_configuration L h = Inr native \<Longrightarrow>
    native_options native = map (\<lambda>(n, ty). (n, field_back L h ty n)) native_fields"
  by (auto simp: deserialize_configuration_def res_map_eq_Inr_iff native_options_def native_fields_def)

lemma decoded_back:
  assumes "map_of h n = Some v" "f v = Inr x" "g x = w"
  shows "map_option g (decoded f h n) = Some w"
  using assms by (simp add: decoded_def)

lemma field_back_value:
  assumes laws: "serde_laws L" and "field_takes ty k" "value_of_kind k v"
    and decodes: "decodes L ty v = Inr ()" and v: "map_of h n = Some v"
    and raw: "\<And>cs. v = CV_collections cs \<Longrightarrow> \<exists>ds. cs = map Serialized ds"
  shows "field_back L h ty n = Some (plain_value v)"
proof (cases ty)
  case T_read_cache
  with assms obtain c where "decode_read_cache L v = Inr c" "cache_value c = v"
    using read_cache_decodes [OF laws] by fastforce
  moreover have "plain_value v = v" using T_read_cache assms by (auto split: config_value.splits)
  ultimately show ?thesis using T_read_cache decoded_back [OF v] by simp
next
  case T_probe_port
  with assms obtain p where "decode_probe_port v = Inr p" "port_value p = v"
    using probe_port_decodes by fastforce
  moreover have "plain_value v = v" using T_probe_port assms by (auto split: config_value.splits)
  ultimately show ?thesis using T_probe_port decoded_back [OF v] by simp
next
  case T_collections
  with assms obtain cs where "v = CV_collections cs" by (auto split: config_value.splits)
  with raw obtain ds where ds: "v = CV_collections (map Serialized ds)" by blast
  with T_collections laws v show ?thesis
    by (simp add: decoded_def serde_laws_def)
next
  case T_u32
  with assms obtain i where i: "v = CV_int i" by (auto split: config_value.splits)
  with T_u32 decodes obtain w where w: "sl_u32 L v = Inr w" by (auto simp: res_map_eq_Inr_iff)
  with laws i have "uint w = i" by (auto simp: serde_laws_def dest: int_decoder_value)
  with T_u32 i w v show ?thesis by (simp add: decoded_def)
next
  case T_usize
  with assms obtain i where i: "v = CV_int i" by (auto split: config_value.splits)
  with T_usize decodes obtain w where w: "sl_usize L v = Inr w" by (auto simp: res_map_eq_Inr_iff)
  with laws i have "uint w = i" by (auto simp: serde_laws_def dest: int_decoder_value)
  with T_usize i w v show ?thesis by (simp add: decoded_def)
next
  case T_i64
  with assms obtain i where i: "v = CV_int i" by (auto split: config_value.splits)
  with T_i64 decodes obtain w where w: "sl_i64 L v = Inr w" by (auto simp: res_map_eq_Inr_iff)
  with laws i have "sint w = i" by (auto simp: serde_laws_def dest: int_decoder_value)
  with T_i64 i w v show ?thesis by (simp add: decoded_def)
qed (use assms in \<open>auto simp: serde_laws_def decoded_def split: config_value.splits\<close>)

text \<open>The fields of what was read hold the options' values.\<close>

lemma native_holds_options:
  assumes "configuration_new conv kwargs None = Inr config" "serde_laws L"
    and "deserialize_configuration L (config_to_hash config) = Inr native"
    and "\<forall>cs. config_get ''state_collections'' config = Some (CV_collections cs) \<longrightarrow>
      (\<exists>ds. cs = map Serialized ds)"
  shows "set (map fst (native_options native)) = set (map fst config_params) \<and>
    (\<forall>(name, x) \<in> set (native_options native). x = map_option plain_value (config_get name config))"
proof
  note new = assms(1) and laws = assms(2) and native = assms(3)
  have lookup: "map_of (config_to_hash config) name = config_get name config" for name
    by (rule to_hash_lookup [OF new_keys(1) [OF new]])
  have fits: "field_fits L ty v" if "(name, ty) \<in> set native_fields" "config_get name config = Some v" for name ty v
    using accepted_iff [OF new laws] native that by blast
  have raw: "name = ''state_collections''" if "(name, T_collections) \<in> set native_fields" for name
    using that by (simp add: native_fields_def)
  have same: "field_back L (config_to_hash config) ty name = map_option plain_value (config_get name config)"
    if f: "(name, ty) \<in> set native_fields" for name ty
  proof (cases "config_get name config")
    case None
    with lookup [of name] show ?thesis by (cases ty) (simp_all add: decoded_def)
  next
    case (Some v)
    obtain k where k: "field_takes ty k" "value_of_kind k v" by (rule field_option [OF new f Some])
    have "\<exists>ds. cs = map Serialized ds" if cs: "v = CV_collections cs" for cs
    proof -
      from k cs have "ty = T_collections" by (cases ty; cases k) auto
      with raw f Some cs assms(4) show ?thesis by blast
    qed
    from field_back_value [OF laws k _ _ this] show ?thesis
      using Some lookup [of name] fits [OF f Some] field_decodes_iff [OF laws k] by simp
  qed
  show "set (map fst (native_options native)) = set (map fst config_params)"
    unfolding native_options_eq [OF native] by (auto simp: native_fields_def config_params_def)
  show "\<forall>(name, x) \<in> set (native_options native). x = map_option plain_value (config_get name config)"
    unfolding native_options_eq [OF native] using same by auto
qed


definition sample_serde :: serde_lib where
  "sample_serde = \<lparr>
     sl_strings = (\<lambda>v. case v of CV_strings xs \<Rightarrow> Inr xs | _ \<Rightarrow> Inl ''type''),
     sl_bool = (\<lambda>v. case v of CV_bool b \<Rightarrow> Inr b | _ \<Rightarrow> Inl ''type''),
     sl_f64 = (\<lambda>v. case v of CV_float x \<Rightarrow> Inr x | _ \<Rightarrow> Inl ''type''),
     sl_string = (\<lambda>v. case v of CV_string s \<Rightarrow> Inr s | CV_symbol s \<Rightarrow> Inr s | _ \<Rightarrow> Inl ''type''),
     sl_u32 = (\<lambda>v. case v of CV_int n \<Rightarrow> if 0 \<le> n \<and> n < 2 ^ 32 then Inr (word_of_int n) else Inl ''range'' | _ \<Rightarrow> Inl ''type''),
     sl_usize = (\<lambda>v. case v of CV_int n \<Rightarrow> if 0 \<le> n \<and> n < 2 ^ 64 then Inr (word_of_int n) else Inl ''range'' | _ \<Rightarrow> Inl ''type''),
     sl_i64 = (\<lambda>v. case v of CV_int n \<Rightarrow> if - (2 ^ 63) \<le> n \<and> n < 2 ^ 63 then Inr (word_of_int n) else Inl ''range'' | _ \<Rightarrow> Inl ''type''),
     sl_collections = (\<lambda>v. case v of
         CV_collections cs \<Rightarrow>
           traverse (\<lambda>c. case c of Serialized d \<Rightarrow> Inr d | Raw _ \<Rightarrow> Inl ''not a registration'') cs
       | _ \<Rightarrow> Inl ''type'')\<rparr>"

lemma sample_serde_laws: "serde_laws sample_serde"
proof -
  have "traverse (\<lambda>c. case c of Serialized d \<Rightarrow> Inr d | Raw _ \<Rightarrow> Inl ''not a registration'') (map Serialized cs) = Inr cs"
    for cs
    by (induction cs) auto
  moreover have "int_decoder (sl_u32 sample_serde) uint 0 (2 ^ 32)" "int_decoder (sl_usize sample_serde) uint 0 (2 ^ 64)"
    by (auto simp: int_decoder_def sample_serde_def uint_word_of_int take_bit_int_eq_self)
  moreover have "int_decoder (sl_i64 sample_serde) sint (- (2 ^ 63)) (2 ^ 63)"
    by (auto simp: int_decoder_def sample_serde_def sint_sbintrunc' signed_take_bit_int_eq_self)
  ultimately show ?thesis by (auto simp: serde_laws_def sample_serde_def)
qed

theorem converted_options_deserialize_witness:
  "(\<exists>native. deserialize_configuration sample_serde [(''max_retries'', CV_int 3)] = Inr native) \<and>
   \<not> (\<exists>native. deserialize_configuration sample_serde [(''max_retries'', CV_int (2 ^ 32))] = Inr native)"
proof
  have new: "configuration_new sample_conv [(''max_retries'', RInteger n)] None = Inr [(''max_retries'', Some (CV_int n))]" for n
    by (simp add: configuration_new_def op_bind_def config_set_def config_params_def)
  have hash: "config_to_hash [(''max_retries'', Some (CV_int n))] = [(''max_retries'', CV_int n)]" for n by simp
  note iff = converted_options_deserialize [OF new sample_serde_laws, unfolded hash]
  show "\<exists>native. deserialize_configuration sample_serde [(''max_retries'', CV_int 3)] = Inr native"
    unfolding iff by code_simp
  show "\<not> (\<exists>native. deserialize_configuration sample_serde [(''max_retries'', CV_int (2 ^ 32))] = Inr native)"
    unfolding iff by code_simp
qed


end
