(* ===== verification/Client_Open.thy ===== *)
theory Client_Open
  imports Client_Props Config_Props Ruby_Config_Props
begin

text \<open>
  A client from its Ruby configuration: the argument of \<open>Prosody::Client.new\<close> becomes the native
  configuration (client/mod.rs 83-97), and \<open>Prosody::Client.open\<close> (lib/prosody/client.rb) runs a
  block with a client that it shuts down afterwards.
\<close>

subsection \<open>The argument of new\<close>

datatype config_argument = A_configuration configuration | A_hash "(string \<times> rvalue) list"

text \<open>\<open>unreadable\<close> is the exception serde_magnus makes of an error of its own.\<close>

definition native_config ::
  "ruby_conv \<Rightarrow> serde_lib \<Rightarrow> (string \<Rightarrow> rb_error) \<Rightarrow> config_argument \<Rightarrow> rb_error + native_configuration"
where
  "native_config conv L unreadable arg =
     res_bind (case arg of A_configuration c \<Rightarrow> Inr c | A_hash kwargs \<Rightarrow> configuration_new conv kwargs None) (\<lambda>c.
       map_err unreadable (deserialize_configuration L (config_to_hash c)))"

subsection \<open>Client.open\<close>

definition client_open where
  "client_open C env new block =
     (case block of
        None \<Rightarrow> op_lift (Inl (argument_error ''Prosody::Client.open requires a block''))
      | Some body \<Rightarrow> op_bind new (\<lambda>client. op_ensure (body client) (client_shutdown C client env)))"

subsection \<open>Which option hashes make a client\<close>

lemma field_valid:
  assumes "map_option CV_float a = map_option plain_value b"
  shows "option_valid a \<longleftrightarrow> (\<forall>x. b = Some (CV_float x) \<longrightarrow> valid_seconds x)"
proof (cases b)
  case None
  with assms show ?thesis by (simp add: option_valid_def)
next
  case (Some v)
  with assms show ?thesis by (cases a; cases v) (auto simp: option_valid_def)
qed

lemma cache_valid:
  assumes "map_option cache_value a = map_option plain_value b"
  shows "read_cache_valid a \<longleftrightarrow>
    b \<noteq> Some (CV_bool True) \<and> (\<forall>x. b = Some (CV_float x) \<longrightarrow> valid_seconds x)"
proof (cases a)
  case None
  with assms show ?thesis by (simp add: read_cache_valid_def)
next
  case (Some y)
  with assms obtain v where v: "b = Some v" "cache_value y = plain_value v" by (cases b) auto
  with Some show ?thesis by (cases y; cases v) (auto simp: read_cache_valid_def)
qed

lemma capacity_valid:
  assumes "map_option (\<lambda>w :: u32. CV_int (uint w)) a = map_option plain_value b"
  shows "a \<noteq> Some 0 \<longleftrightarrow> b \<noteq> Some (CV_int 0)"
proof (cases a)
  case None
  with assms show ?thesis by simp
next
  case (Some w)
  with assms obtain v where v: "b = Some v" "CV_int (uint w) = plain_value v" by (cases b) auto
  then have "b = Some (CV_int (uint w))" by (cases v) auto
  with Some show ?thesis by (simp add: unsigned_eq_0_iff)
qed

lemma collections_valid:
  assumes "map_option (\<lambda>cs. CV_collections (map Serialized cs)) a = map_option plain_value b"
  shows "(case a of None \<Rightarrow> True | Some cols \<Rightarrow> list_all collection_valid cols) \<longleftrightarrow>
    (\<forall>cs. b = Some (CV_collections (map Serialized cs)) \<longrightarrow> list_all collection_valid cs)"
proof (cases a)
  case None
  with assms show ?thesis by simp
next
  case (Some ds)
  with assms obtain v where "b = Some v" "CV_collections (map Serialized ds) = plain_value v" by (cases b) auto
  then have b: "b = Some (CV_collections (map Serialized ds))" by (cases v) auto
  have "map Serialized ds = map Serialized cs \<longleftrightarrow> ds = cs" for cs
    by (rule inj_map_eq_map) (simp add: inj_def)
  with Some b show ?thesis by simp
qed

text \<open>Collections given as definitions are registrations.\<close>

lemma definitions_serialized:
  assumes new: "configuration_new conv kwargs None = Inr config"
    and defs: "\<And>v d. (''state_collections'', v) \<in> set kwargs \<Longrightarrow> d \<in> set (rc_elements conv v) \<Longrightarrow>
      rc_definition conv d \<noteq> None"
    and get: "config_get ''state_collections'' config = Some (CV_collections cs)"
  shows "\<exists>ds. cs = map Serialized ds"
proof -
  have opt: "(''state_collections'', K_collections) \<in> set config_params" by (simp add: config_params_def)
  then have "''state_collections'' \<in> fst ` set config_params" by force
  from config_get_new [OF new this] get obtain v where
    v: "map_of (rev kwargs) ''state_collections'' = Some v"
    and cs: "projr (entry_value conv ''state_collections'' v) = Some (CV_collections cs)"
    by (auto split: option.splits)
  have "(''state_collections'', v) \<in> set kwargs" using map_of_SomeD [OF v] by simp
  note defs = defs [OF this]
  have "cs = collections_converter conv v"
    using cs by (simp add: entry_value_option [OF opt] split: if_splits)
  also have "\<dots> = map Serialized (map (\<lambda>d. to_state_config (the (rc_definition conv d))) (rc_elements conv v))"
    using defs by (fastforce simp: collections_converter_def)
  finally show ?thesis by blast
qed

text \<open>
  The names of the duration options, in the order of \<open>config_params\<close>.
\<close>

lemma duration_names:
  "map fst (filter (\<lambda>(_, k). k = K_duration) config_params) =
     [''send_timeout'', ''stall_threshold'', ''shutdown_timeout'', ''poll_interval'', ''commit_interval'',
      ''statistics_interval'', ''retry_base'', ''max_retry_delay'', ''idempotence_ttl'',
      ''peer_registration_ttl'', ''cassandra_retention'', ''slab_size'', ''scheduler_max_wait'',
      ''monopolization_window'', ''defer_base'', ''defer_max_delay'', ''defer_failure_window'',
      ''loader_seek_timeout'', ''timeout'']"
  by (simp add: config_params_def)

definition durations_valid :: "configuration \<Rightarrow> bool" where
  "durations_valid config \<longleftrightarrow>
     (\<forall>(name, kind) \<in> set config_params. kind = K_duration \<longrightarrow>
        (\<forall>x. config_get name config = Some (CV_float x) \<longrightarrow> valid_seconds x))"

lemma durations_valid_iff:
  "durations_valid config \<longleftrightarrow>
     list_all (\<lambda>name. \<forall>x. config_get name config = Some (CV_float x) \<longrightarrow> valid_seconds x)
       (map fst (filter (\<lambda>(_, k). k = K_duration) config_params))"
  by (auto simp: durations_valid_def list_all_iff)

lemma list_all_named:
  "list_all (\<lambda>(n, a). P a \<longleftrightarrow> Q n) xs \<Longrightarrow> list_all Q (map fst xs) \<longleftrightarrow> list_all (\<lambda>(n, a). P a) xs"
  by (induction xs) auto

lemma native_accepts:
  assumes lib: "permissive lib"
    and options: "\<forall>(name, x) \<in> set (native_options native). x = map_option plain_value (config_get name config)"
  shows "(\<exists>b. consumer_builders_of lib native = Inr b) \<and> (\<exists>b. cassandra_builder native = Inr b) \<and>
      (\<exists>b. producer_builder native = Inr b) \<longleftrightarrow>
    durations_valid config \<and> config_get ''idempotence_cache_size'' config \<noteq> Some (CV_int 0) \<and>
    config_get ''state_read_cache'' config \<noteq> Some (CV_bool True) \<and>
    (\<forall>x. config_get ''state_read_cache'' config = Some (CV_float x) \<longrightarrow> valid_seconds x) \<and>
    (\<forall>cs. config_get ''state_collections'' config = Some (CV_collections (map Serialized cs)) \<longrightarrow>
       list_all collection_valid cs)"
proof -
  have field: "x = map_option plain_value (config_get name config)"
    if "(name, x) \<in> set (native_options native)" for name x
    using options that by blast
  have valid: "option_valid a \<longleftrightarrow> (\<forall>x. config_get name config = Some (CV_float x) \<longrightarrow> valid_seconds x)"
    if "(name, map_option CV_float a) \<in> set (native_options native)" for name a
    by (rule field_valid) (rule field [OF that])
  let ?durations = "[(''send_timeout'', cfg_send_timeout native), (''stall_threshold'', cfg_stall_threshold native),
      (''shutdown_timeout'', cfg_shutdown_timeout native), (''poll_interval'', cfg_poll_interval native),
      (''commit_interval'', cfg_commit_interval native),
      (''statistics_interval'', cfg_statistics_interval native), (''retry_base'', cfg_retry_base native),
      (''max_retry_delay'', cfg_max_retry_delay native), (''idempotence_ttl'', cfg_idempotence_ttl native),
      (''peer_registration_ttl'', cfg_peer_registration_ttl native),
      (''cassandra_retention'', cfg_cassandra_retention native), (''slab_size'', cfg_slab_size native),
      (''scheduler_max_wait'', cfg_scheduler_max_wait native),
      (''monopolization_window'', cfg_monopolization_window native), (''defer_base'', cfg_defer_base native),
      (''defer_max_delay'', cfg_defer_max_delay native),
      (''defer_failure_window'', cfg_defer_failure_window native),
      (''loader_seek_timeout'', cfg_loader_seek_timeout native), (''timeout'', cfg_timeout native)]"
  have "list_all (\<lambda>(name, a). (name, map_option CV_float a) \<in> set (native_options native)) ?durations"
    unfolding native_options_def by simp
  then have fields: "list_all (\<lambda>(name, a). option_valid a \<longleftrightarrow>
      (\<forall>x. config_get name config = Some (CV_float x) \<longrightarrow> valid_seconds x)) ?durations"
    by (rule list.pred_mono_strong) (auto dest: valid)
  have names: "map fst (filter (\<lambda>(_, k). k = K_duration) config_params) = map fst ?durations"
    unfolding duration_names by simp
  have "durations_valid config \<longleftrightarrow>
      list_all (\<lambda>name. \<forall>x. config_get name config = Some (CV_float x) \<longrightarrow> valid_seconds x) (map fst ?durations)"
    unfolding durations_valid_iff names ..
  also have "\<dots> \<longleftrightarrow> list_all (\<lambda>(name, a). option_valid a) ?durations"
    using fields by (rule list_all_named)
  finally have durations: "durations_valid config \<longleftrightarrow> list_all (\<lambda>(name, a). option_valid a) ?durations" .
  have capacity: "cfg_idempotence_cache_size native \<noteq> Some 0 \<longleftrightarrow>
      config_get ''idempotence_cache_size'' config \<noteq> Some (CV_int 0)"
    by (rule capacity_valid, rule field) (simp add: native_options_def)
  have cache: "read_cache_valid (cfg_state_read_cache native) \<longleftrightarrow>
      config_get ''state_read_cache'' config \<noteq> Some (CV_bool True) \<and>
      (\<forall>x. config_get ''state_read_cache'' config = Some (CV_float x) \<longrightarrow> valid_seconds x)"
    by (rule cache_valid, rule field) (simp add: native_options_def)
  have collections: "(case cfg_state_collections native of None \<Rightarrow> True | Some cols \<Rightarrow> list_all collection_valid cols) \<longleftrightarrow>
      (\<forall>cs. config_get ''state_collections'' config = Some (CV_collections (map Serialized cs)) \<longrightarrow>
         list_all collection_valid cs)"
    by (rule collections_valid, rule field) (simp add: native_options_def)
  show ?thesis
    unfolding builders_accept [OF lib] cassandra_accepts producer_accepts option_valid_iff durations
      capacity [symmetric] cache collections
    by (simp only: list.pred_inject prod.case simp_thms) blast
qed

lemma mode_accepted:
  assumes new: "configuration_new conv kwargs None = Inr config"
    and options: "\<forall>(name, x) \<in> set (native_options native). x = map_option plain_value (config_get name config)"
  shows "\<exists>m. mode_of d native = Inr m"
proof (cases "cfg_mode native")
  case None
  then show ?thesis by (simp add: mode_of_def)
next
  case (Some s)
  have "(''mode'', map_option CV_string (cfg_mode native)) \<in> set (native_options native)"
    by (simp add: native_options_def)
  with options have "map_option CV_string (cfg_mode native) = map_option plain_value (config_get ''mode'' config)"
    by blast
  with Some obtain v where v: "config_get ''mode'' config = Some v" "plain_value v = CV_string s"
    by (cases "config_get ''mode'' config") auto
  have "value_of_kind K_mode v" by (rule option_kind [OF new _ v(1)]) (simp add: config_params_def)
  with v(2) have "s \<in> {''pipeline'', ''low_latency'', ''best_effort''}" by (cases v) auto
  with Some show ?thesis by (auto simp: mode_of_def)
qed

text \<open>With everything accepted before it, the core's constructor is what is left.\<close>

lemma client_new_iff:
  assumes "calm env" and accepts: "\<And>mode producer consumer cassandra s. fst (new_erased mode producer consumer cassandra s) = Inr ()"
  shows "(\<exists>cl t. client_new env lib d in_runtime st (Inr ()) config new_erased s = (Inr cl, t)) \<longleftrightarrow>
    (\<exists>c. config = Inr c \<and> (\<exists>m. mode_of d c = Inr m) \<and> (\<exists>b. consumer_builders_of lib c = Inr b) \<and>
      (\<exists>b. cassandra_builder c = Inr b) \<and> (\<exists>b. producer_builder c = Inr b))"
proof -
  have bridge: "st_bridge (snd (ensure_runtime_context env in_runtime st)) \<noteq> None"
    by (auto simp: ensure_runtime_context_def get_or_init_def Let_def split: option.splits)
  have core: "new_erased mode producer consumer cassandra s = (Inr (), t) \<longleftrightarrow>
      t = snd (new_erased mode producer consumer cassandra s)" for mode producer consumer cassandra s t
    using accepts [of mode producer consumer cassandra s]
    by (cases "new_erased mode producer consumer cassandra s") auto
  show ?thesis
    unfolding client_new_def Let_def
    by (simp add: op_bind_eq_Inr_iff await_core_Inr_iff assms(1) bridge core accepts) blast
qed

lemma accepts_ex:
  "(\<And>c. D c \<Longrightarrow> M c \<and> (A c \<and> B c \<and> P c \<longleftrightarrow> R)) \<Longrightarrow>
    (\<exists>c. D c \<and> M c \<and> A c \<and> B c \<and> P c) \<longleftrightarrow> (\<exists>c. D c) \<and> R"
  by blast


definition accepting_core ::
  "mode \<Rightarrow> setter_call list \<Rightarrow> consumer_builders \<Rightarrow> setter_call list \<Rightarrow> (nat, string, unit) op"
where
  "accepting_core mode producer consumer cassandra = (\<lambda>s. (Inr (), Suc s))"


subsection \<open>Opening a client\<close>

text \<open>
  C36: \<open>Client.open\<close> leaves no client running: whatever the block does with its client (raise,
  return, shut it down itself), the client has been shut down when \<open>open\<close> is done, once. The
  block's value or exception is what \<open>open\<close> returns or raises, unless the shutdown failed: then
  its error is raised. Without a block, or when no client can be made, nothing is run.
\<close>

theorem open_always_shuts_down:
  fixes C :: "('s, 'e, 'j, 'h, 'r) client_core" and s t :: "'s client_state"
  assumes made: "client_new env lib d in_runtime st required config new_erased s = (Inr cl, t)"
    and body: "body cl t = (r, u)"
    and later: "calm env'" "env_pid env' = env_pid env"
  defines "opened \<equiv> client_open C env' (client_new env lib d in_runtime st required config new_erased) (Some body) s"
  shows "\<exists>outcome. cs_shutdown (snd opened) = Some outcome \<and>
      fst opened = (case outcome of Inl e \<Rightarrow> Inl (runtime_error e) | Inr _ \<Rightarrow> r) \<and>
      (case cs_shutdown u of
         Some earlier \<Rightarrow> outcome = earlier \<and> snd opened = u
       | None \<Rightarrow> outcome = map_err (hc_to_string C) (fst (hc_shutdown C (cs_core u))) \<and>
           cs_core (snd opened) = snd (hc_shutdown C (cs_core u)))"
proof -
  have "cl_fork cl = fork_guard_new env ''Prosody::Client''"
    using made by (auto simp: client_new_def op_bind_eq_Inr_iff Let_def)
  then have pid: "env_pid env' = guard_pid (cl_fork cl)" using later(2) by (simp add: fork_guard_new_def)
  have "opened = op_ensure (body cl) (client_shutdown C cl env') t"
    using made by (simp add: opened_def client_open_def)
  also have "\<dots> = (case client_shutdown C cl env' u of (Inl e, v) \<Rightarrow> (Inl e, v) | (Inr _, v) \<Rightarrow> (r, v))"
    by (simp add: op_ensure_def body)
  finally have opened: "opened =
      (case client_shutdown C cl env' u of (Inl e, v) \<Rightarrow> (Inl e, v) | (Inr _, v) \<Rightarrow> (r, v))" .
  have shutdown: "client_shutdown C cl env' u =
      (map_err runtime_error (fst (shutdown_future C u)), snd (shutdown_future C u))"
    using pid later(1) by (simp add: client_shutdown_def)
  have "cs_shutdown (snd opened) = Some (fst (shutdown_future C u)) \<and>
      fst opened = (case fst (shutdown_future C u) of Inl e \<Rightarrow> Inl (runtime_error e) | Inr _ \<Rightarrow> r) \<and>
      snd opened = snd (shutdown_future C u)"
    unfolding opened shutdown
    by (cases "fst (shutdown_future C u)")
       (auto simp: shutdown_future_def Let_def split: option.splits prod.splits)
  then show ?thesis
    by (auto simp: shutdown_future_def Let_def split: option.splits prod.splits)
qed

theorem open_always_shuts_down_witness:
  "client_open counting_core sample_env
     (client_new sample_env permissive_lib Pipeline False no_statics (Inr ()) (Inr default_configuration)
       (\<lambda>_ _ _ _ s. (Inr (), s)))
     (Some (\<lambda>_ s. (Inr (3 :: nat), s))) sample_client_state =
   (Inl (runtime_error ''already stopping''),
    \<lparr>cs_core = 1, cs_shutdown = Some (Inl ''already stopping'')\<rparr>)"
proof -
  let ?new = "client_new sample_env permissive_lib Pipeline False no_statics (Inr ()) (Inr default_configuration)
      (\<lambda>_ _ _ _ s. (Inr (), s)) :: (nat client_state, rb_error, client) op"
  have calm: "calm sample_env" by (simp add: calm_def sample_env_def)
  have "\<exists>cl t. ?new sample_client_state = (Inr cl, t)"
    unfolding client_new_iff [OF calm fst_conv]
    using accept_default by (simp add: default_configuration_def mode_of_def cassandra_accepts producer_accepts)
  then obtain cl t where made: "?new sample_client_state = (Inr cl, t)" by blast
  then have t: "t = sample_client_state"
    by (auto simp: client_new_def op_bind_eq_Inr_iff await_core_Inr_iff Let_def)
  let ?opened = "client_open counting_core sample_env ?new (Some (\<lambda>_ s. (Inr (3 :: nat), s))) sample_client_state"
  from open_always_shuts_down [OF made _ calm refl, of "\<lambda>_ s. (Inr (3 :: nat), s)" "Inr 3" t counting_core]
  have "cs_core (snd ?opened) = 1 \<and> cs_shutdown (snd ?opened) = Some (Inl ''already stopping'') \<and>
      fst ?opened = Inl (runtime_error ''already stopping'')"
    by (simp add: t sample_client_state_def counting_core_def)
  then show ?thesis by (cases ?opened) (cases "snd ?opened", simp)
qed

end
