(* ===== verification/Requests.thy ===== *)
theory Requests
  imports Client_Props Config_Props
begin

text \<open>
  \<open>Client#request\<close> and \<open>#request_excise\<close> (lib/prosody/request.rb), from the keywords of the Ruby
  call through the hash that is handed to the native method and its deserialization
  (client/request.rs) to the call of the core and the outcomes it comes back with.

  Parameter: serde_magnus's conversions of single Ruby values (\<open>request_serde\<close>).
\<close>

subsection \<open>Keywords\<close>

fun symbol_list :: "string list \<Rightarrow> string" where
  "symbol_list [] = []"
| "symbol_list [k] = CHR '':'' # k"
| "symbol_list (k # ks) = CHR '':'' # k @ '', '' @ symbol_list ks"

text \<open>Ruby's errors about keywords, in the singular or the plural.\<close>

definition keyword_error :: "string \<Rightarrow> string list \<Rightarrow> rb_error" where
  "keyword_error what ks =
     argument_error (what @ '' keyword'' @ (if length ks = 1 then '''' else ''s'') @ '': '' @ symbol_list ks)"

text \<open>Binding the keywords of a method whose keywords are all required.\<close>

definition bind_keywords :: "string list \<Rightarrow> (string \<times> rvalue) list \<Rightarrow> rb_error + (string \<times> rvalue) list" where
  "bind_keywords names kwargs =
     (let missing = filter (\<lambda>k. k \<notin> fst ` set kwargs) names;
          unknown = filter (\<lambda>k. k \<notin> set names) (map fst kwargs)
      in if missing \<noteq> [] then Inl (keyword_error ''missing'' missing)
         else if unknown \<noteq> [] then Inl (keyword_error ''unknown'' unknown)
         else Inr (map (\<lambda>k. (k, the (map_of kwargs k))) names))"

definition request_keywords :: "string list" where
  "request_keywords = [''topic'', ''key'', ''payload'', ''subsystems'', ''timeout'']"

definition request_excise_keywords :: "string list" where
  "request_excise_keywords = [''topic'', ''key'', ''subsystems'', ''timeout'']"

subsection \<open>Deserialization\<close>

record 'j request_serde =
  rq_string :: "rvalue \<Rightarrow> string + string"
  rq_json :: "rvalue \<Rightarrow> string + 'j"
  rq_strings :: "rvalue \<Rightarrow> string + string list"
  rq_f64 :: "rvalue \<Rightarrow> string + f64"

text \<open>What is left of a field's value when only its success matters.\<close>

definition checked :: "string + 'a \<Rightarrow> string + unit" where
  "checked r = res_map (\<lambda>_. ()) r"

text \<open>The entries are decoded in the hash's order; the first that does not fit ends it.\<close>

fun decode_request_entries :: "(string \<times> (rvalue \<Rightarrow> string + unit)) list \<Rightarrow> (string \<times> rvalue) list \<Rightarrow> string + unit" where
  "decode_request_entries tys [] = Inr ()"
| "decode_request_entries tys ((k, v) # h) =
     (case map_of tys k of
        None \<Rightarrow> decode_request_entries tys h
      | Some f \<Rightarrow> res_bind (f v) (\<lambda>_. decode_request_entries tys h))"

definition required_field :: "(rvalue \<Rightarrow> string + 'a) \<Rightarrow> (string \<times> rvalue) list \<Rightarrow> string \<Rightarrow> string + 'a" where
  "required_field f h name =
     (case map_of h name of
        Some v \<Rightarrow> f v
      | None \<Rightarrow> Inl (''missing field `'' @ name @ ''`''))"

definition deserialize_request :: "'j request_serde \<Rightarrow> (string \<times> rvalue) list \<Rightarrow> string + 'j native_request" where
  "deserialize_request D h =
     res_bind (decode_request_entries
       [(''topic'', checked \<circ> rq_string D), (''key'', checked \<circ> rq_string D),
        (''payload'', checked \<circ> rq_json D), (''subsystems'', checked \<circ> rq_strings D),
        (''timeout'', checked \<circ> rq_f64 D)] h) (\<lambda>_.
     res_bind (required_field (rq_string D) h ''topic'') (\<lambda>topic.
     res_bind (required_field (rq_string D) h ''key'') (\<lambda>key.
     res_bind (required_field (rq_json D) h ''payload'') (\<lambda>payload.
     res_bind (required_field (rq_strings D) h ''subsystems'') (\<lambda>subsystems.
     res_map (\<lambda>timeout. \<lparr>nr_topic = topic, nr_key = key, nr_payload = payload,
       nr_subsystems = subsystems, nr_timeout = timeout\<rparr>) (required_field (rq_f64 D) h ''timeout''))))))"

definition deserialize_excise_request :: "'j request_serde \<Rightarrow> (string \<times> rvalue) list \<Rightarrow> string + native_excise_request" where
  "deserialize_excise_request D h =
     res_bind (decode_request_entries
       [(''topic'', checked \<circ> rq_string D), (''key'', checked \<circ> rq_string D),
        (''subsystems'', checked \<circ> rq_strings D), (''timeout'', checked \<circ> rq_f64 D)] h) (\<lambda>_.
     res_bind (required_field (rq_string D) h ''topic'') (\<lambda>topic.
     res_bind (required_field (rq_string D) h ''key'') (\<lambda>key.
     res_bind (required_field (rq_strings D) h ''subsystems'') (\<lambda>subsystems.
     res_map (\<lambda>timeout. \<lparr>nx_topic = topic, nx_key = key,
       nx_subsystems = subsystems, nx_timeout = timeout\<rparr>) (required_field (rq_f64 D) h ''timeout'')))))"

subsection \<open>The Ruby methods\<close>

text \<open>\<open>unreadable\<close> is the exception serde_magnus makes of an error of its own.\<close>

definition ruby_request where
  "ruby_request C lib D unreadable serialize kwargs cl env =
     op_bind (op_lift (bind_keywords request_keywords kwargs)) (\<lambda>h.
       client_request C lib serialize (map_err unreadable (deserialize_request D h)) cl env)"

definition ruby_request_excise where
  "ruby_request_excise C lib D unreadable serialize kwargs cl env =
     op_bind (op_lift (bind_keywords request_excise_keywords kwargs)) (\<lambda>h.
       client_request_excise C lib serialize (map_err unreadable (deserialize_excise_request D h)) cl env)"

text \<open>
  \<open>message\<close> of a \<open>Failure\<close>'s error, by its class; only \<open>HandlerError\<close> carries one of its own.
\<close>

definition failure_message :: "string \<Rightarrow> string option \<Rightarrow> string option" where
  "failure_message name message =
     (if name = ''HandlerError'' then message
      else if name = ''Timeout'' then Some ''no response arrived before the deadline''
      else if name = ''FormatMismatch'' then Some ''the responder answered in another format''
      else if name = ''MalformedResponse'' then Some ''the response did not decode''
      else None)"

text \<open>Every error of a response becomes an object that has a message.\<close>

lemma failures_have_messages:
  "outcome_of env serialize (Inl e) = Inr (Failure name message) \<Longrightarrow>
     failure_message name message = Some (case e of
       Handler_error m \<Rightarrow> m
     | Timed_out \<Rightarrow> ''no response arrived before the deadline''
     | Format_mismatch \<Rightarrow> ''the responder answered in another format''
     | Malformed \<Rightarrow> ''the response did not decode'')"
  by (cases e) (auto simp: outcome_of_def response_error_object_def failure_message_def res_map_eq_Inr_iff)

subsection \<open>Which requests are made\<close>

lemma bind_keywords_iff:
  "bind_keywords names kwargs = Inr h \<longleftrightarrow>
     fst ` set kwargs = set names \<and> h = map (\<lambda>k. (k, the (map_of kwargs k))) names"
proof -
  let ?missing = "filter (\<lambda>k. k \<notin> fst ` set kwargs) names"
  let ?unknown = "filter (\<lambda>k. k \<notin> set names) (map fst kwargs)"
  have "?missing = [] \<longleftrightarrow> set names \<subseteq> fst ` set kwargs" by (auto simp: filter_empty_conv)
  moreover have "?unknown = [] \<longleftrightarrow> fst ` set kwargs \<subseteq> set names" by (auto simp: filter_empty_conv)
  ultimately have "?missing = [] \<and> ?unknown = [] \<longleftrightarrow> fst ` set kwargs = set names" by blast
  then show ?thesis unfolding bind_keywords_def Let_def by auto
qed

lemma checked_simps [simp]: "checked (Inl e) = Inl e" "checked (Inr x) = Inr ()"
  by (simp_all add: checked_def)

lemma deserialize_request_iff:
  "deserialize_request D (map (\<lambda>k. (k, a k)) request_keywords) = Inr q \<longleftrightarrow>
     rq_string D (a ''topic'') = Inr (nr_topic q) \<and> rq_string D (a ''key'') = Inr (nr_key q) \<and>
     rq_json D (a ''payload'') = Inr (nr_payload q) \<and>
     rq_strings D (a ''subsystems'') = Inr (nr_subsystems q) \<and> rq_f64 D (a ''timeout'') = Inr (nr_timeout q)"
  by (cases "rq_string D (a ''topic'')"; cases "rq_string D (a ''key'')";
      cases "rq_json D (a ''payload'')"; cases "rq_strings D (a ''subsystems'')";
      cases "rq_f64 D (a ''timeout'')"; cases q)
     (auto simp: deserialize_request_def request_keywords_def required_field_def)

lemma request_parameters_iff:
  "request_parameters lib names secs = Inr (ids, timeout) \<longleftrightarrow>
     list_all2 (\<lambda>n i. lib_subsystem lib n = Inr i) names ids \<and> try_from_secs_f64 secs = Some timeout"
  by (auto simp: request_parameters_def res_bind_eq_Inr_iff traverse_Inr_iff split: option.splits)

text \<open>What the keywords stand for, once everything in them is accepted.\<close>

definition request_decodes ::
  "'j request_serde \<Rightarrow> config_lib \<Rightarrow> (string \<times> rvalue) list \<Rightarrow> 'j native_request \<Rightarrow> nat list \<Rightarrow> duration \<Rightarrow> bool"
where
  "request_decodes D lib kwargs q ids timeout \<longleftrightarrow>
     fst ` set kwargs = {''topic'', ''key'', ''payload'', ''subsystems'', ''timeout''} \<and>
     rq_string D (the (map_of kwargs ''topic'')) = Inr (nr_topic q) \<and>
     rq_string D (the (map_of kwargs ''key'')) = Inr (nr_key q) \<and>
     rq_json D (the (map_of kwargs ''payload'')) = Inr (nr_payload q) \<and>
     rq_strings D (the (map_of kwargs ''subsystems'')) = Inr (nr_subsystems q) \<and>
     list_all2 (\<lambda>name i. lib_subsystem lib name = Inr i) (nr_subsystems q) ids \<and>
     rq_f64 D (the (map_of kwargs ''timeout'')) = Inr (nr_timeout q) \<and>
     try_from_secs_f64 (nr_timeout q) = Some timeout"

lemma request_decodes_iff:
  "request_decodes D lib kwargs q ids timeout \<longleftrightarrow>
     (\<exists>h. bind_keywords request_keywords kwargs = Inr h \<and> deserialize_request D h = Inr q \<and>
       request_parameters lib (nr_subsystems q) (nr_timeout q) = Inr (ids, timeout))"
proof -
  have "set request_keywords = {''topic'', ''key'', ''payload'', ''subsystems'', ''timeout''}"
    by (auto simp: request_keywords_def)
  then show ?thesis
    unfolding request_decodes_def bind_keywords_iff request_parameters_iff
    using deserialize_request_iff [of D "\<lambda>k. the (map_of kwargs k)" q] by auto
qed

lemma request_refused:
  assumes "env_pid env = guard_pid (cl_fork cl)" and "\<nexists>q ids timeout. request_decodes D lib kwargs q ids timeout"
  shows "\<exists>e. ruby_request C lib D unreadable serialize kwargs cl env st = (Inl e, st)"
proof (cases "bind_keywords request_keywords kwargs")
  case (Inl e)
  then show ?thesis by (simp add: ruby_request_def op_bind_def)
next
  case h: (Inr h)
  show ?thesis
  proof (cases "deserialize_request D h")
    case (Inl e)
    with h assms(1) show ?thesis by (simp add: ruby_request_def client_request_def op_bind_def)
  next
    case q: (Inr q)
    have "request_parameters lib (nr_subsystems q) (nr_timeout q) \<noteq> Inr (ids, timeout)" for ids timeout
      using assms(2) h q unfolding request_decodes_iff by blast
    then obtain e where "request_parameters lib (nr_subsystems q) (nr_timeout q) = Inl e"
      by (cases "request_parameters lib (nr_subsystems q) (nr_timeout q)") auto
    with h q assms(1) show ?thesis by (simp add: ruby_request_def client_request_def op_bind_def)
  qed
qed

lemma request_made:
  assumes "traced env" and "env_pid env = guard_pid (cl_fork cl)"
    and "request_decodes D lib kwargs q ids timeout"
    and "hc_request C (nr_topic q) (nr_key q) (nr_payload q) ids timeout (cs_core st) = (reply, s)"
  shows "ruby_request C lib D unreadable serialize kwargs cl env st =
    (case reply of
       Inl e \<Rightarrow> Inl (runtime_error (hc_to_string C e))
     | Inr results \<Rightarrow> request_outcomes env serialize results, st\<lparr>cs_core := s\<rparr>)"
proof -
  from assms(3) obtain h where
    "bind_keywords request_keywords kwargs = Inr h" "deserialize_request D h = Inr q"
    "request_parameters lib (nr_subsystems q) (nr_timeout q) = Inr (ids, timeout)"
    unfolding request_decodes_iff by blast
  then show ?thesis
    using assms(1,2,4)
    by (cases reply) (simp_all add: ruby_request_def client_request_def op_bind_def on_core_def)
qed

text \<open>
  C37: A request, from its keywords to its outcomes. If the call has exactly the five keywords,
  each decodes, every subsystem name is valid and the timeout is a duration, the core gets
  exactly these values, once; its error is raised, and the hash that is returned has one entry
  per subsystem that answered, made from its last answer. In every other case the call raises
  and the core is not called.
\<close>

theorem request_reaches_core:
  assumes "traced env" and "env_pid env = guard_pid (cl_fork cl)"
    and "ruby_request C lib D unreadable serialize kwargs cl env st = (r, st')"
  shows "(\<forall>q ids timeout. request_decodes D lib kwargs q ids timeout \<longrightarrow>
      (case hc_request C (nr_topic q) (nr_key q) (nr_payload q) ids timeout (cs_core st) of (reply, s) \<Rightarrow>
        st' = st\<lparr>cs_core := s\<rparr> \<and>
        (\<forall>e. reply = Inl e \<longrightarrow> r = Inl (runtime_error (hc_to_string C e))) \<and>
        (\<forall>outcomes. r = Inr outcomes \<longrightarrow> (\<exists>results. reply = Inr results \<and> distinct (map fst outcomes) \<and>
          (\<forall>k. case last_result k results of
             None \<Rightarrow> map_of outcomes k = None
           | Some x \<Rightarrow> \<exists>out. outcome_of env serialize x = Inr out \<and> map_of outcomes k = Some out))))) \<and>
    ((\<nexists>q ids timeout. request_decodes D lib kwargs q ids timeout) \<longrightarrow> st' = st \<and> (\<exists>e. r = Inl e))"
proof (intro conjI allI impI)
  fix q ids timeout
  assume decodes: "request_decodes D lib kwargs q ids timeout"
  obtain reply s where reply: "hc_request C (nr_topic q) (nr_key q) (nr_payload q) ids timeout (cs_core st) = (reply, s)"
    by fastforce
  from request_made [OF assms(1,2) decodes reply] assms(3)
  have "r = (case reply of Inl e \<Rightarrow> Inl (runtime_error (hc_to_string C e))
      | Inr results \<Rightarrow> request_outcomes env serialize results)" and "st' = st\<lparr>cs_core := s\<rparr>" by auto
  then show "case hc_request C (nr_topic q) (nr_key q) (nr_payload q) ids timeout (cs_core st) of (reply, s) \<Rightarrow>
        st' = st\<lparr>cs_core := s\<rparr> \<and>
        (\<forall>e. reply = Inl e \<longrightarrow> r = Inl (runtime_error (hc_to_string C e))) \<and>
        (\<forall>outcomes. r = Inr outcomes \<longrightarrow> (\<exists>results. reply = Inr results \<and> distinct (map fst outcomes) \<and>
          (\<forall>k. case last_result k results of
             None \<Rightarrow> map_of outcomes k = None
           | Some x \<Rightarrow> \<exists>out. outcome_of env serialize x = Inr out \<and> map_of outcomes k = Some out)))"
    using request_outcomes_by_subsystem [of env serialize]
    by (simp add: reply split: sum.split)
next
  assume "\<nexists>q ids timeout. request_decodes D lib kwargs q ids timeout"
  from request_refused [OF assms(2) this, of C unreadable serialize st] assms(3)
  show "st' = st" "\<exists>e. r = Inl e" by auto
qed

definition sample_request_serde :: "int request_serde" where
  "sample_request_serde =
     \<lparr>rq_string = (\<lambda>v. case v of RString s \<Rightarrow> Inr s | _ \<Rightarrow> Inl ''invalid type''),
      rq_json = (\<lambda>v. case v of RInteger n \<Rightarrow> Inr n | _ \<Rightarrow> Inl ''invalid type''),
      rq_strings = (\<lambda>v. case v of RObject _ \<Rightarrow> Inr [''a''] | _ \<Rightarrow> Inl ''invalid type''),
      rq_f64 = (\<lambda>v. case v of RFloat x \<Rightarrow> Inr x | _ \<Rightarrow> Inl ''invalid type'')\<rparr>"

definition echoing_core :: "(nat, string, int, unit, unit) client_core" where
  "echoing_core = counting_core\<lparr>hc_request := (\<lambda>_ _ payload _ _ s. (Inr [(''a'', Inr payload)], Suc s))\<rparr>"

theorem request_reaches_core_witness:
  "cs_core (snd (ruby_request echoing_core permissive_lib sample_request_serde argument_error (\<lambda>n. Inr (RInteger n))
      [(''payload'', RInteger 7), (''topic'', RString ''t''), (''key'', RString ''k''),
       (''timeout'', RFloat (F64 0)), (''subsystems'', RObject 0)] sample_client sample_env sample_client_state)) = 1"
proof -
  let ?kw = "[(''payload'', RInteger 7), (''topic'', RString ''t''), (''key'', RString ''k''),
       (''timeout'', RFloat (F64 0)), (''subsystems'', RObject 0)]"
  let ?q = "\<lparr>nr_topic = ''t'', nr_key = ''k'', nr_payload = 7, nr_subsystems = [''a''], nr_timeout = F64 0\<rparr> :: int native_request"
  have "valid_seconds (F64 0)"
    using round_half_even_of_int [of 0] by (simp add: valid_seconds_def max_nanos_def)
  then obtain timeout where "try_from_secs_f64 (F64 0) = Some timeout"
    using try_from_secs_f64_None_iff by blast
  then have decodes: "request_decodes sample_request_serde permissive_lib ?kw ?q [0] timeout"
    by (auto simp: request_decodes_def sample_request_serde_def permissive_lib_def)
  obtain r st' where run: "ruby_request echoing_core permissive_lib sample_request_serde argument_error
      (\<lambda>n. Inr (RInteger n)) ?kw sample_client sample_env sample_client_state = (r, st')" by fastforce
  have pid: "env_pid sample_env = guard_pid (cl_fork sample_client)"
    by (simp add: sample_env_def sample_client_def)
  have "traced sample_env" by (simp add: traced_def calm_def sample_env_def)
  from request_reaches_core [OF this pid run, THEN conjunct1, rule_format, OF decodes]
  have "cs_core st' = 1" by (simp add: echoing_core_def sample_client_state_def)
  then show ?thesis by (simp add: run)
qed

end
