(* ===== verification/Startup.thy ===== *)
theory Startup
  imports Client
begin

text \<open>
  What happens in a process before its first client: \<open>require "prosody"\<close> (lib/prosody.rb), and
  the set-up of runtime, bridge and tracing by the first native call (\<open>RUNTIME\<close> of lib.rs,
  \<open>ensure_runtime_context\<close> of util.rs with its failures, \<open>Logger::new\<close> of logging.rs). The
  statics of Client are an abstraction of it.

  Parameters: what building the tokio runtime, \<open>Logger.new($stdout)\<close> and the core's
  \<open>initialize_tracing\<close> return (\<open>startup_lib\<close>), and the files that \<open>require_relative\<close> finds.
\<close>

subsection \<open>Loading the native extension\<close>

definition is_digit :: "char \<Rightarrow> bool" where
  "is_digit ch \<longleftrightarrow> (of_char ch :: nat) \<in> {48..57}"

text \<open>\<open>/(\d+\.\d+)/.match(s)\<close>, printed: the first match from the left, or nothing.\<close>

fun ruby_version :: "string \<Rightarrow> string" where
  "ruby_version [] = []"
| "ruby_version (ch # s) =
     (let major = takeWhile is_digit (ch # s); rest = dropWhile is_digit (ch # s);
          minor = takeWhile is_digit (tl rest)
      in if major \<noteq> [] \<and> rest \<noteq> [] \<and> hd rest = CHR ''.'' \<and> minor \<noteq> [] then major @ ''.'' @ minor
         else ruby_version s)"

text \<open>
  The build for the running Ruby version, or else the generic one; \<open>require\<close> is what
  \<open>require_relative\<close> of a path raises. Only a \<open>LoadError\<close> is rescued.
\<close>

definition load_native :: "(string \<Rightarrow> rb_error option) \<Rightarrow> string \<Rightarrow> rb_error + string" where
  "load_native require version =
     (let path = ''prosody/'' @ ruby_version version @ ''/prosody'' in
      case require path of
        None \<Rightarrow> Inr path
      | Some e \<Rightarrow>
          if err_class e = Core_class ''LoadError'' then
            (case require ''prosody/prosody'' of None \<Rightarrow> Inr ''prosody/prosody'' | Some d \<Rightarrow> Inl d)
          else Inl e)"

lemma ruby_version_sample: "ruby_version ''3.4.7'' = ''3.4''"
  by (simp add: is_digit_def)

text \<open>Loading raises a \<open>LoadError\<close> only when neither build is there.\<close>

lemma load_native_cases:
  "load_native require version = Inr path \<Longrightarrow> require path = None"
  "load_native require version = Inl e \<Longrightarrow> err_class e = Core_class ''LoadError'' \<Longrightarrow>
     require ''prosody/prosody'' = Some e"
  by (auto simp: load_native_def Let_def split: option.splits if_splits)

subsection \<open>The state of the process\<close>

record process_state =
  ps_runtime :: "u32 option" \<comment> \<open>\<open>RUNTIME\<close>, with the process that built it\<close>
  ps_bridge :: "u32 option"
  ps_tracing :: "u32 option"
  ps_logger :: "nat option" \<comment> \<open>\<open>@logger\<close> of the \<open>Prosody\<close> module\<close>
  ps_layers :: "nat option list" \<comment> \<open>calls of \<open>initialize_tracing\<close>: the logger each was given\<close>
  ps_stderr :: "string list" \<comment> \<open>lines of \<open>report\<close>\<close>

record startup_lib =
  su_runtime :: "usize \<Rightarrow> string + unit" \<comment> \<open>by the stack size of its threads\<close>
  su_default_logger :: "rb_error + nat"
  su_show :: "rb_error \<Rightarrow> string"
  su_initialize_tracing :: "nat option \<Rightarrow> string + unit"

definition report_line :: "string \<Rightarrow> process_state \<Rightarrow> process_state" where
  "report_line line p = p\<lparr>ps_stderr := ps_stderr p @ [line]\<rparr>"

text \<open>\<open>Prosody.logger\<close> and \<open>Prosody.logger=\<close>\<close>

definition ruby_logger :: "startup_lib \<Rightarrow> (process_state, rb_error, nat) op" where
  "ruby_logger S p =
     (case ps_logger p of
        Some l \<Rightarrow> (Inr l, p)
      | None \<Rightarrow> (case su_default_logger S of
            Inl e \<Rightarrow> (Inl e, p)
          | Inr l \<Rightarrow> (Inr l, p\<lparr>ps_logger := Some l\<rparr>)))"

definition ruby_logger_set :: "nat option \<Rightarrow> process_state \<Rightarrow> process_state" where
  "ruby_logger_set l p = p\<lparr>ps_logger := l\<rparr>"

subsection \<open>Runtime, bridge and tracing\<close>

definition WORKER_STACK_SIZE :: usize where
  "WORKER_STACK_SIZE = 8 * 1024 * 1024"

text \<open>Forcing \<open>RUNTIME\<close>; the error is \<open>process::abort\<close>.\<close>

definition runtime_force :: "startup_lib \<Rightarrow> u32 \<Rightarrow> (process_state, unit, unit) op" where
  "runtime_force S pid p =
     (case ps_runtime p of
        Some _ \<Rightarrow> (Inr (), p)
      | None \<Rightarrow> (case su_runtime S WORKER_STACK_SIZE of
            Inr _ \<Rightarrow> (Inr (), p\<lparr>ps_runtime := Some pid\<rparr>)
          | Inl e \<Rightarrow> (Inl (), report_line (''failed to create Tokio runtime: '' @ e) p)))"

text \<open>The initializer of \<open>TRACING_INIT\<close>: without a logger, tracing is set up all the same.\<close>

definition init_tracing :: "startup_lib \<Rightarrow> process_state \<Rightarrow> process_state" where
  "init_tracing S p =
     (case ruby_logger S p of (r, p) \<Rightarrow>
        let maybe_logger = (case r of Inr l \<Rightarrow> Some l | Inl _ \<Rightarrow> None);
            p = (case r of Inr _ \<Rightarrow> p | Inl e \<Rightarrow> report_line (''failed to create logger: '' @ su_show S e) p);
            p = p\<lparr>ps_layers := ps_layers p @ [maybe_logger]\<rparr>
        in case su_initialize_tracing S maybe_logger of
            Inr _ \<Rightarrow> p
          | Inl e \<Rightarrow> report_line (''failed to initialize tracing: '' @ e) p)"

definition runtime_context :: "startup_lib \<Rightarrow> u32 \<Rightarrow> bool \<Rightarrow> (process_state, unit, bool) op" where
  "runtime_context S pid in_runtime =
     op_bind (if in_runtime then op_ok () else runtime_force S pid) (\<lambda>_ p.
       let p = p\<lparr>ps_bridge := get_or_init pid (ps_bridge p)\<rparr>;
           p = (case ps_tracing p of Some _ \<Rightarrow> p | None \<Rightarrow> (init_tracing S p)\<lparr>ps_tracing := Some pid\<rparr>)
       in (Inr (\<not> in_runtime), p))"

subsection \<open>The statics are an abstraction\<close>

definition statics_of :: "process_state \<Rightarrow> statics" where
  "statics_of p = \<lparr>st_runtime = ps_runtime p, st_bridge = ps_bridge p, st_tracing = ps_tracing p\<rparr>"

lemma ruby_logger_frame:
  "ruby_logger S p = (r, p') \<Longrightarrow> statics_of p' = statics_of p \<and> ps_layers p' = ps_layers p \<and>
     ps_stderr p' = ps_stderr p"
  by (auto simp: ruby_logger_def statics_of_def split: option.splits sum.splits)

lemma init_tracing_frame:
  "statics_of (init_tracing S p) = statics_of p"
  "ps_layers (init_tracing S p) = ps_layers p @
     [case fst (ruby_logger S p) of Inr l \<Rightarrow> Some l | Inl _ \<Rightarrow> None]"
proof -
  obtain r p' where rp: "ruby_logger S p = (r, p')" by fastforce
  from ruby_logger_frame [OF rp]
  show "statics_of (init_tracing S p) = statics_of p"
    "ps_layers (init_tracing S p) = ps_layers p @
       [case fst (ruby_logger S p) of Inr l \<Rightarrow> Some l | Inl _ \<Rightarrow> None]"
    by (simp_all add: init_tracing_def rp Let_def report_line_def statics_of_def split: sum.split)
qed

lemma runtime_context_aborts:
  "runtime_context S pid in_runtime p = (Inl u, p') \<Longrightarrow>
     \<not> in_runtime \<and> ps_runtime p = None \<and> (\<exists>e. su_runtime S WORKER_STACK_SIZE = Inl e)"
  by (auto simp: runtime_context_def runtime_force_def op_bind_def Let_def
      split: if_splits option.splits sum.splits)

text \<open>
  A native call that survives sets the statics as \<open>ensure_runtime_context\<close> says, whichever of
  the logger and the tracing failed.
\<close>

theorem runtime_context_refines:
  assumes "runtime_context S (env_pid env) in_runtime p = (Inr guard, p')"
  shows "ensure_runtime_context env in_runtime (statics_of p) = (guard, statics_of p')"
proof -
  define q where "q = (if in_runtime then p else p\<lparr>ps_runtime := get_or_init (env_pid env) (ps_runtime p)\<rparr>)"
  define b where "b = q\<lparr>ps_bridge := get_or_init (env_pid env) (ps_bridge q)\<rparr>"
  have same: "p\<lparr>ps_runtime := Some x\<rparr> = p" if "ps_runtime p = Some x" for x
    using that by (cases p) simp
  have "p' = (case ps_tracing b of Some _ \<Rightarrow> b | None \<Rightarrow> (init_tracing S b)\<lparr>ps_tracing := Some (env_pid env)\<rparr>)"
    and guard: "guard = (\<not> in_runtime)"
    using assms
    by (auto simp: runtime_context_def runtime_force_def op_bind_def Let_def q_def b_def get_or_init_def same
        split: if_splits option.splits sum.splits)
  then have "statics_of p' = (statics_of b)\<lparr>st_tracing := get_or_init (env_pid env) (ps_tracing b)\<rparr>"
    using init_tracing_frame(1) [of S b]
    by (auto simp: statics_of_def get_or_init_def split: option.splits)
  then show ?thesis
    by (simp add: guard ensure_runtime_context_def Let_def statics_of_def b_def q_def)
qed

subsection \<open>Histories\<close>

text \<open>What Ruby code does with the process: native calls, and assignments of the logger.\<close>

datatype process_event = Native_call startup_lib u32 bool | Assign_logger "nat option"

inductive process_run :: "process_event list \<Rightarrow> process_state \<Rightarrow> bool" where
  loaded: "process_run [] \<lparr>ps_runtime = None, ps_bridge = None, ps_tracing = None, ps_logger = None,
     ps_layers = [], ps_stderr = []\<rparr>"
| native_call: "process_run evs p \<Longrightarrow> runtime_context S pid in_runtime p = (Inr guard, p') \<Longrightarrow>
     process_run (evs @ [Native_call S pid in_runtime]) p'"
| assigned: "process_run evs p \<Longrightarrow> process_run (evs @ [Assign_logger l]) (ruby_logger_set l p)"

definition is_native :: "process_event \<Rightarrow> bool" where
  "is_native ev = (case ev of Native_call _ _ _ \<Rightarrow> True | Assign_logger _ \<Rightarrow> False)"

lemma runtime_context_layers:
  assumes "runtime_context S pid in_runtime p = (Inr guard, p')"
  shows "ps_tracing p' \<noteq> None"
    and "ps_layers p' = (if ps_tracing p = None then ps_layers p @
      [case fst (ruby_logger S p) of Inr l \<Rightarrow> Some l | Inl _ \<Rightarrow> None] else ps_layers p)"
    and "ps_tracing p \<noteq> None \<Longrightarrow> ps_logger p' = ps_logger p"
  using assms
  by (auto simp: runtime_context_def runtime_force_def op_bind_def Let_def init_tracing_frame(2)
      ruby_logger_def split: if_splits option.splits sum.splits)

lemma process_run_layers:
  "process_run evs p \<Longrightarrow>
     (ps_layers p = [] \<longleftrightarrow> ps_tracing p = None) \<and> length (ps_layers p) \<le> 1 \<and>
     (ps_tracing p = None \<longleftrightarrow> \<not> list_ex is_native evs)"
proof (induction rule: process_run.induct)
  case (native_call evs p S pid in_runtime guard p')
  from runtime_context_layers(1,2) [OF this(2)] native_call.IH show ?case
    by (auto simp: is_native_def)
qed (simp_all add: ruby_logger_set_def is_native_def)

text \<open>
  C38: Tracing is set up once: in every history of a process the core's tracing is
  initialized by the first native call and never again, with the logger that \<open>Prosody.logger\<close>
  gives then (none if it raises): a logger assigned later does not change it, and a failed
  set-up is not repeated.
\<close>

theorem tracing_set_up_once:
  assumes "process_run evs p" and "runtime_context S pid in_runtime p = (Inr guard, p')"
  shows "ps_layers p' = (if list_ex is_native evs then ps_layers p
      else [case ps_logger p of Some l \<Rightarrow> Some l
            | None \<Rightarrow> (case su_default_logger S of Inr l \<Rightarrow> Some l | Inl _ \<Rightarrow> None)]) \<and>
    length (ps_layers p') = 1"
proof -
  have fst_logger: "(case fst (ruby_logger S p) of Inr l \<Rightarrow> Some l | Inl _ \<Rightarrow> None) =
      (case ps_logger p of Some l \<Rightarrow> Some l
       | None \<Rightarrow> (case su_default_logger S of Inr l \<Rightarrow> Some l | Inl _ \<Rightarrow> None))"
    by (simp add: ruby_logger_def split: option.split sum.split)
  from process_run_layers [OF assms(1)] runtime_context_layers(2) [OF assms(2)] show ?thesis
    by (cases "ps_layers p") (auto simp: fst_logger)
qed

definition working_lib :: startup_lib where
  "working_lib = \<lparr>su_runtime = (\<lambda>_. Inr ()), su_default_logger = Inr 0, su_show = err_msg,
     su_initialize_tracing = (\<lambda>_. Inr ())\<rparr>"

theorem tracing_set_up_once_witness:
  "\<exists>p guard p'. process_run [Assign_logger (Some 7)] p \<and>
     runtime_context working_lib 100 False p = (Inr guard, p') \<and> ps_layers p' = [Some 7]"
proof -
  let ?p = "ruby_logger_set (Some 7) \<lparr>ps_runtime = None, ps_bridge = None, ps_tracing = None, ps_logger = None,
     ps_layers = [], ps_stderr = []\<rparr>"
  have run: "process_run [Assign_logger (Some 7)] ?p" using assigned [OF loaded] by simp
  obtain guard p' where ctx: "runtime_context working_lib 100 False ?p = (Inr guard, p')"
    by (auto simp: runtime_context_def runtime_force_def ruby_logger_set_def op_bind_def working_lib_def Let_def)
  from tracing_set_up_once [OF run ctx] run ctx show ?thesis
    by (auto simp: is_native_def ruby_logger_set_def)
qed

end
