(* ===== verification/Sentry.thy ===== *)
theory Sentry
  imports Ruby_Hash
begin

text \<open>
  The Sentry integration of lib/prosody/sentry.rb: when it is enabled, the warning about a
  missing gem, the lazy initialization, and the report of an exception with its context.

  Parameters: the sentry-ruby gem (\<open>sentry_gem\<close>, whose calls may raise), whether the process
  has loaded it, the environment variable \<open>SENTRY_DSN\<close>, and what \<open>Prosody.logger\<close> raises.
\<close>

subsection \<open>Exceptions\<close>

text \<open>
  A Ruby exception by the rescue clause that takes it: \<open>rescue => e\<close> takes a
  \<open>StandardError\<close>; \<open>Async::Stop\<close> and the others (\<open>NotImplementedError\<close>, \<open>SystemExit\<close>, ...)
  are outside \<open>StandardError\<close>.
\<close>

datatype raised = Standard rb_error | Async_stop | Not_standard rb_error

definition or_raise :: "raised option \<Rightarrow> ('s, raised, unit) op" where
  "or_raise e = (case e of None \<Rightarrow> op_ok () | Some x \<Rightarrow> op_err x)"

lemma or_raise_simps [simp]:
  "or_raise None s = (Inr (), s)" "or_raise (Some x) s = (Inl x, s)"
  by (simp_all add: or_raise_def)

subsection \<open>The gem and the module's state\<close>

record 'g sentry_gem =
  sg_initialized :: "'g \<Rightarrow> bool"
  sg_init :: "string \<Rightarrow> ('g, raised, unit) op"
  sg_with_scope :: "('g, raised, unit) op \<Rightarrow> ('g, raised, unit) op"
  sg_set_context :: "string \<Rightarrow> (string \<times> string) list \<Rightarrow> ('g, raised, unit) op"
  sg_set_tag :: "string \<Rightarrow> string \<Rightarrow> ('g, raised, unit) op"
  sg_capture :: "rb_error \<Rightarrow> ('g, raised, unit) op"

record 'g sentry_env =
  se_dsn :: "string option" \<comment> \<open>\<open>ENV["SENTRY_DSN"]\<close>\<close>
  se_gem :: "'g sentry_gem option" \<comment> \<open>\<open>defined?(::Sentry)\<close>\<close>
  se_logger :: "raised option" \<comment> \<open>what \<open>Prosody.logger.error\<close> raises\<close>

record 'g sentry_state =
  ss_warned :: bool \<comment> \<open>\<open>@warned_missing_gem\<close>\<close>
  ss_warnings :: nat \<comment> \<open>lines written to the logger\<close>
  ss_gem :: 'g

definition on_gem :: "('g, raised, 'a) op \<Rightarrow> ('g sentry_state, raised, 'a) op" where
  "on_gem m st = (case m (ss_gem st) of (r, g) \<Rightarrow> (r, st\<lparr>ss_gem := g\<rparr>))"

subsection \<open>enabled? and capture_exception\<close>

definition warn_missing_gem :: "'g sentry_env \<Rightarrow> ('g sentry_state, raised, unit) op" where
  "warn_missing_gem E st =
     (if ss_warned st then (Inr (), st)
      else case se_logger E of
          Some e \<Rightarrow> (Inl e, st\<lparr>ss_warned := True\<rparr>)
        | None \<Rightarrow> (Inr (), st\<lparr>ss_warned := True, ss_warnings := Suc (ss_warnings st)\<rparr>))"

definition sentry_enabled :: "'g sentry_env \<Rightarrow> ('g sentry_state, raised, bool) op" where
  "sentry_enabled E =
     (case se_gem E of
        None \<Rightarrow>
          if se_dsn E \<noteq> None then op_bind (warn_missing_gem E) (\<lambda>_. op_ok False) else op_ok False
      | Some G \<Rightarrow> (\<lambda>st.
          if sg_initialized G (ss_gem st) then (Inr True, st)
          else case se_dsn E of
              None \<Rightarrow> (Inr False, st)
            | Some dsn \<Rightarrow>
                op_bind (on_gem (sg_init G dsn)) (\<lambda>_ st. (Inr (sg_initialized G (ss_gem st)), st)) st))"

text \<open>The block of \<open>with_scope\<close>; a String is truthy, so a tag is set whenever the key is there.\<close>

definition report_in_scope ::
  "'g sentry_gem \<Rightarrow> rb_error \<Rightarrow> (string \<times> string) list \<Rightarrow> ('g, raised, unit) op"
where
  "report_in_scope G e context =
     op_bind (sg_set_context G ''prosody'' context) (\<lambda>_.
     op_bind (case map_of context ''event_type'' of
         Some event_type \<Rightarrow> sg_set_tag G ''prosody.event_type'' event_type
       | None \<Rightarrow> op_ok ()) (\<lambda>_.
       sg_capture G e))"

definition capture_exception ::
  "'g sentry_env \<Rightarrow> rb_error \<Rightarrow> (string \<times> string) list \<Rightarrow> ('g sentry_state, raised, unit) op"
where
  "capture_exception E e context =
     op_bind (sentry_enabled E) (\<lambda>on.
       (case se_gem E of
          Some G \<Rightarrow> if on then on_gem (sg_with_scope G (report_in_scope G e context)) else op_ok ()
        | None \<Rightarrow> op_ok ()))"

text \<open>A call for each of the exceptions, whatever the earlier calls raised.\<close>

fun capture_all ::
  "'g sentry_env \<Rightarrow> (rb_error \<times> (string \<times> string) list) list \<Rightarrow> 'g sentry_state \<Rightarrow> 'g sentry_state"
where
  "capture_all E [] st = st"
| "capture_all E ((e, context) # xs) st = capture_all E xs (snd (capture_exception E e context st))"

subsection \<open>Without the gem\<close>

lemma capture_without_gem:
  assumes "se_gem E = None"
  shows "capture_exception E e context st =
    (if se_dsn E = None then (Inr (), st) else warn_missing_gem E st)"
  using assms
  by (cases "se_logger E")
     (simp_all add: capture_exception_def sentry_enabled_def warn_missing_gem_def op_bind_def)

lemma capture_all_warned:
  assumes "se_gem E = None" and "ss_warned st"
  shows "capture_all E xs st = st"
  using assms(2)
  by (induction xs arbitrary: st) (auto simp: capture_without_gem [OF assms(1)] warn_missing_gem_def)

text \<open>
  Without the gem the integration is quiet: however many exceptions are passed to it, the gem
  is not touched and the warning is written at most once, by the first call, and only when a
  DSN is set; a call after the first never raises.
\<close>

theorem missing_gem_warns_once:
  assumes "se_gem E = None" and "\<not> ss_warned st"
  shows "ss_gem (capture_all E xs st) = ss_gem st \<and>
    ss_warnings (capture_all E xs st) = ss_warnings st +
      (if xs \<noteq> [] \<and> se_dsn E \<noteq> None \<and> se_logger E = None then 1 else 0) \<and>
    (xs \<noteq> [] \<or> se_dsn E = None \<or> se_logger E = None \<longrightarrow>
       fst (capture_exception E e context (capture_all E xs st)) = Inr ())"
proof (cases xs)
  case Nil
  then show ?thesis
    using assms by (auto simp: capture_without_gem warn_missing_gem_def)
next
  case (Cons x ys)
  obtain d cx where x: "x = (d, cx)" by (cases x)
  show ?thesis
  proof (cases "se_dsn E = None")
    case True
    have "capture_all E zs st = st" for zs
      by (induction zs) (auto simp: capture_without_gem [OF assms(1)] True)
    then show ?thesis by (simp add: True capture_without_gem [OF assms(1)])
  next
    case False
    then obtain dsn where dsn: "se_dsn E = Some dsn" by blast
    let ?st = "snd (warn_missing_gem E st)"
    have "ss_warned ?st" by (simp add: warn_missing_gem_def split: option.split)
    then have "capture_all E xs st = ?st"
      by (simp add: Cons x dsn capture_without_gem [OF assms(1)] capture_all_warned [OF assms(1)])
    then show ?thesis
      using assms dsn Cons
      by (cases "se_logger E") (simp_all add: capture_without_gem warn_missing_gem_def)
  qed
qed

subsection \<open>With the gem\<close>

text \<open>
  What the gem documents: data set on the scope stays on it, an event carries the data of
  the scope it is captured in, and the scope of \<open>with_scope\<close> starts as a copy of the current
  one and is dropped after its block. \<open>sent\<close> are the events captured, \<open>scope\<close> the current
  contexts and tags.
\<close>

type_synonym sentry_scope = "(string \<rightharpoonup> (string \<times> string) list) \<times> (string \<rightharpoonup> string)"

definition sentry_laws ::
  "'g sentry_gem \<Rightarrow> ('g \<Rightarrow> (rb_error \<times> sentry_scope) list) \<Rightarrow> ('g \<Rightarrow> sentry_scope) \<Rightarrow> bool"
where
  "sentry_laws G sent scope \<longleftrightarrow>
     (\<forall>n cx g. \<exists>g'. sg_set_context G n cx g = (Inr (), g') \<and> sent g' = sent g \<and>
        scope g' = ((fst (scope g))(n \<mapsto> cx), snd (scope g))) \<and>
     (\<forall>n v g. \<exists>g'. sg_set_tag G n v g = (Inr (), g') \<and> sent g' = sent g \<and>
        scope g' = (fst (scope g), (snd (scope g))(n \<mapsto> v))) \<and>
     (\<forall>e g. \<exists>g'. sg_capture G e g = (Inr (), g') \<and> sent g' = sent g @ [(e, scope g)] \<and>
        scope g' = scope g) \<and>
     (\<forall>m g r g'. m g = (r, g') \<longrightarrow>
        (\<exists>g''. sg_with_scope G m g = (r, g'') \<and> sent g'' = sent g' \<and> scope g'' = scope g))"

lemma sentry_lawsD:
  assumes "sentry_laws G sent scope"
  shows "\<exists>g'. sg_set_context G n cx g = (Inr (), g') \<and> sent g' = sent g \<and>
        scope g' = ((fst (scope g))(n \<mapsto> cx), snd (scope g))"
    and "\<exists>g'. sg_set_tag G n v g = (Inr (), g') \<and> sent g' = sent g \<and>
        scope g' = (fst (scope g), (snd (scope g))(n \<mapsto> v))"
    and "\<exists>g'. sg_capture G e g = (Inr (), g') \<and> sent g' = sent g @ [(e, scope g)] \<and> scope g' = scope g"
    and "m g = (r, g') \<Longrightarrow> \<exists>g''. sg_with_scope G m g = (r, g'') \<and> sent g'' = sent g' \<and> scope g'' = scope g"
  using assms unfolding sentry_laws_def by blast+

definition reported_scope :: "(string \<times> string) list \<Rightarrow> sentry_scope \<Rightarrow> sentry_scope" where
  "reported_scope context sc =
     ((fst sc)(''prosody'' \<mapsto> context),
      (case map_of context ''event_type'' of
         Some event_type \<Rightarrow> (snd sc)(''prosody.event_type'' \<mapsto> event_type)
       | None \<Rightarrow> snd sc))"

lemma report_in_scope_sends:
  assumes "sentry_laws G sent scope"
  shows "\<exists>g'. report_in_scope G e context g = (Inr (), g') \<and>
    sent g' = sent g @ [(e, reported_scope context (scope g))]"
proof -
  from sentry_lawsD(1) [OF assms] obtain g1 where
    g1: "sg_set_context G ''prosody'' context g = (Inr (), g1)" "sent g1 = sent g"
      "scope g1 = ((fst (scope g))(''prosody'' \<mapsto> context), snd (scope g))" by blast
  show ?thesis
  proof (cases "map_of context ''event_type''")
    case None
    from sentry_lawsD(3) [OF assms, of e g1] g1 None show ?thesis
      by (auto simp: report_in_scope_def reported_scope_def op_bind_def)
  next
    case (Some ty)
    from sentry_lawsD(2) [OF assms] obtain g2 where
      g2: "sg_set_tag G ''prosody.event_type'' ty g1 = (Inr (), g2)" "sent g2 = sent g1"
        "scope g2 = (fst (scope g1), (snd (scope g1))(''prosody.event_type'' \<mapsto> ty))" by blast
    from sentry_lawsD(3) [OF assms, of e g2] g1 g2 Some show ?thesis
      by (auto simp: report_in_scope_def reported_scope_def op_bind_def)
  qed
qed

text \<open>
  With an initialized gem an exception is reported once, with the context under \<open>prosody\<close> and
  its event type as a tag, and the surrounding scope is as it was.
\<close>

theorem exception_reported_once:
  assumes "sentry_laws G sent scope" and "se_gem E = Some G" and "sg_initialized G (ss_gem st)"
  shows "\<exists>g. capture_exception E e context st = (Inr (), st\<lparr>ss_gem := g\<rparr>) \<and>
    sent g = sent (ss_gem st) @ [(e, reported_scope context (scope (ss_gem st)))] \<and>
    scope g = scope (ss_gem st)"
proof -
  from report_in_scope_sends [OF assms(1)] obtain g1 where
    g1: "report_in_scope G e context (ss_gem st) = (Inr (), g1)"
      "sent g1 = sent (ss_gem st) @ [(e, reported_scope context (scope (ss_gem st)))]" by blast
  from sentry_lawsD(4) [OF assms(1), where m = "report_in_scope G e context", OF g1(1)] obtain g2 where
    "sg_with_scope G (report_in_scope G e context) (ss_gem st) = (Inr (), g2)" "sent g2 = sent g1"
    "scope g2 = scope (ss_gem st)" by blast
  with g1 assms(2,3) show ?thesis
    by (auto simp: capture_exception_def sentry_enabled_def on_gem_def op_bind_def)
qed

subsection \<open>A sample gem\<close>

text \<open>Its state: whether it is initialized, the events captured, the current scope.\<close>

type_synonym sample_gem_state = "bool \<times> (rb_error \<times> sentry_scope) list \<times> sentry_scope"

definition sample_gem :: "sample_gem_state sentry_gem" where
  "sample_gem = \<lparr>sg_initialized = fst, sg_init = (\<lambda>_ (_, sent, sc). (Inr (), (True, sent, sc))),
     sg_with_scope = (\<lambda>m (i, sent, sc). case m (i, sent, sc) of (r, (i', sent', _)) \<Rightarrow> (r, (i', sent', sc))),
     sg_set_context = (\<lambda>n cx (i, sent, (cs, ts)). (Inr (), (i, sent, (cs(n \<mapsto> cx), ts)))),
     sg_set_tag = (\<lambda>n v (i, sent, (cs, ts)). (Inr (), (i, sent, (cs, ts(n \<mapsto> v))))),
     sg_capture = (\<lambda>e (i, sent, sc). (Inr (), (i, sent @ [(e, sc)], sc)))\<rparr>"

lemma sample_gem_laws: "sentry_laws sample_gem (fst \<circ> snd) (snd \<circ> snd)"
  by (auto simp: sentry_laws_def sample_gem_def split: prod.splits)

end
