(* ===== verification/Worker_Body.thy ===== *)
theory Worker_Body
  imports Workers Sentry
begin

text \<open>
  The body of a worker in \<open>run_with_cancellation\<close> (lib/prosody/processor.rb 266-289), statement
  by statement: the task's block, the calls of the callback, the log lines, the report to Sentry,
  the span's calls, the rescue clauses and the \<open>ensure\<close>. Any of them may raise. The theory shows
  that it is a path of \<open>worker_step\<close>, which Workers puts beside the handling, and which
  failures reach Sentry and the callback.
\<close>

subsection \<open>The body\<close>

text \<open>What the logger raises for a line, and what the two calls of the span raise.\<close>

record worker_calls =
  wc_log :: "string \<Rightarrow> raised option"
  wc_record_exception :: "rb_error \<Rightarrow> raised option"
  wc_set_status :: "string \<Rightarrow> raised option"

record ('j, 'g) body_state =
  bs_channel :: "'j result_channel"
  bs_calls :: "channel_event list" \<comment> \<open>the calls of the callback\<close>
  bs_sentry :: "'g sentry_state"
  bs_token :: nat \<comment> \<open>signals in the token's queue\<close>

definition call_back :: "'j callee \<Rightarrow> rvalue list \<Rightarrow> (('j, 'g) body_state, raised, bool) op" where
  "call_back c args s =
     (case callback_call c args (bs_channel s) of (r, ch) \<Rightarrow>
        (map_err Standard r, s\<lparr>bs_channel := ch, bs_calls := bs_calls s @ [Callback args]\<rparr>))"

definition on_sentry :: "('g sentry_state, raised, 'a) op \<Rightarrow> (('j, 'g) body_state, raised, 'a) op" where
  "on_sentry m s = (case m (bs_sentry s) of (r, st) \<Rightarrow> (r, s\<lparr>bs_sentry := st\<rparr>))"

text \<open>\<open>if callback.call(...) then f end\<close>\<close>

definition if_sent :: "('s, raised, bool) op \<Rightarrow> ('s, raised, unit) op \<Rightarrow> ('s, raised, unit) op" where
  "if_sent m f = op_bind m (\<lambda>sent. if sent then f else op_ok ())"

definition worker_main ::
  "'j callee \<Rightarrow> worker_calls \<Rightarrow> string \<Rightarrow> raised + rvalue \<Rightarrow> (('j, 'g) body_state, raised, unit) op"
where
  "worker_main c L task_id block =
     op_bind (op_lift block) (\<lambda>result.
       if_sent (call_back c [RBool True, result])
         (or_raise (wc_log L (''Task '' @ task_id @ '' completed successfully''))))"

fun worker_rescue ::
  "'j callee \<Rightarrow> (rb_error \<Rightarrow> rvalue) \<Rightarrow> worker_calls \<Rightarrow> 'g sentry_env \<Rightarrow> string \<Rightarrow>
    (string \<times> string) list \<Rightarrow> raised \<Rightarrow> (('j, 'g) body_state, raised, unit) op"
where
  "worker_rescue c exn L E task_id event_context Async_stop =
     if_sent (call_back c [RBool False, exn (runtime_error ''Task cancelled'')])
       (or_raise (wc_log L (''Task '' @ task_id @ '' was cancelled'')))"
| "worker_rescue c exn L E task_id event_context (Standard e) =
     op_bind (on_sentry (capture_exception E e (aset ''task_id'' task_id event_context))) (\<lambda>_.
     if_sent (call_back c [RBool False, exn e])
       (op_bind (or_raise (wc_log L (''Error executing task '' @ task_id @ '': '' @ err_msg e))) (\<lambda>_.
        op_bind (or_raise (wc_record_exception L e)) (\<lambda>_.
          or_raise (wc_set_status L (err_msg e))))))"
| "worker_rescue c exn L E task_id event_context (Not_standard e) = op_err (Not_standard e)"

definition worker_body ::
  "'j callee \<Rightarrow> (rb_error \<Rightarrow> rvalue) \<Rightarrow> worker_calls \<Rightarrow> 'g sentry_env \<Rightarrow> string \<Rightarrow>
    (string \<times> string) list \<Rightarrow> raised + rvalue \<Rightarrow> (('j, 'g) body_state, raised, unit) op"
where
  "worker_body c exn L E task_id event_context block =
     op_ensure (op_rescue (worker_main c L task_id block)
         (worker_rescue c exn L E task_id event_context))
       (\<lambda>s. (Inr (), s\<lparr>bs_token := Suc (bs_token s)\<rparr>))"

subsection \<open>What the parts report\<close>

definition reports :: "'j callee \<Rightarrow> ('j, 'g) body_state \<Rightarrow> channel_event list \<Rightarrow> ('j, 'g) body_state \<Rightarrow> bool" where
  "reports c s evs s' \<longleftrightarrow>
     bs_calls s' = bs_calls s @ evs \<and> bs_channel s' = snd (channel_run c evs (bs_channel s)) \<and>
     bs_token s' = bs_token s"

lemma reports_nothing: "reports c s [] s"
  by (simp add: reports_def)

lemma reports_call: "call_back c args s = (r, s') \<Longrightarrow> reports c s [Callback args] s'"
  by (auto simp: call_back_def reports_def split: prod.splits)

lemma reports_sentry: "on_sentry m s = (r, s') \<Longrightarrow> reports c s [] s'"
  by (auto simp: on_sentry_def reports_def split: prod.splits)

lemma reports_more: "reports c s evs s' \<Longrightarrow> reports c s' evs' s'' \<Longrightarrow> reports c s (evs @ evs') s''"
  by (auto simp: reports_def channel_run_append split: prod.splits)

lemma or_raise_state: "or_raise e s = (r, s') \<Longrightarrow> s' = s"
  by (cases e) simp_all

lemma if_sent_reports:
  assumes "if_sent (call_back c args) f s = (r, s')" and "\<And>t r t'. f t = (r, t') \<Longrightarrow> t' = t"
  shows "reports c s [Callback args] s'"
proof -
  obtain q t where t: "call_back c args s = (q, t)" by fastforce
  with assms have "s' = t"
    by (auto simp: if_sent_def op_bind_def split: sum.splits if_splits)
  with reports_call [OF t] show ?thesis by simp
qed

text \<open>How the block ended, by what the rescue clauses make of an exception.\<close>

definition rescued_end :: "'g sentry_env \<Rightarrow> string \<Rightarrow> (string \<times> string) list \<Rightarrow> 'g sentry_state \<Rightarrow> raised \<Rightarrow> block_end" where
  "rescued_end E task_id event_context st x =
     (case x of
        Async_stop \<Rightarrow> Stopped
      | Standard e \<Rightarrow>
          (case fst (capture_exception E e (aset ''task_id'' task_id event_context) st) of
             Inl _ \<Rightarrow> Escaped
           | Inr _ \<Rightarrow> Raised e)
      | Not_standard _ \<Rightarrow> Escaped)"

definition body_end ::
  "'g sentry_env \<Rightarrow> string \<Rightarrow> (string \<times> string) list \<Rightarrow> 'g sentry_state \<Rightarrow> raised + rvalue \<Rightarrow> block_end"
where
  "body_end E task_id event_context st block =
     (case block of Inr v \<Rightarrow> Returned v | Inl x \<Rightarrow> rescued_end E task_id event_context st x)"

lemma error_logging_state:
  "op_bind (or_raise a) (\<lambda>_. op_bind (or_raise b) (\<lambda>_. or_raise d)) t = (r, t') \<Longrightarrow> t' = t"
  by (cases a; cases b; cases d) (simp_all add: op_bind_def)

lemma rescue_reports:
  assumes "worker_rescue c exn L E task_id event_context x s = (r, s')"
  shows "reports c s (end_reports exn (rescued_end E task_id event_context (bs_sentry s) x)) s'"
proof (cases x)
  case (Standard e)
  let ?m = "capture_exception E e (aset ''task_id'' task_id event_context)"
  obtain q st where st: "?m (bs_sentry s) = (q, st)" by fastforce
  then have sentry: "on_sentry ?m s = (q, s\<lparr>bs_sentry := st\<rparr>)" by (simp add: on_sentry_def)
  note [simp del] = end_reports.simps
  show ?thesis
  proof (cases q)
    case (Inl y)
    with assms sentry have "s' = s\<lparr>bs_sentry := st\<rparr>" by (simp add: Standard)
    with reports_sentry [OF sentry] Inl show ?thesis
      by (simp add: Standard rescued_end_def st end_reports.simps)
  next
    case (Inr y)
    with assms have "if_sent (call_back c [RBool False, exn e])
       (op_bind (or_raise (wc_log L (''Error executing task '' @ task_id @ '': '' @ err_msg e))) (\<lambda>_.
        op_bind (or_raise (wc_record_exception L e)) (\<lambda>_. or_raise (wc_set_status L (err_msg e)))))
       (s\<lparr>bs_sentry := st\<rparr>) = (r, s')"
      by (simp add: Standard sentry)
    from reports_more [OF reports_sentry [OF sentry] if_sent_reports [OF this error_logging_state]]
    show ?thesis by (simp add: Standard rescued_end_def st Inr end_reports.simps)
  qed
next
  case Async_stop
  with assms show ?thesis
    by (simp add: rescued_end_def) (rule if_sent_reports, assumption, rule or_raise_state)
next
  case (Not_standard e)
  with assms show ?thesis by (simp add: rescued_end_def reports_nothing)
qed

lemma main_reports:
  assumes "worker_main c L task_id (Inr v) s = (r, s')"
  shows "reports c s [Callback [RBool True, v]] s'"
  using assms by (simp add: worker_main_def) (rule if_sent_reports, assumption, rule or_raise_state)

lemma main_raised: "worker_main c L task_id (Inl x) s = (Inl x, s)"
  by (simp add: worker_main_def op_bind_def)

subsection \<open>A path of the worker\<close>

inductive worker_steps :: "(rb_error \<Rightarrow> rvalue) \<Rightarrow> worker \<Rightarrow> channel_event list \<Rightarrow> worker \<Rightarrow> bool" for exn
where
  no_step: "worker_steps exn w [] w"
| one_more: "worker_step exn w evs w' \<Longrightarrow> worker_steps exn w' evs' w'' \<Longrightarrow> worker_steps exn w (evs @ evs') w''"

text \<open>The block's end and the \<open>ensure\<close>, with a failed success log between them or not.\<close>

lemma body_path:
  assumes "wk_phase w = In_block" and "e = Stopped \<longrightarrow> wk_stop w"
    and "extra = [] \<or> (\<exists>v d. e = Returned v \<and> extra = [Callback [RBool False, exn d]])"
  shows "\<exists>w'. worker_steps exn w (end_reports exn e @ extra) w' \<and> wk_phase w' = Left e \<and>
    wk_token w' = Suc (wk_token w)"
proof -
  let ?w1 = "w\<lparr>wk_phase := Reported e, wk_stop := False\<rparr>"
  let ?w2 = "?w1\<lparr>wk_phase := Left e, wk_token := Suc (wk_token w)\<rparr>"
  have first: "worker_step exn w (end_reports exn e) ?w1"
    by (rule block_ends) (use assms in simp_all)
  have last: "worker_steps exn ?w1 [] ?w2"
    using one_more [OF ensured no_step, of ?w1 e exn] by simp
  have "worker_steps exn ?w1 extra ?w2"
  proof (cases "extra = []")
    case False
    with assms(3) obtain v d where "e = Returned v" "extra = [Callback [RBool False, exn d]]" by blast
    with one_more [OF logging_raises last, of v d] show ?thesis by simp
  qed (use last in simp)
  from one_more [OF first this] show ?thesis by (intro exI [of _ ?w2]) simp
qed

lemma body_reports:
  assumes "worker_body c exn L E task_id event_context block s = (r, s')"
  shows "\<exists>extra. reports c s (end_reports exn (body_end E task_id event_context (bs_sentry s) block) @ extra)
      (s'\<lparr>bs_token := bs_token s\<rparr>) \<and> bs_token s' = Suc (bs_token s) \<and>
    (extra = [] \<or> (\<exists>v d. block = Inr v \<and> extra = [Callback [RBool False, exn d]]))"
proof -
  let ?rescue = "worker_rescue c exn L E task_id event_context"
  obtain q t where t: "op_rescue (worker_main c L task_id block) ?rescue s = (q, t)" by fastforce
  with assms have s': "s' = t\<lparr>bs_token := Suc (bs_token t)\<rparr>"
    by (simp add: worker_body_def op_ensure_def)
  have closing: ?thesis if "reports c s (end_reports exn (body_end E task_id event_context (bs_sentry s) block) @ extra) t"
    "extra = [] \<or> (\<exists>v d. block = Inr v \<and> extra = [Callback [RBool False, exn d]])" for extra
    using that s' by (intro exI [of _ extra]) (simp add: reports_def)
  show ?thesis
  proof (cases block)
    case (Inl x)
    with t have "?rescue x s = (q, t)" by (simp add: op_rescue_def main_raised)
    from rescue_reports [OF this] Inl show ?thesis by (intro closing [of "[]"]) (simp_all add: body_end_def)
  next
    case (Inr v)
    obtain q1 t1 where t1: "worker_main c L task_id (Inr v) s = (q1, t1)" by fastforce
    note main = main_reports [OF t1]
    show ?thesis
    proof (cases q1)
      case (Inl x)
      with t t1 Inr have "?rescue x t1 = (q, t)" by (simp add: op_rescue_def)
      note rescued = reports_more [OF main rescue_reports [OF this]]
      have "end_reports exn (rescued_end E task_id event_context (bs_sentry t1) x) = [] \<or>
        (\<exists>d. end_reports exn (rescued_end E task_id event_context (bs_sentry t1) x) = [Callback [RBool False, exn d]])"
        by (cases "rescued_end E task_id event_context (bs_sentry t1) x")
           (auto simp: rescued_end_def split: raised.splits sum.splits)
      with rescued Inr show ?thesis by (intro closing) (auto simp: body_end_def)
    next
      case (Inr u)
      with t t1 \<open>block = Inr v\<close> have "t = t1" by (simp add: op_rescue_def)
      with main \<open>block = Inr v\<close> show ?thesis by (intro closing [of "[]"]) (simp_all add: body_end_def)
    qed
  qed
qed

text \<open>
  C8: The worker's code is a path of the worker's steps: whatever the block, the callback, the
  logger, the span and Sentry return or raise, the body makes the calls of the callback that
  \<open>worker_step\<close> allows for the end of its block, signals its token exactly once, and leaves. What
  it does not report is an exception outside \<open>StandardError\<close>, and one that Sentry failed on.
\<close>

theorem worker_body_refines:
  assumes "worker_body c exn L E task_id event_context block s = (r, s')"
    and "wk_phase w = In_block" and "block = Inl Async_stop \<longrightarrow> wk_stop w"
  shows "\<exists>evs w'. worker_steps exn w evs w' \<and>
    bs_calls s' = bs_calls s @ evs \<and> bs_channel s' = snd (channel_run c evs (bs_channel s)) \<and>
    wk_phase w' = Left (body_end E task_id event_context (bs_sentry s) block) \<and>
    wk_token w' = Suc (wk_token w) \<and> bs_token s' = Suc (bs_token s)"
proof -
  let ?e = "body_end E task_id event_context (bs_sentry s) block"
  from body_reports [OF assms(1)] obtain extra where
    extra: "reports c s (end_reports exn ?e @ extra) (s'\<lparr>bs_token := bs_token s\<rparr>)"
      "bs_token s' = Suc (bs_token s)"
      "extra = [] \<or> (\<exists>v d. block = Inr v \<and> extra = [Callback [RBool False, exn d]])" by blast
  have "?e = Stopped \<longrightarrow> wk_stop w"
    using assms(3) by (auto simp: body_end_def rescued_end_def split: sum.splits raised.splits)
  moreover have "extra = [] \<or> (\<exists>v d. ?e = Returned v \<and> extra = [Callback [RBool False, exn d]])"
    using extra(3) by (auto simp: body_end_def)
  ultimately obtain w' where "worker_steps exn w (end_reports exn ?e @ extra) w'" "wk_phase w' = Left ?e"
    "wk_token w' = Suc (wk_token w)"
    using body_path [OF assms(2), of ?e extra exn] by blast
  with extra(1,2) show ?thesis by (auto simp: reports_def)
qed

definition quiet_calls :: worker_calls where
  "quiet_calls = \<lparr>wc_log = (\<lambda>_. None), wc_record_exception = (\<lambda>_. None), wc_set_status = (\<lambda>_. None)\<rparr>"

definition body_start :: "'g \<Rightarrow> ('j, 'g) body_state" where
  "body_start g = \<lparr>bs_channel = result_channel_new, bs_calls = [],
     bs_sentry = \<lparr>ss_warned = False, ss_warnings = 0, ss_gem = g\<rparr>, bs_token = 0\<rparr>"

definition no_sentry :: "unit sentry_env" where
  "no_sentry = \<lparr>se_dsn = None, se_gem = None, se_logger = None\<rparr>"

theorem worker_body_refines_witness:
  "\<exists>evs w'. worker_steps (\<lambda>_. RNil) worker_start evs w' \<and>
     bs_calls (snd (worker_body sample_callee (\<lambda>_. RNil) quiet_calls no_sentry ''t'' [] (Inr (RInteger 1)) (body_start ()))) = evs \<and>
     wk_phase w' = Left (Returned (RInteger 1))"
proof -
  let ?s = "body_start () :: (int, unit) body_state"
  obtain r s' where run: "worker_body sample_callee (\<lambda>_. RNil) quiet_calls no_sentry ''t'' [] (Inr (RInteger 1)) ?s = (r, s')"
    by fastforce
  have "wk_phase worker_start = In_block" "bs_calls ?s = []" by (simp_all add: worker_start_def body_start_def)
  with worker_body_refines [OF run, of worker_start] show ?thesis
    by (auto simp: run body_end_def)
qed

subsection \<open>A failed record\<close>

lemma fresh_failure_received:
  assumes "reports c s [Callback [RBool False, v]] s'" and "bs_channel s = result_channel_new"
  shows "receive (bs_channel s') = Some (task_outcome c False v)"
  using assms
  by (simp add: reports_def result_send_fresh result_channel_new_def receive_def)

lemma body_sentry_after_raise:
  assumes "capture_exception E e (aset ''task_id'' task_id event_context) (bs_sentry s) = (Inr (), st)"
  shows "bs_sentry (snd (worker_body c exn L E task_id event_context (Inl (Standard e)) s)) = st"
proof -
  obtain r t where call: "call_back c [RBool False, exn e] (s\<lparr>bs_sentry := st\<rparr>) = (r, t)" by fastforce
  then have "bs_sentry t = st" by (auto simp: call_back_def split: prod.splits)
  with assms call show ?thesis
    by (simp add: worker_body_def op_ensure_def op_rescue_def main_raised on_sentry_def op_bind_def
        if_sent_def or_raise_def split: sum.split option.split)
qed

text \<open>
  C9: A handler's failure is told twice: when the handler of a message raises a
  \<open>StandardError\<close> and Sentry is running, Sentry gets that exception once, tagged as a message,
  with the topic, partition, key and offset of the record and the task's id; and the Rust side
  receives its classified message, whatever the logger and the span do.
\<close>

theorem failed_record_reported:
  assumes "sentry_laws G sent scope" and "se_gem E = Some G" and "sg_initialized G (ss_gem (bs_sentry s))"
    and "bs_channel s = result_channel_new"
    and "fst (handler ''on_message'' d (Message_arg m) w) = Inl e"
    and "t = on_message handler carrier m d"
    and "s' = snd (worker_body c exn L E (task_name t) (task_event t)
      (map_err Standard (fst (task_function t w))) s)"
  shows "\<exists>sc context. sent (ss_gem (bs_sentry s')) = sent (ss_gem (bs_sentry s)) @ [(e, sc)] \<and>
    snd sc ''prosody.event_type'' = Some ''message'' \<and> fst sc ''prosody'' = Some context \<and>
    map_of context = [''event_type'' \<mapsto> ''message'', ''topic'' \<mapsto> cm_topic m,
      ''partition'' \<mapsto> show_int (sint (cm_partition m)), ''key'' \<mapsto> cm_key m,
      ''offset'' \<mapsto> show_int (sint (cm_offset m)), ''task_id'' \<mapsto> record_task_id m] \<and>
    receive (bs_channel s') = Some (task_outcome c False (exn e))"
proof -
  have t: "task_name t = record_task_id m" "task_event t = record_event_context ''message'' m"
    "fst (task_function t w) = Inl e"
    using assms(5)
    by (auto simp: assms(6) on_message_def handle_record_def Let_def split: prod.splits sum.splits)
  let ?cx = "aset ''task_id'' (record_task_id m) (record_event_context ''message'' m)"
  have cx: "map_of ?cx = [''event_type'' \<mapsto> ''message'', ''topic'' \<mapsto> cm_topic m,
      ''partition'' \<mapsto> show_int (sint (cm_partition m)), ''key'' \<mapsto> cm_key m,
      ''offset'' \<mapsto> show_int (sint (cm_offset m)), ''task_id'' \<mapsto> record_task_id m]"
    by (auto simp: aset_lookup record_event_context_def fun_eq_iff)
  from exception_reported_once [OF assms(1-3), of e ?cx] obtain g where
    g: "capture_exception E e ?cx (bs_sentry s) = (Inr (), (bs_sentry s)\<lparr>ss_gem := g\<rparr>)"
      "sent g = sent (ss_gem (bs_sentry s)) @ [(e, reported_scope ?cx (scope (ss_gem (bs_sentry s))))]"
    by blast
  have s': "s' = snd (worker_body c exn L E (record_task_id m) (record_event_context ''message'' m) (Inl (Standard e)) s)"
    by (simp add: assms(7) t)
  obtain r where run: "worker_body c exn L E (record_task_id m) (record_event_context ''message'' m) (Inl (Standard e)) s = (r, s')"
    using s' by (metis prod.collapse)
  have "body_end E (record_task_id m) (record_event_context ''message'' m) (bs_sentry s) (Inl (Standard e)) = Raised e"
    by (simp add: body_end_def rescued_end_def g)
  with body_reports [OF run] have "reports c s [Callback [RBool False, exn e]] (s'\<lparr>bs_token := bs_token s\<rparr>)"
    by auto
  from fresh_failure_received [OF this assms(4)]
  have "receive (bs_channel s') = Some (task_outcome c False (exn e))" by simp
  moreover have "bs_sentry s' = (bs_sentry s)\<lparr>ss_gem := g\<rparr>"
    using body_sentry_after_raise [OF g(1)] s' by simp
  ultimately show ?thesis
    using g(2) cx
    by (intro exI [of _ "reported_scope ?cx (scope (ss_gem (bs_sentry s)))"] exI [of _ ?cx])
       (simp add: reported_scope_def)
qed

definition running_sentry :: "sample_gem_state sentry_env" where
  "running_sentry = \<lparr>se_dsn = None, se_gem = Some sample_gem, se_logger = None\<rparr>"

definition failing_task :: "unit ruby_code task" where
  "failing_task = on_message (\<lambda>_ _ _ w. (Inl (runtime_error ''no''), w)) [] sample_message Normal"

theorem failed_record_reported_witness:
  "\<exists>sc. fst (snd (ss_gem (bs_sentry (snd (worker_body sample_callee (\<lambda>_. RNil) quiet_calls running_sentry
      (task_name failing_task) (task_event failing_task) (map_err Standard (fst (task_function failing_task ())))
      (body_start (True, [], (Map.empty, Map.empty)))))))) = [(runtime_error ''no'', sc)] \<and>
    snd sc ''prosody.event_type'' = Some ''message''"
  using failed_record_reported [OF sample_gem_laws, of running_sentry
      "body_start (True, [], (Map.empty, Map.empty))" "\<lambda>_ _ _ w. (Inl (runtime_error ''no''), w)" Normal
      sample_message "()" "runtime_error ''no''" failing_task "[]" _ sample_callee "\<lambda>_. RNil" quiet_calls, OF _ _ _ _ failing_task_def refl]
  by (simp add: running_sentry_def body_start_def) (simp add: sample_gem_def, blast)

text \<open>
  When the report to Sentry raises (a call of the gem, or the logger that is to be warned that
  the gem is missing), the worker tells the Rust side nothing: no call of the callback, only
  the token's signal.
\<close>

theorem sentry_failure_silences:
  assumes "fst (capture_exception E e (aset ''task_id'' task_id event_context) (bs_sentry s)) = Inl x"
    and "worker_body c exn L E task_id event_context (Inl (Standard e)) s = (r, s')"
  shows "bs_calls s' = bs_calls s \<and> bs_channel s' = bs_channel s \<and> bs_token s' = Suc (bs_token s)"
proof -
  have "body_end E task_id event_context (bs_sentry s) (Inl (Standard e)) = Escaped"
    by (simp add: body_end_def rescued_end_def assms(1))
  with body_reports [OF assms(2)] show ?thesis by (auto simp: reports_def)
qed

end
