(* ===== verification/Dispatch.thy ===== *)
theory Dispatch
  imports Sentry
begin

text \<open>
  The dispatch span of a task: \<open>handle_execute\<close> and the frame of \<open>run_with_cancellation\<close>
  (lib/prosody/processor.rb), with every call that may raise. The worker and the watcher that
  \<open>run_with_cancellation\<close> spawns are in Worker_Body and Workers; here only the outcome of
  waiting for the worker counts.

  Parameters: the OpenTelemetry and async gems. \<open>Barrier#async\<close> either raises without running
  its block, or runs it: a \<open>StandardError\<close> or \<open>Async::Stop\<close> of the block stays in the new task,
  another exception may come out of the call.
\<close>

record dispatch_calls =
  dc_extract :: "raised option" \<comment> \<open>\<open>propagation.extract\<close>\<close>
  dc_start_span :: "raised option"
  dc_context :: "raised option" \<comment> \<open>capturing the context with the span in it\<close>
  dc_log :: "raised option"
  dc_spawn :: "raised option" \<comment> \<open>\<open>barrier.async\<close> of the processor's barrier\<close>
  dc_escapes :: bool \<comment> \<open>whether a non-standard exception of the block comes out of it\<close>
  dc_barrier :: "raised option" \<comment> \<open>\<open>Async::Barrier.new\<close>\<close>
  dc_worker :: "raised option" \<comment> \<open>\<open>barrier.async\<close> of the worker\<close>
  dc_watcher :: "raised option"
  dc_wait :: "raised option" \<comment> \<open>\<open>worker_task.wait\<close>\<close>
  dc_stop :: "raised option" \<comment> \<open>\<open>barrier.stop\<close>\<close>
  dc_finish :: "raised option"

record spans =
  sp_started :: nat
  sp_finished :: nat

definition start_span :: "dispatch_calls \<Rightarrow> (spans, raised, unit) op" where
  "start_span C s =
     (case dc_start_span C of
        Some e \<Rightarrow> (Inl e, s)
      | None \<Rightarrow> (Inr (), s\<lparr>sp_started := Suc (sp_started s)\<rparr>))"

definition finish_span :: "dispatch_calls \<Rightarrow> (spans, raised, unit) op" where
  "finish_span C s = or_raise (dc_finish C) (s\<lparr>sp_finished := Suc (sp_finished s)\<rparr>)"

text \<open>\<open>barrier&.stop\<close> does nothing when \<open>Async::Barrier.new\<close> raised.\<close>

definition run_with_cancellation :: "dispatch_calls \<Rightarrow> (spans, raised, unit) op" where
  "run_with_cancellation C =
     op_ensure
       (op_bind (or_raise (dc_barrier C)) (\<lambda>_.
        op_bind (or_raise (dc_worker C)) (\<lambda>_.
        op_bind (or_raise (dc_watcher C)) (\<lambda>_.
          or_raise (dc_wait C)))))
       (op_ensure (if dc_barrier C = None then or_raise (dc_stop C) else op_ok ()) (finish_span C))"

definition barrier_async :: "dispatch_calls \<Rightarrow> (spans, raised, unit) op \<Rightarrow> (spans, raised, unit) op" where
  "barrier_async C block =
     op_bind (or_raise (dc_spawn C)) (\<lambda>_.
       op_rescue block (\<lambda>e. (case e of
          Not_standard x \<Rightarrow> if dc_escapes C then op_err (Not_standard x) else op_ok ()
        | _ \<Rightarrow> op_ok ())))"

text \<open>\<open>rescue => e\<close>: the span is finished and the exception raised again.\<close>

definition handle_execute :: "dispatch_calls \<Rightarrow> (spans, raised, unit) op" where
  "handle_execute C =
     op_bind (or_raise (dc_extract C)) (\<lambda>_.
     op_bind (start_span C) (\<lambda>_.
     op_bind (or_raise (dc_context C)) (\<lambda>_.
     op_bind (or_raise (dc_log C)) (\<lambda>_.
       op_rescue (barrier_async C (run_with_cancellation C)) (\<lambda>e. (case e of
          Standard x \<Rightarrow> op_bind (finish_span C) (\<lambda>_. op_err (Standard x))
        | _ \<Rightarrow> op_err e))))))"

lemma finish_span_counts: "snd (finish_span C s) = s\<lparr>sp_finished := Suc (sp_finished s)\<rparr>"
  by (cases "dc_finish C") (simp_all add: finish_span_def)

lemma or_raise_snd [simp]: "snd (or_raise e s) = s"
  by (cases e) simp_all

lemma op_ensure_snd: "snd (op_ensure m f s) = snd (f (snd (m s)))"
  by (auto simp: op_ensure_def split: prod.splits sum.splits)

text \<open>Once it is entered, \<open>run_with_cancellation\<close> finishes the span whatever raises.\<close>

lemma run_with_cancellation_finishes:
  "snd (run_with_cancellation C s) = s\<lparr>sp_finished := Suc (sp_finished s)\<rparr>"
proof -
  let ?m = "op_bind (or_raise (dc_barrier C)) (\<lambda>_. op_bind (or_raise (dc_worker C)) (\<lambda>_.
        op_bind (or_raise (dc_watcher C)) (\<lambda>_. or_raise (dc_wait C))))"
  have "snd (?m s) = s"
    by (cases "dc_barrier C"; cases "dc_worker C"; cases "dc_watcher C") (simp_all add: op_bind_def)
  then show ?thesis by (simp add: run_with_cancellation_def op_ensure_snd finish_span_counts)
qed

lemma barrier_async_finishes:
  assumes "snd (block s) = t"
  shows "barrier_async C block s = (case dc_spawn C of
      Some e \<Rightarrow> (Inl e, s)
    | None \<Rightarrow> (fst (barrier_async C block s), t))" and
    "dc_spawn C = None \<Longrightarrow> fst (barrier_async C block s) \<noteq> Inl (Standard x)"
proof -
  obtain r where "block s = (r, t)" using assms by (cases "block s") auto
  then show "barrier_async C block s = (case dc_spawn C of
      Some e \<Rightarrow> (Inl e, s)
    | None \<Rightarrow> (fst (barrier_async C block s), t))"
    "dc_spawn C = None \<Longrightarrow> fst (barrier_async C block s) \<noteq> Inl (Standard x)"
    by (auto simp: barrier_async_def op_bind_def op_rescue_def split: option.split sum.split raised.split)
qed

definition unowned :: "dispatch_calls \<Rightarrow> bool" where
  "unowned C \<longleftrightarrow> dc_context C \<noteq> None \<or> dc_log C \<noteq> None \<or>
     (case dc_spawn C of None \<Rightarrow> False | Some (Standard x) \<Rightarrow> False | Some _ \<Rightarrow> True)"

text \<open>
  A dispatch span is finished exactly once: whichever of the calls raise, in the worker's
  frame, in its \<open>ensure\<close>, or in handing the task to the barrier, a span that was started has
  been finished once, never twice. It is left open only when an exception comes between the
  start and the \<open>begin\<close> (capturing the context, the debug line), or one that is not a
  \<open>StandardError\<close> keeps the barrier from running the block.
\<close>

theorem dispatch_span_finished_once:
  "let started = (if dc_extract C = None \<and> dc_start_span C = None then 1 else 0) in
     sp_started (snd (handle_execute C s)) = sp_started s + started \<and>
     sp_finished (snd (handle_execute C s)) = sp_finished s + (if unowned C then 0 else started)"
proof (cases "dc_extract C = None \<and> dc_start_span C = None")
  case False
  then have "snd (handle_execute C s) = s"
    by (cases "dc_extract C"; cases "dc_start_span C") (auto simp: handle_execute_def op_bind_def start_span_def)
  with False show ?thesis by auto
next
  case started: True
  let ?s = "s\<lparr>sp_started := Suc (sp_started s)\<rparr>"
  let ?async = "barrier_async C (run_with_cancellation C)"
  let ?rescue = "\<lambda>e. (case e of Standard x \<Rightarrow> op_bind (finish_span C) (\<lambda>_. op_err (Standard x)) | _ \<Rightarrow> op_err e)
    :: (spans, raised, unit) op"
  have head: "handle_execute C s = op_bind (or_raise (dc_context C)) (\<lambda>_. op_bind (or_raise (dc_log C)) (\<lambda>_.
      op_rescue ?async ?rescue)) ?s"
    using started by (simp add: handle_execute_def op_bind_def start_span_def)
  note async = barrier_async_finishes [where block = "run_with_cancellation C" and s = ?s and C = C,
    OF run_with_cancellation_finishes]
  show ?thesis
  proof (cases "dc_context C = None \<and> dc_log C = None")
    case False
    then have "snd (handle_execute C s) = ?s"
      by (cases "dc_context C"; cases "dc_log C") (simp_all add: head op_bind_def)
    with False started show ?thesis by (auto simp: unowned_def)
  next
    case True
    then have tail: "handle_execute C s = op_rescue ?async ?rescue ?s" by (simp add: head op_bind_def)
    show ?thesis
    proof (cases "dc_spawn C")
      case None
      let ?t = "?s\<lparr>sp_finished := Suc (sp_finished ?s)\<rparr>"
      obtain r where r: "?async ?s = (r, ?t)" "\<And>x. r \<noteq> Inl (Standard x)"
        using async None by (metis fst_conv option.simps(4))
      then have "snd (handle_execute C s) = ?t"
        by (simp add: tail op_rescue_def split: sum.split raised.split)
      with True None started show ?thesis by (simp add: unowned_def)
    next
      case (Some e)
      then have "?async ?s = (Inl e, ?s)" using async(1) by simp
      then have "snd (handle_execute C s) = snd (?rescue e ?s)" by (simp add: tail op_rescue_def)
      moreover have "snd (op_bind (finish_span C) (\<lambda>_. op_err (Standard x) :: (spans, raised, unit) op) ?s) = snd (finish_span C ?s)" for x
        by (simp add: op_bind_def split: prod.split sum.split)
      ultimately show ?thesis
        using True Some started by (cases e) (simp_all add: unowned_def finish_span_counts)
    qed
  qed
qed

end
