(* ===== verification/Admin.thy ===== *)
theory Admin
  imports Client
begin

text \<open>
  admin.rs: \<open>Prosody::AdminClient\<close>, which creates and deletes Kafka topics. The core's admin
  client and topic builder are parameters.
\<close>

record ('s, 'e, 't) admin_core =
  ac_build_topic :: "setter_call list \<Rightarrow> string + 't"
  ac_create_topic :: "'t \<Rightarrow> ('s, 'e, unit) op"
  ac_delete_topic :: "string \<Rightarrow> ('s, 'e, unit) op"
  ac_to_string :: "'e \<Rightarrow> string"

record admin_client =
  ad_fork :: fork_guard

text \<open>\<open>AdminClient::new\<close>: the configuration, then the core's client, may be refused.\<close>

definition admin_new ::
  "'ctx rb_env \<Rightarrow> bool \<Rightarrow> statics \<Rightarrow> string + unit \<Rightarrow> string + unit \<Rightarrow> rb_error + admin_client"
where
  "admin_new env in_runtime st config new_client =
     (let st = snd (ensure_runtime_context env in_runtime st) in
      res_bind (map_err runtime_error config) (\<lambda>_.
      res_bind (map_err runtime_error new_client) (\<lambda>_.
      res_bind (if st_bridge st = None then Inl (runtime_error ''Bridge not initialized'') else Inr ()) (\<lambda>_.
        Inr \<lparr>ad_fork = fork_guard_new env ''Prosody::AdminClient''\<rparr>))))"

text \<open>
  The parsed arguments of \<open>create_topic\<close>: three required ones, and two keywords that may be
  absent or \<open>nil\<close> (both are \<open>None\<close> once flattened).
\<close>

record topic_args =
  ta_name :: string
  ta_partition_count :: u16
  ta_replication_factor :: u16
  ta_cleanup_policy :: "string option option"
  ta_retention :: "f64 option option"

definition flatten_option :: "'a option option \<Rightarrow> 'a option" where
  "flatten_option x = (case x of None \<Rightarrow> None | Some y \<Rightarrow> y)"

definition topic_setters :: "topic_args \<Rightarrow> setter list" where
  "topic_setters a =
     [plain ''name'' S_string (Some (ta_name a)),
      plain ''partition_count'' S_u16 (Some (ta_partition_count a)),
      plain ''replication_factor'' S_u16 (Some (ta_replication_factor a)),
      plain ''cleanup_policy'' S_string (flatten_option (ta_cleanup_policy a)),
      timed ''retention'' ''retention'' (flatten_option (ta_retention a))]"

definition topic_builder :: "topic_args \<Rightarrow> string + setter_call list" where
  "topic_builder a = run_setters (topic_setters a)"

interpretation topic: setter_conversion topic_builder topic_setters
  by unfold_locales (simp add: topic_builder_def)

definition create_topic where
  "create_topic C args ad env = guarded (ad_fork ad) env
     (op_bind (op_lift args) (\<lambda>a.
     op_bind (op_lift (map_err argument_error (topic_builder a))) (\<lambda>calls.
     op_bind (op_lift (map_err runtime_error (ac_build_topic C calls))) (\<lambda>topic_config.
       await_core env (\<lambda>e. runtime_error (ac_to_string C e)) (ac_create_topic C topic_config)))))"

definition delete_topic where
  "delete_topic C name ad env = guarded (ad_fork ad) env
     (await_core env (\<lambda>e. runtime_error (ac_to_string C e)) (ac_delete_topic C name))"

interpretation create_guard: fork_guarded ad_fork "create_topic C args" for C args
  by (rule fork_guardedI) (rule create_topic_def)

interpretation delete_guard: fork_guarded ad_fork "delete_topic C name" for C name
  by (rule fork_guardedI) (rule delete_topic_def)

lemma topic_builder_iff:
  "(\<exists>calls. topic_builder a = Inr calls) \<longleftrightarrow>
     (\<forall>v\<in>set_option (flatten_option (ta_retention a)). valid_seconds v)"
  by (simp add: topic.accepts_iff topic_setters_def step_ok_timed)

definition sample_topic :: topic_args where
  "sample_topic = \<lparr>ta_name = ''t'', ta_partition_count = 3, ta_replication_factor = 1,
     ta_cleanup_policy = Some None, ta_retention = Some (Some (F64 (- 1)))\<rparr>"

definition unit_admin :: "(nat, string, unit) admin_core" where
  "unit_admin = \<lparr>ac_build_topic = (\<lambda>_. Inr ()), ac_create_topic = (\<lambda>_ s. (Inr (), Suc s)),
     ac_delete_topic = (\<lambda>_ s. (Inr (), Suc s)), ac_to_string = id\<rparr>"

text \<open>
  A topic is created only from a valid request made in the client's own process: a bad
  retention is an ArgumentError, a child process gets the fork error, and in both cases the
  broker is not asked. \<open>AdminClient.new\<close> binds the client to the process that makes it and
  cannot find the bridge missing.
\<close>

theorem create_topic_checked:
  assumes "flatten_option (ta_retention a) = Some v" and "\<not> valid_seconds v"
    and "env_pid env = guard_pid (ad_fork ad)" and "env_pid child \<noteq> guard_pid (ad_fork ad)"
  shows "create_topic C (Inr a) ad env s =
      (Inl (argument_error ''retention: must be a finite, non-negative number of seconds''), s) \<and>
    create_topic C args ad child s = (Inl (fork_error (ad_fork ad)), s) \<and>
    delete_topic C name ad child s = (Inl (fork_error (ad_fork ad)), s) \<and>
    admin_new env in_runtime st (Inr ()) (Inr ()) =
      Inr \<lparr>ad_fork = fork_guard_new env ''Prosody::AdminClient''\<rparr>"
proof -
  have "seconds ''retention'' v = Inl ''retention: must be a finite, non-negative number of seconds''"
    using assms(2) by (simp add: seconds_Inl_iff)
  then have "topic_builder a = Inl ''retention: must be a finite, non-negative number of seconds''"
    using assms(1) by (cases "flatten_option (ta_cleanup_policy a)")
      (simp_all add: topic_builder_def topic_setters_def plain_def timed_def)
  moreover have "st_bridge (snd (ensure_runtime_context env in_runtime st)) \<noteq> None"
    by (simp add: ensure_runtime_context_def get_or_init_def Let_def split: option.splits)
  ultimately show ?thesis
    using assms(3,4)
    by (simp add: create_topic_def guarded_refuse delete_guard.refuse admin_new_def)
qed

theorem create_topic_checked_witness:
  "create_topic unit_admin (Inr sample_topic) \<lparr>ad_fork = fork_guard_new sample_env ''Prosody::AdminClient''\<rparr>
     sample_env 0 = (Inl (argument_error ''retention: must be a finite, non-negative number of seconds''), 0)"
  by (rule create_topic_checked [where child = "sample_env\<lparr>env_pid := 7\<rparr>" and v = "F64 (- 1)",
      THEN conjunct1])
     (simp_all add: sample_topic_def flatten_option_def valid_seconds_def fork_guard_new_def sample_env_def)

end
