(* ===== verification/Spec2Isabelle.thy ===== *)
theory Spec2Isabelle
  imports Gvl Logging Handler_Classes Lifetimes Events Ruby_Handles State_Scans State_Definitions Config_Props Client_Open Requests Startup Worker_Body Dispatch Admin Registration
begin

text \<open>
  A model of the native extension of the prosody Ruby gem (the Rust crate under
  src/ext/prosody) and of the Ruby code under src/lib/prosody that drives it. The gem lets
  Ruby handlers process Kafka messages and timers: a Rust core consumes them, the extension
  turns each into a task for a Ruby thread, waits for its result or for cancellation, and
  tells the core whether to retry. Ruby code in turn calls the core (send, request, timers,
  keyed state, administration) and sleeps while a future of the core runs.

  The parts and their theories, bottom up:

  Prosody_Prelude, Text_Format and Durations hold the machine integers, results, operations
  against an external service (\<open>op\<close>), and the printing and float conversions the code relies
  on. Ruby_Model holds Ruby values, exceptions, the environment of a call (what the VM may
  raise) and the fork guard of util.rs, with the contract \<open>fork_guarded\<close> that every operation
  of a client, admin client or reader is shown to meet. Ruby_Hash is Ruby's \<open>Hash\<close>, with the
  contracts \<open>hash_table\<close> and \<open>insertion_hash\<close> its clients use.

  Gvl models gvl.rs: raw boxes handed through C, panics caught on both sides.

  Bridge models bridge/mod.rs and bridge/callback.rs: the unbounded channel to the Ruby
  thread, batches of at most 16 closures, \<open>run\<close>, \<open>wait_for\<close>, and off-thread drops of Ruby
  values. Bridge_Steps is the interleaving of all its users with the thread, as an inductive
  step relation; Bridge_Props proves its invariants (FIFO, one result at its own turn,
  nothing lost without a kill), and the contract \<open>ruby_executor\<close>, of which the channel and
  thread and the direct call on the heap are both interpretations. The step relation lets
  the count of senders change at any time, which allows more histories than the code has.
  \<open>serve\<close> gives the thread \<open>polls_for n\<close> polls for \<open>n\<close> waiting closures, which suffices by
  \<open>thread_serves_channel\<close>.

  Result_Channel (scheduler/result.rs), Scheduler (the rest of scheduler/, and
  \<open>AsyncTaskProcessor\<close> of lib/prosody/processor.rb as a step relation) and Handler
  (handler/mod.rs, message.rs, trigger.rs) are the way of a task: submitted through the
  bridge, run by a worker, reported through a one-shot channel, raced with cancellation.
  Workers puts the Ruby side of a running task beside the handling: the worker and the
  cancellation watcher of \<open>run_with_cancellation\<close>, the token's queue, exceptions the worker
  does not rescue and the collection of the callback, as one step relation whose invariant
  ties the channel to the way the block ended. Sentry models lib/prosody/sentry.rb, Worker_Body
  the worker's code with every call in it that may raise, as a path of the worker's steps, and
  Dispatch the frame around it and the life of its tracing span. Lifetimes has the construction of a handler with
  its scheduler, and what goes on when the core drops a handling that has not ended; Events
  has the objects a handler method is given. Handler_Classes models lib/prosody/handler.rb:
  method lookup through the modules of a handler, its validation at subscription, and the
  \<open>permanent\<close> and \<open>transient\<close> decorators down to the retry decision.
  \<open>flat_executor\<close> extends \<open>ruby_executor\<close> by the error flattening all scheduler calls share.

  Awaiting models how Ruby-facing methods call the core, and justifies the one-step
  \<open>wait_for\<close> on the detailed bridge. Timers (handler/context/mod.rs) has the time conversion
  and the timer operations; Query, State_Handles, State_Props and State_Deques
  (handler/state/, handler/context/vending.rs, parts of lib/prosody/state) the keyed state,
  with maps and deques refining finite maps and lists, State_Wrappers the Hash-style reads of the
  Ruby handles, State_Sets the set handles with commit and rollback, Ruby_Handles the calls by
  name of value, map and deque handles against a register, a Hash and an Array, State_Scans the traversals
  with their blocks and the reads of published deques, and State_Definitions the definitions of collections, from their constructors
  to registration, vending and readers; Config_Types, Config_Builders,
  Config_State and Config_Props (client/config/) the conversion of the configuration, whose
  builders are lists of setter calls; Ruby_Config and Ruby_Config_Props
  (lib/prosody/configuration.rb) the Ruby configuration with the converter of every option,
  and its way into the native one, field by field; Client, Client_Props (client/), Client_Open
  (from an option hash to a client, and \<open>Client.open\<close> of lib/prosody/client.rb), Requests
  (lib/prosody/request.rb down to client/request.rb), Startup (lib/prosody.rb and the set-up of
  runtime, bridge and tracing by the first native call, of which the statics of Client are an
  abstraction), Published
  (published.rs) and Admin (admin.rs) the remaining objects; Logging (logging.rs) the event
  lines and their delivery; Registration (lib.rs and all init functions) the method tables
  against the calls the Ruby library makes.

  This theory composes them: a state error from the store to the core's retry decision, a
  subscription and the handler methods it leads to, a cancelled task, and a record from the
  core to the handler and back.

  Bounds: the loops of the code are structural in the model, except the scan loops of
  lib/prosody/state.rb, which take a bound on their iterations; one more than the number of
  items left is enough, and a scan that needs more is reported as not ended.

  Parameters, because their code is not in the repository: the Prosody core (stores, timer
  service, high-level client, builders and parsers), serde_magnus, tokio, the async and
  sentry-ruby gems, the Ruby VM's
  answers to method calls, its exception hierarchy (\<open>is_a\<close>), what it makes of user-defined
  objects, and the OpenTelemetry propagator. What a property needs of them is one of its
  hypotheses (\<open>map_laws\<close>, \<open>map_empty_law\<close>, \<open>value_laws\<close>, \<open>set_laws\<close>, \<open>deque_laws\<close>, \<open>deque_front_laws\<close>,
  \<open>deque_reader_laws\<close>, \<open>cursor_laws\<close>, \<open>timer_laws\<close>,
  \<open>serde_laws\<close>, \<open>sentry_laws\<close>, \<open>asks_class\<close>).

  Not modelled: tracing spans and their attributes (but for the count of dispatch spans), the
  allocator, lazily looked-up Ruby classes, the id! macro, Enumerator objects (an enumerator is
  a traversal that has not been given its block), aliases of traversals, warnings, stubs and
  signatures: they are declarations without behaviour of their own, or libraries only called.
\<close>

subsection \<open>From the store to the core's retry decision\<close>

fun category_of :: "erased_category \<Rightarrow> error_category" where
  "category_of Erased_permanent = Category_permanent"
| "category_of Erased_transient = Category_transient"

lemma state_error_permanent:
  assumes "env_const_get env (state_error_name (er_category x)) = None"
  shows "class_permanent (err_class (state_error env x)) = Some (er_category x = Erased_permanent)"
  using assms by (cases "er_category x") (simp_all add: state_error_def)

text \<open>
  C12: A state error keeps its category all the way to the core: when the store fails while a
  handler calls it and the handler lets the Ruby exception escape, the core is told to retry
  a transient store error and not to retry a permanent one.
\<close>

theorem state_error_category_preserved:
  assumes "traced env" and "env_const_get env (state_error_name (er_category x)) = None"
    and "asks_class c exn" and "fst (operation s) = Inl x"
    and "\<And>e. fst (run_state env operation s) = Inl e \<Longrightarrow> fst (handler ''on_message'' d (Message_arg m) w) = Inl e"
  shows "\<exists>p. receive (snd (callback_call c
      (worker_report exn (task_function (on_message handler carrier m d)) w) result_channel_new)) =
        Some (Inl p) \<and>
    classify_error (Processing_failed p) = category_of (er_category x)"
proof -
  have "fst (handler ''on_message'' d (Message_arg m) w) = Inl (state_error env x)"
    by (rule assms(5)) (simp add: assms(1,4))
  then have "fst (task_function (on_message handler carrier m d) w) = Inl (state_error env x)"
    by (cases "handler ''on_message'' d (Message_arg m) w")
       (simp add: on_message_def handle_record_def Let_def)
  then show ?thesis
    using is_permanent_class [OF assms(3), of "state_error env x"] state_error_permanent [OF assms(2)]
    by (cases "er_category x") (simp_all add: worker_report_received)
qed

theorem state_error_category_preserved_witness:
  "\<exists>p. receive (snd (callback_call class_callee
      (worker_report sample_exn (task_function (on_message
         (\<lambda>_ _ _ w. (Inl (state_error sample_env \<lparr>er_category = Erased_permanent, er_message = ''no''\<rparr>), w))
         [] sample_message Normal)) ()) result_channel_new)) = Some (Inl p) \<and>
    classify_error (Processing_failed p) = Category_permanent"
proof -
  let ?x = "\<lparr>er_category = Erased_permanent, er_message = ''no''\<rparr>"
  have "env_const_get sample_env (state_error_name (er_category ?x)) = None"
    by (simp add: sample_env_def)
  from state_error_category_preserved [OF sample_env_traced this class_callee_asks,
      of "\<lambda>s. (Inl ?x, s)" "()" "\<lambda>_ _ _ w. (Inl (state_error sample_env ?x), w)" Normal sample_message "()" "[]"]
  show ?thesis by (simp add: sample_env_traced)
qed

subsection \<open>From the subscription to the handler's methods\<close>

lemma subscribed_valid:
  "client_subscribe C (validate_handler_class h) wrapper cl env st = (Inr r, st') \<Longrightarrow>
     validate_handler_class h = Inr ()"
  by (auto simp: client_subscribe_def guarded_def validate_handler_def op_bind_def op_lift_def
      split: if_splits sum.splits option.splits)

text \<open>
  C13: A subscription that succeeds was made with a handler that serves: every event is then
  answered by a method the handler's own classes define, through its error wrappers only,
  and an invalid handler makes \<open>subscribe\<close> raise without calling the core.
\<close>

theorem subscribed_handler_serves:
  assumes "handler_object_ok h"
  shows "(\<forall>r st'. client_subscribe C (validate_handler_class h) wrapper cl env st = (Inr r, st') \<longrightarrow>
      (\<forall>name\<in>set HANDLER_METHODS. serves h name)) \<and>
    (\<forall>e. validate_handler_class h = Inl e \<longrightarrow>
      (\<exists>x. client_subscribe C (validate_handler_class h) wrapper cl env st = (Inl x, st)))"
proof (intro conjI allI impI ballI)
  show "serves h name" if "client_subscribe C (validate_handler_class h) wrapper cl env st = (Inr r, st')"
    "name \<in> set HANDLER_METHODS" for r st' name
    by (rule validated_serves [OF subscribed_valid [OF that(1)] assms that(2)])
  show "\<exists>x. client_subscribe C (validate_handler_class h) wrapper cl env st = (Inl x, st)"
    if "validate_handler_class h = Inl e" for e
    using that
    by (auto simp: client_subscribe_def guarded_def validate_handler_def op_bind_def op_lift_def
        split: option.split sum.split)
qed

theorem subscribed_handler_serves_witness:
  "client_subscribe counting_core (validate_handler_class
     (sample_handler :: (demand_type \<times> int handler_arg, unit) handler_object)) (Inr ()) sample_client sample_env
     sample_client_state = (Inr (), sample_client_state\<lparr>cs_core := 1\<rparr>) \<and>
   serves (sample_handler :: (demand_type \<times> int handler_arg, unit) handler_object) ''on_timer''"
proof -
  let ?h = "sample_handler :: (demand_type \<times> int handler_arg, unit) handler_object"
  have run: "client_subscribe counting_core (validate_handler_class ?h) (Inr ()) sample_client sample_env
      sample_client_state = (Inr (), sample_client_state\<lparr>cs_core := 1\<rparr>)"
    by (simp add: sample_handler_valid client_subscribe_def guarded_def op_bind_def validate_handler_def
        fork_check_def sample_env_def sample_client_def calm_def on_core_def counting_core_def
        sample_client_state_def)
  with subscribed_handler_serves [OF sample_handler_ok, of counting_core "Inr ()" sample_client sample_env sample_client_state]
  show ?thesis by (auto simp: HANDLER_METHODS_def)
qed

subsection \<open>Cancelled tasks\<close>

text \<open>
  What a worker that is stopped reports is an exception that no class of the library makes
  permanent: the record of a cancelled task is handled again.
\<close>

lemma stopped_task_transient:
  assumes "asks_class c exn"
  shows "\<exists>m. end_outcome c exn Stopped = Inl (Transient m)"
  using is_permanent_class [OF assms, of "runtime_error ''Task cancelled''"]
  by (simp add: task_outcome_def runtime_error_def)

subsection \<open>A record from the core to the handler and back\<close>

lemma handling_can_finish:
  assumes "receive (snd (callback_call c args result_channel_new)) = Some r"
  shows "\<exists>h. handling_run c h \<and> hd_phase h = Finished (map_err Processing_failed r)"
proof -
  let ?h = "handling_start\<lparr>hd_channel := snd (channel_step c (Callback args) result_channel_new)\<rparr>"
  have "handling_step c handling_start ?h"
    using reported [of "Callback args" c handling_start] by (simp add: handling_start_def)
  then have "handling_run c ?h" by (rule more [OF begun])
  moreover have "handling_step c ?h (see_result r ?h)"
    using assms
    by (intro result_ready) (simp_all add: handling_start_def split: prod.splits, metis snd_conv)
  ultimately have "handling_run c (see_result r ?h)" by (rule more)
  then show ?thesis by (intro exI [of _ "see_result r ?h"]) (simp add: see_result_def)
qed



end
